(* ===== verification/Pb_Prelude.thy ===== *)
theory Pb_Prelude
  imports Main "HOL-Library.Word"
begin

text \<open>
  Shared vocabulary of the development: the machine integer types of the C code (LP64: 8-byte
  pointers and \<open>size_t\<close>), little-endian byte encodings of words, the reading of a byte buffer, and
  the generic facts on words and lists that the component theories use.  The collection
  \<open>pb_bits\<close> holds the rewrite rules that turn the masks and shifts of the source
  (\<open>x & 0x7F\<close>, \<open>x & 0x80\<close>) into \<^const>\<open>take_bit\<close> and \<^const>\<open>bit\<close>.
\<close>

unbundle bit_operations_syntax

type_synonym byte = "8 word"
type_synonym u8 = "8 word"
type_synonym u32 = "32 word"
type_synonym u64 = "64 word"
type_synonym size_t = "64 word"
type_synonym addr = "64 word"

named_theorems pb_bits \<open>masks and shifts of the source as take_bit, drop_bit and bit\<close>
named_theorems pb_simps \<open>field equations of the stream and memory operations\<close>

section \<open>Masks\<close>

lemma and_0x7F [pb_bits]: "x AND 0x7F = take_bit 7 (x :: 'a::len word)"
  by (simp add: take_bit_eq_mask mask_eq_exp_minus_1)

lemma and_0xFF [pb_bits]: "x AND 0xFF = take_bit 8 (x :: 'a::len word)"
  by (simp add: take_bit_eq_mask mask_eq_exp_minus_1)

lemma and_7 [pb_bits]: "x AND 7 = take_bit 3 (x :: 'a::len word)"
  by (simp add: take_bit_eq_mask mask_eq_exp_minus_1)

lemma bit_0x80_byte: "bit (0x80 :: byte) n \<longleftrightarrow> n = 7"
proof -
  have eq: "(0x80 :: byte) = push_bit 7 1"
    by simp
  show ?thesis
    unfolding eq bit_push_bit_iff by (auto simp: bit_1_iff)
qed

lemma and_0x80_eq_0 [pb_bits]: "x AND 0x80 = 0 \<longleftrightarrow> \<not> bit (x :: byte) 7"
proof
  assume "x AND 0x80 = 0"
  then have "\<not> bit (x AND 0x80) 7" by simp
  then show "\<not> bit x 7" by (simp add: bit_and_iff bit_0x80_byte)
next
  assume "\<not> bit x 7"
  then show "x AND 0x80 = 0"
    by (intro bit_eqI) (auto simp only: bit_and_iff bit_0x80_byte bit_0_eq bot_fun_def bot_bool_def)
qed

lemma drop_bit_0_mono:
  assumes "drop_bit m (v :: 'a::len word) = 0" and "m \<le> n"
  shows "drop_bit n v = 0"
proof -
  from assms(2) obtain k where "n = k + m" by (metis le_Suc_ex add.commute)
  then have "drop_bit n v = drop_bit k (drop_bit m v)" by simp
  with assms(1) show ?thesis by simp
qed

lemma take_bit_self_bit: "take_bit k (v :: 'a::len word) = v \<Longrightarrow> bit v i \<Longrightarrow> i < k"
  by (metis bit_take_bit_iff)

lemma drop_bit_0_bit:
  assumes "drop_bit k (v :: 'a::len word) = 0" and "k \<le> i"
  shows "\<not> bit v i"
proof
  assume "bit v i"
  then have "bit (drop_bit k v) (i - k)" using assms(2) by (simp add: bit_drop_bit_eq)
  with assms(1) show False by simp
qed

text \<open>Joining the byte at bit \<open>k\<close> with what lies above it.\<close>

lemma join_byte:
  "push_bit k (ucast (ucast (drop_bit k v) :: byte)) OR push_bit (k + 8) (drop_bit (k + 8) v) =
     push_bit k (drop_bit k (v :: 'a::len word))"
proof (rule bit_word_eqI)
  fix n
  assume n: "n < LENGTH('a)"
  show "bit (push_bit k (ucast (ucast (drop_bit k v) :: byte)) OR push_bit (k + 8) (drop_bit (k + 8) v)) n =
      bit (push_bit k (drop_bit k v)) n"
  proof (cases "n < k + 8")
    case True
    with n show ?thesis by (auto simp: bit_simps)
  next
    case False
    then obtain m where "n = k + 8 + m" by (metis le_Suc_ex not_less)
    with n show ?thesis by (auto simp: bit_simps add.commute add.left_commute)
  qed
qed

lemma last_byte_32: "push_bit 24 (ucast (ucast (drop_bit 24 v) :: byte)) = push_bit 24 (drop_bit 24 (v :: u32))"
  by (rule bit_word_eqI) (auto simp: bit_simps)

lemma last_byte_64: "push_bit 56 (ucast (ucast (drop_bit 56 v) :: byte)) = push_bit 56 (drop_bit 56 (v :: u64))"
  by (rule bit_word_eqI) (auto simp: bit_simps)

section \<open>Reading a buffer\<close>

text \<open>
  \<open>buf_take n bs\<close>: the \<open>n\<close> bytes found at a pointer whose buffer holds \<open>bs\<close>.  What C finds behind the
  end of the buffer is not determined; the model reads zeros there, and the stream invariants show
  that the code never does.
\<close>

definition buf_take :: "nat \<Rightarrow> byte list \<Rightarrow> byte list" where
  "buf_take n bs = take n bs @ replicate (n - length bs) 0"

lemma length_buf_take [simp]: "length (buf_take n bs) = n"
  by (simp add: buf_take_def)

lemma buf_take_le [simp]: "n \<le> length bs \<Longrightarrow> buf_take n bs = take n bs"
  by (simp add: buf_take_def)

lemma buf_take_0 [simp]: "buf_take 0 bs = []"
  by (simp add: buf_take_def)

lemma buf_take_append_eq: "length xs = n \<Longrightarrow> buf_take n (xs @ ys) = xs"
  by simp

section \<open>Unsigned comparisons and subtraction\<close>

lemma unat_minus_le: "y \<le> x \<Longrightarrow> unat (x - y) = unat x - unat (y :: 'a::len word)"
  by (rule unat_sub)

lemma unat_of_nat64: "n < 2 ^ 64 \<Longrightarrow> unat (of_nat n :: size_t) = n"
  by (simp add: unat_of_nat take_bit_nat_eq_self)

lemma unat_of_nat32: "n < 2 ^ 32 \<Longrightarrow> unat (of_nat n :: u32) = n"
  by (simp add: unat_of_nat take_bit_nat_eq_self)

lemma unat_lt64: "unat (x :: size_t) < 2 ^ 64"
  using unsigned_less [of x] by simp

lemma unat_ucast32 [simp]: "unat (ucast (n :: u32) :: u64) = unat n"
  using unsigned_less [of n, where 'a = nat] by (simp add: unsigned_ucast_eq take_bit_nat_eq_self)

lemma unat_pos_if: "(x :: 'a::len word) \<noteq> 0 \<Longrightarrow> 0 < unat x"
  by (simp add: unat_gt_0)

section \<open>Little-endian encodings\<close>

text \<open>\<open>le_bytes k w\<close>: the \<open>k\<close> low bytes of \<open>w\<close>, least significant first, as memory holds an integer of
  \<open>k\<close> bytes; \<open>le_word\<close> reads them back.\<close>

primrec le_bytes :: "nat \<Rightarrow> u64 \<Rightarrow> byte list" where
  "le_bytes 0 w = []"
| "le_bytes (Suc k) w = ucast w # le_bytes k (drop_bit 8 w)"

primrec le_word :: "byte list \<Rightarrow> u64" where
  "le_word [] = 0"
| "le_word (b # bs) = ucast b OR push_bit 8 (le_word bs)"

lemma length_le_bytes [simp]: "length (le_bytes k w) = k"
  by (induction k arbitrary: w) auto

lemma le_word_le_bytes: "le_word (le_bytes k w) = take_bit (8 * k) w"
proof (induction k arbitrary: w)
  case (Suc k)
  show ?case
    by (rule bit_eqI) (auto simp: Suc.IH bit_simps)
qed simp

lemma bit_le_word: "bit (le_word bs) i \<longleftrightarrow> i < 64 \<and> i < 8 * length bs \<and> bit (bs ! (i div 8)) (i mod 8)"
proof (induction bs arbitrary: i)
  case (Cons b bs)
  show ?case
  proof (cases "i < 8")
    case True
    then show ?thesis by (auto simp: bit_simps)
  next
    case False
    then obtain j where j: "i = 8 + j" by (metis le_Suc_ex not_less)
    moreover have "(8 + j) div 8 = Suc (j div 8)" and "(8 + j) mod 8 = j mod 8" by auto
    moreover have "\<not> bit b (8 + j)"
      using bit_imp_le_length [of b "8 + j"] by auto
    ultimately show ?thesis
      using Cons.IH [of j] by (auto simp: bit_simps)
  qed
qed simp

end
