(* ===== verification/Pb_Types.thy ===== *)
theory Pb_Types
  imports Pb_Prelude
begin

text \<open>
  The data types and constants of \<open>pb.h\<close>: field type codes, wire types and the field descriptor
  \<open>pb_field_t\<close>, at the widths of the build (\<open>PB_FIELD_32BIT\<close>: \<open>pb_size_t\<close> is 32 bits wide;
  \<open>PB_NO_PACKED_STRUCTS\<close>; LP64).  The constants are unfolded by the collection \<open>pb_consts\<close>.
\<close>

named_theorems pb_consts \<open>values of the constants of pb.h\<close>

type_synonym pb_type_t = u8
type_synonym pb_size_t = u32
type_synonym pb_ssize_t = u32 \<comment> \<open>read through scast\<close>
type_synonym pb_wire_type_t = u32

section \<open>Field data types\<close>

definition PB_LTYPE_BOOL :: pb_type_t where [pb_consts]: "PB_LTYPE_BOOL = 0x00"
definition PB_LTYPE_VARINT :: pb_type_t where [pb_consts]: "PB_LTYPE_VARINT = 0x01"
definition PB_LTYPE_UVARINT :: pb_type_t where [pb_consts]: "PB_LTYPE_UVARINT = 0x02"
definition PB_LTYPE_SVARINT :: pb_type_t where [pb_consts]: "PB_LTYPE_SVARINT = 0x03"
definition PB_LTYPE_FIXED32 :: pb_type_t where [pb_consts]: "PB_LTYPE_FIXED32 = 0x04"
definition PB_LTYPE_FIXED64 :: pb_type_t where [pb_consts]: "PB_LTYPE_FIXED64 = 0x05"
definition PB_LTYPE_LAST_PACKABLE :: pb_type_t where [pb_consts]: "PB_LTYPE_LAST_PACKABLE = 0x05"
definition PB_LTYPE_BYTES :: pb_type_t where [pb_consts]: "PB_LTYPE_BYTES = 0x06"
definition PB_LTYPE_STRING :: pb_type_t where [pb_consts]: "PB_LTYPE_STRING = 0x07"
definition PB_LTYPE_SUBMESSAGE :: pb_type_t where [pb_consts]: "PB_LTYPE_SUBMESSAGE = 0x08"
definition PB_LTYPE_EXTENSION :: pb_type_t where [pb_consts]: "PB_LTYPE_EXTENSION = 0x09"
definition PB_LTYPE_FIXED_LENGTH_BYTES :: pb_type_t
  where [pb_consts]: "PB_LTYPE_FIXED_LENGTH_BYTES = 0x0A"
definition PB_LTYPES_COUNT :: nat where [pb_consts]: "PB_LTYPES_COUNT = 0x0B"
definition PB_LTYPE_MASK :: pb_type_t where [pb_consts]: "PB_LTYPE_MASK = 0x0F"

definition PB_HTYPE_REQUIRED :: pb_type_t where [pb_consts]: "PB_HTYPE_REQUIRED = 0x00"
definition PB_HTYPE_OPTIONAL :: pb_type_t where [pb_consts]: "PB_HTYPE_OPTIONAL = 0x10"
definition PB_HTYPE_REPEATED :: pb_type_t where [pb_consts]: "PB_HTYPE_REPEATED = 0x20"
definition PB_HTYPE_ONEOF :: pb_type_t where [pb_consts]: "PB_HTYPE_ONEOF = 0x30"
definition PB_HTYPE_MASK :: pb_type_t where [pb_consts]: "PB_HTYPE_MASK = 0x30"

definition PB_ATYPE_STATIC :: pb_type_t where [pb_consts]: "PB_ATYPE_STATIC = 0x00"
definition PB_ATYPE_POINTER :: pb_type_t where [pb_consts]: "PB_ATYPE_POINTER = 0x80"
definition PB_ATYPE_CALLBACK :: pb_type_t where [pb_consts]: "PB_ATYPE_CALLBACK = 0x40"
definition PB_ATYPE_MASK :: pb_type_t where [pb_consts]: "PB_ATYPE_MASK = 0xC0"

definition PB_ATYPE :: "pb_type_t \<Rightarrow> pb_type_t" where "PB_ATYPE x = x AND PB_ATYPE_MASK"
definition PB_HTYPE :: "pb_type_t \<Rightarrow> pb_type_t" where "PB_HTYPE x = x AND PB_HTYPE_MASK"
definition PB_LTYPE :: "pb_type_t \<Rightarrow> pb_type_t" where "PB_LTYPE x = x AND PB_LTYPE_MASK"

lemma bit_0x10_0x20: "bit (16 :: u8) n \<longleftrightarrow> n = 4" "bit (32 :: u8) n \<longleftrightarrow> n = 5"
proof -
  have eq: "(16 :: u8) = push_bit 4 1" "(32 :: u8) = push_bit 5 1" by simp_all
  show "bit (16 :: u8) n \<longleftrightarrow> n = 4" "bit (32 :: u8) n \<longleftrightarrow> n = 5"
    unfolding eq bit_push_bit_iff by (auto simp: bit_1_iff)
qed

lemma bit_PB_HTYPE: "bit (PB_HTYPE x) n \<longleftrightarrow> (n = 4 \<or> n = 5) \<and> bit x n"
proof -
  have eq: "PB_HTYPE_MASK = 16 OR 32" by (simp add: pb_consts)
  show ?thesis unfolding PB_HTYPE_def eq bit_and_iff bit_or_iff bit_0x10_0x20 by auto
qed

text \<open>The four repetition rules are all values of the two bits.\<close>

lemma PB_HTYPE_cases:
  "PB_HTYPE x = PB_HTYPE_REQUIRED \<or> PB_HTYPE x = PB_HTYPE_OPTIONAL \<or>
   PB_HTYPE x = PB_HTYPE_REPEATED \<or> PB_HTYPE x = PB_HTYPE_ONEOF"
proof -
  have eq: "PB_HTYPE x = (if bit x 4 then 16 else 0) OR (if bit x 5 then 32 else 0)"
    by (rule bit_word_eqI; cases "bit x 4"; cases "bit x 5")
      (auto simp only: bit_PB_HTYPE bit_or_iff bit_0x10_0x20 if_True if_False bit_0_eq bot_fun_def bot_bool_def)
  show ?thesis
    unfolding eq by (cases "bit x 4"; cases "bit x 5") (simp_all add: pb_consts)
qed

definition PB_SIZE_MAX :: pb_size_t where [pb_consts]: "PB_SIZE_MAX = - 1"

definition PB_MAX_REQUIRED_FIELDS :: u32 where [pb_consts]: "PB_MAX_REQUIRED_FIELDS = 64"

section \<open>Wire types\<close>

definition PB_WT_VARINT :: pb_wire_type_t where [pb_consts]: "PB_WT_VARINT = 0"
definition PB_WT_64BIT :: pb_wire_type_t where [pb_consts]: "PB_WT_64BIT = 1"
definition PB_WT_STRING :: pb_wire_type_t where [pb_consts]: "PB_WT_STRING = 2"
definition PB_WT_32BIT :: pb_wire_type_t where [pb_consts]: "PB_WT_32BIT = 5"

section \<open>Field descriptors\<close>

text \<open>
  One entry of a descriptor array.  \<open>fptr\<close> is the address of the submessage descriptor or of the
  default value, 0 when there is none.
\<close>

record pb_field =
  tag :: pb_size_t
  ftype :: pb_type_t
  data_offset :: pb_size_t
  size_offset :: pb_ssize_t
  data_size :: pb_size_t
  array_size :: pb_size_t
  fptr :: addr

definition PB_LAST_FIELD :: pb_field where
  "PB_LAST_FIELD = \<lparr>tag = 0, ftype = 0, data_offset = 0, size_offset = 0, data_size = 0,
     array_size = 0, fptr = 0\<rparr>"

text \<open>The array entry at index \<open>i\<close>; the array ends with \<^const>\<open>PB_LAST_FIELD\<close>.\<close>

definition field_at :: "pb_field list \<Rightarrow> nat \<Rightarrow> pb_field" where
  "field_at fs i = (if i < length fs then fs ! i else PB_LAST_FIELD)"

lemma field_at_simps [simp]:
  "i < length fs \<Longrightarrow> field_at fs i = fs ! i"
  "length fs \<le> i \<Longrightarrow> field_at fs i = PB_LAST_FIELD"
  by (simp_all add: field_at_def)

section \<open>Error messages\<close>

text \<open>\<open>PB_SET_ERROR\<close> keeps the first message; \<open>PB_GET_ERROR\<close> is never null.\<close>

definition PB_SET_ERROR :: "string option \<Rightarrow> string \<Rightarrow> string option" where
  "PB_SET_ERROR old msg = (case old of Some m \<Rightarrow> Some m | None \<Rightarrow> Some msg)"

definition PB_GET_ERROR :: "string option \<Rightarrow> string" where
  "PB_GET_ERROR e = (case e of Some m \<Rightarrow> m | None \<Rightarrow> ''(none)'')"

lemma PB_SET_ERROR_not_None [simp]: "PB_SET_ERROR old msg \<noteq> None"
  by (simp add: PB_SET_ERROR_def split: option.splits)

lemma PB_SET_ERROR_Some [simp]: "PB_SET_ERROR (Some m) msg = Some m"
  by (simp add: PB_SET_ERROR_def)

lemma PB_SET_ERROR_None [simp]: "PB_SET_ERROR None msg = Some msg"
  by (simp add: PB_SET_ERROR_def)

end
