(* ===== verification/Pb_IStream.thy ===== *)
theory Pb_IStream
  imports Pb_Types
begin

text \<open>
  Input streams (\<open>pb_istream_t\<close> of \<open>pb_decode.h\<close>) and the stream-level part of \<open>pb_decode.c\<close>: reading,
  skipping, varints, tags, fixed-width values and length-limited substreams.

  A stream reads either from a memory buffer (\<open>BufRead\<close>: callback \<open>buf_read\<close>, the bytes from the
  current position on) or through a user callback with its own state (\<open>UserRead\<close>).  A user
  callback that succeeds leaves \<open>bytes_left\<close> alone, as \<open>pb_decode.h\<close> asks; one that fails may have
  set \<open>bytes_left\<close> to 0 to report the end of its input (the flag of \<open>ReadFail\<close>).
\<close>

section \<open>Streams\<close>

datatype 's read_result = ReadOk "byte list" 's | ReadFail 's bool

datatype 's pb_isource = BufRead "byte list" | UserRead "'s \<Rightarrow> nat \<Rightarrow> 's read_result" 's

record 's pb_istream =
  isource :: "'s pb_isource"
  bytes_left :: size_t
  ierrmsg :: "string option"

definition ierror :: "string \<Rightarrow> 's pb_istream \<Rightarrow> 's pb_istream" where
  "ierror msg s = s\<lparr>ierrmsg := PB_SET_ERROR (ierrmsg s) msg\<rparr>"

definition is_buf_read :: "'s pb_istream \<Rightarrow> bool" where
  "is_buf_read s = (case isource s of BufRead bs \<Rightarrow> True | UserRead cb st \<Rightarrow> False)"

definition buf_read :: "byte list \<Rightarrow> nat \<Rightarrow> byte list \<times> byte list" where
  "buf_read bs count = (buf_take count bs, drop count bs)"

text \<open>The call \<open>stream->callback(stream, buf, count)\<close>: the bytes stored at \<open>buf\<close>, or \<open>None\<close> for false.\<close>

definition icallback :: "'s pb_istream \<Rightarrow> nat \<Rightarrow> byte list option \<times> 's pb_istream" where
  "icallback s count =
     (case isource s of
        BufRead bs \<Rightarrow>
          (case buf_read bs count of (out, rest) \<Rightarrow> (Some out, s\<lparr>isource := BufRead rest\<rparr>))
      | UserRead cb st \<Rightarrow>
          (case cb st count of
             ReadOk bs st' \<Rightarrow> (Some (buf_take count bs), s\<lparr>isource := UserRead cb st'\<rparr>)
           | ReadFail st' eof \<Rightarrow>
               (None, s\<lparr>isource := UserRead cb st',
                        bytes_left := (if eof then 0 else bytes_left s)\<rparr>)))"

text \<open>The part of \<open>pb_read\<close> after the skip branch: check, call, count.\<close>

definition pb_read_checked :: "'s pb_istream \<Rightarrow> size_t \<Rightarrow> byte list option \<times> 's pb_istream" where
  "pb_read_checked s count =
     (if bytes_left s < count then (None, ierror ''end-of-stream'' s)
      else case icallback s (unat count) of
             (None, s') \<Rightarrow> (None, ierror ''io error'' s')
           | (Some bs, s') \<Rightarrow> (Some bs, s'\<lparr>bytes_left := bytes_left s' - count\<rparr>))"

text \<open>The loop that skips the input of a user callback through a buffer of 16 bytes.\<close>

function pb_read_skip :: "'s pb_istream \<Rightarrow> size_t \<Rightarrow> byte list option \<times> 's pb_istream" where
  "pb_read_skip s count =
     (if 16 < count then
        (case pb_read_checked s 16 of
           (None, s') \<Rightarrow> (None, s')
         | (Some tmp, s') \<Rightarrow> pb_read_skip s' (count - 16))
      else if count = 0 then (Some [], s)
      else pb_read_checked s count)"
  by pat_completeness auto
termination
proof (relation "measure (\<lambda>(s, count). unat count)")
  show "wf (measure (\<lambda>(s :: 's pb_istream, count :: size_t). unat count))" by simp
next
  fix count :: size_t and x :: "byte list option \<times> 's pb_istream" and s s'
  assume "16 < count"
  then have "count - 16 < count"
    by (simp add: word_less_nat_alt unat_sub word_le_nat_alt)
  then show "((s', count - 16), s, count) \<in> measure (\<lambda>(s, count). unat count)"
    by (simp add: word_less_nat_alt)
qed

text \<open>\<open>pb_read\<close>; \<open>null\<close> tells that \<open>buf\<close> is the null pointer.\<close>

definition pb_read :: "'s pb_istream \<Rightarrow> bool \<Rightarrow> size_t \<Rightarrow> byte list option \<times> 's pb_istream" where
  "pb_read s null count =
     (if count = 0 then (Some [], s)
      else if null \<and> \<not> is_buf_read s then pb_read_skip s count
      else pb_read_checked s count)"

definition pb_readbyte :: "'s pb_istream \<Rightarrow> byte option \<times> 's pb_istream" where
  "pb_readbyte s =
     (if bytes_left s = 0 then (None, ierror ''end-of-stream'' s)
      else case icallback s 1 of
             (None, s') \<Rightarrow> (None, ierror ''io error'' s')
           | (Some bs, s') \<Rightarrow> (Some (hd bs), s'\<lparr>bytes_left := bytes_left s' - 1\<rparr>))"

definition pb_istream_from_buffer :: "byte list \<Rightarrow> size_t \<Rightarrow> 's pb_istream" where
  "pb_istream_from_buffer buf bufsize =
     \<lparr>isource = BufRead buf, bytes_left = bufsize, ierrmsg = None\<rparr>"

section \<open>Progress: every successful read shortens the stream\<close>

lemma ierror_simps [simp, pb_simps]:
  "isource (ierror msg s) = isource s"
  "bytes_left (ierror msg s) = bytes_left s"
  "ierrmsg (ierror msg s) = PB_SET_ERROR (ierrmsg s) msg"
  by (simp_all add: ierror_def)

lemma icallback_bytes_left:
  "icallback s n = (Some bs, s') \<Longrightarrow> bytes_left s' = bytes_left s"
  by (auto simp: icallback_def buf_read_def split: pb_isource.splits read_result.splits)

lemma icallback_length: "icallback s n = (Some bs, s') \<Longrightarrow> length bs = n"
  by (auto simp: icallback_def buf_read_def split: pb_isource.splits read_result.splits)

lemma pb_readbyte_decreases:
  "pb_readbyte s = (Some b, s') \<Longrightarrow> unat (bytes_left s') < unat (bytes_left s)"
  by (auto simp: pb_readbyte_def unat_minus_one unat_gt_0 split: if_splits prod.splits option.splits
      dest!: icallback_bytes_left)

lemma pb_read_checked_decreases:
  assumes "pb_read_checked s count = (Some bs, s')"
  shows "unat (bytes_left s') + unat count = unat (bytes_left s)"
  using assms
  by (auto simp: pb_read_checked_def not_less unat_sub word_le_nat_alt split: if_splits prod.splits option.splits
      dest!: icallback_bytes_left)

lemma pb_read_checked_length:
  "pb_read_checked s count = (Some bs, s') \<Longrightarrow> length bs = unat count"
  by (auto simp: pb_read_checked_def split: if_splits prod.splits option.splits dest!: icallback_length)


section \<open>Varints\<close>

text \<open>
  The \<open>do ... while (byte & 0x80)\<close> loop of \<open>pb_decode_varint32_eof\<close>.  \<open>bitpos\<close> is a \<open>uint_fast8_t\<close>,
  8 bits wide on the targets of the application: the cast after the addition wraps.
\<close>

function varint32_loop :: "'s pb_istream \<Rightarrow> u8 \<Rightarrow> u32 \<Rightarrow> (u32 \<times> u8 \<times> byte) option \<times> 's pb_istream" where
  "varint32_loop s bitpos result =
     (case pb_readbyte s of
        (None, s') \<Rightarrow> (None, s')
      | (Some byte, s') \<Rightarrow>
          (let sign_extension = (if bitpos < 63 then 0xFF else 0x01) in
           if 32 \<le> bitpos \<and> byte AND 0x7F \<noteq> 0 \<and> (drop_bit 31 result = 0 \<or> byte \<noteq> sign_extension)
           then (None, ierror ''varint overflow'' s')
           else
             (let result' = (if 32 \<le> bitpos then result
                             else result OR push_bit (unat bitpos) (ucast (byte AND 0x7F)));
                  bitpos' = bitpos + 7
              in if byte AND 0x80 \<noteq> 0 then varint32_loop s' bitpos' result'
                 else (Some (result', bitpos', byte), s'))))"
  by pat_completeness auto
termination
  by (relation "measure (\<lambda>(s, bitpos, result). unat (bytes_left s))")
    (auto dest: pb_readbyte_decreases sym)

text \<open>The value, the flag stored through \<open>eof\<close>, and the stream.\<close>

definition pb_decode_varint32_eof :: "'s pb_istream \<Rightarrow> (u32 option \<times> bool) \<times> 's pb_istream" where
  "pb_decode_varint32_eof s =
     (case pb_readbyte s of
        (None, s') \<Rightarrow> ((None, bytes_left s' = 0), s')
      | (Some byte, s') \<Rightarrow>
          if byte AND 0x80 = 0 then ((Some (ucast byte), False), s')
          else
            (case varint32_loop s' 7 (ucast (byte AND 0x7F)) of
               (None, s'') \<Rightarrow> ((None, False), s'')
             | (Some (result, bitpos, byte'), s'') \<Rightarrow>
                 if bitpos = 35 \<and> byte' AND 0x70 \<noteq> 0
                 then ((None, False), ierror ''varint overflow'' s'')
                 else ((Some result, False), s'')))"

definition pb_decode_varint32 :: "'s pb_istream \<Rightarrow> u32 option \<times> 's pb_istream" where
  "pb_decode_varint32 s = (case pb_decode_varint32_eof s of ((r, eof), s') \<Rightarrow> (r, s'))"

function varint64_loop :: "'s pb_istream \<Rightarrow> u8 \<Rightarrow> u64 \<Rightarrow> u64 option \<times> 's pb_istream" where
  "varint64_loop s bitpos result =
     (if 64 \<le> bitpos then (None, ierror ''varint overflow'' s)
      else
        case pb_readbyte s of
          (None, s') \<Rightarrow> (None, s')
        | (Some byte, s') \<Rightarrow>
            (let result' = result OR push_bit (unat bitpos) (ucast (byte AND 0x7F));
                 bitpos' = bitpos + 7
             in if byte AND 0x80 \<noteq> 0 then varint64_loop s' bitpos' result'
                else (Some result', s')))"
  by pat_completeness auto
termination
  by (relation "measure (\<lambda>(s, bitpos, result). unat (bytes_left s))")
    (auto dest: pb_readbyte_decreases sym)

definition pb_decode_varint :: "'s pb_istream \<Rightarrow> u64 option \<times> 's pb_istream" where
  "pb_decode_varint s = varint64_loop s 0 0"

function pb_skip_varint :: "'s pb_istream \<Rightarrow> bool \<times> 's pb_istream" where
  "pb_skip_varint s =
     (case pb_read s False 1 of
        (None, s') \<Rightarrow> (False, s')
      | (Some bs, s') \<Rightarrow> if hd bs AND 0x80 \<noteq> 0 then pb_skip_varint s' else (True, s'))"
  by pat_completeness auto
termination
  by (relation "measure (\<lambda>s. unat (bytes_left s))")
    (auto simp: pb_read_def dest!: sym [of "(Some _, _)"] pb_read_checked_decreases)

declare varint32_loop.simps [simp del] varint64_loop.simps [simp del] pb_skip_varint.simps [simp del]
  pb_read_skip.simps [simp del]

definition pb_skip_string :: "'s pb_istream \<Rightarrow> bool \<times> 's pb_istream" where
  "pb_skip_string s =
     (case pb_decode_varint32 s of
        (None, s') \<Rightarrow> (False, s')
      | (Some len, s') \<Rightarrow>
          (case pb_read s' True (ucast len) of (r, s'') \<Rightarrow> (r \<noteq> None, s'')))"

section \<open>Tags and fields to skip\<close>

text \<open>\<open>pb_decode_tag\<close>: the wire type and tag (\<open>None\<close> for a false return), \<open>eof\<close>, and the stream.\<close>

definition pb_decode_tag ::
  "'s pb_istream \<Rightarrow> ((pb_wire_type_t \<times> u32) option \<times> bool) \<times> 's pb_istream" where
  "pb_decode_tag s =
     (case pb_decode_varint32_eof s of
        ((None, eof), s') \<Rightarrow> ((None, eof), s')
      | ((Some temp, eof), s') \<Rightarrow>
          if temp = 0 then ((None, True), s')
          else ((Some (temp AND 7, drop_bit 3 temp), eof), s'))"

definition pb_skip_field :: "'s pb_istream \<Rightarrow> pb_wire_type_t \<Rightarrow> bool \<times> 's pb_istream" where
  "pb_skip_field s wire_type =
     (if wire_type = PB_WT_VARINT then pb_skip_varint s
      else if wire_type = PB_WT_64BIT then (case pb_read s True 8 of (r, s') \<Rightarrow> (r \<noteq> None, s'))
      else if wire_type = PB_WT_STRING then pb_skip_string s
      else if wire_type = PB_WT_32BIT then (case pb_read s True 4 of (r, s') \<Rightarrow> (r \<noteq> None, s'))
      else (False, ierror ''invalid wire_type'' s))"

text \<open>
  \<open>read_raw_value\<close>: the bytes read, whose number is the size returned.  \<open>room\<close> is what is left of
  \<open>max_size\<close> in the varint loop.
\<close>

fun read_raw_varint :: "'s pb_istream \<Rightarrow> nat \<Rightarrow> byte list option \<times> 's pb_istream" where
  "read_raw_varint s 0 = (None, s)"
| "read_raw_varint s (Suc room) =
     (case pb_read s False 1 of
        (None, s') \<Rightarrow> (None, s')
      | (Some bs, s') \<Rightarrow>
          if hd bs AND 0x80 \<noteq> 0
          then (case read_raw_varint s' room of
                  (None, s'') \<Rightarrow> (None, s'')
                | (Some rest, s'') \<Rightarrow> (Some (hd bs # rest), s''))
          else (Some [hd bs], s'))"

definition read_raw_value ::
  "'s pb_istream \<Rightarrow> pb_wire_type_t \<Rightarrow> nat \<Rightarrow> byte list option \<times> 's pb_istream" where
  "read_raw_value s wire_type max_size =
     (if wire_type = PB_WT_VARINT then read_raw_varint s max_size
      else if wire_type = PB_WT_64BIT then pb_read s False 8
      else if wire_type = PB_WT_32BIT then pb_read s False 4
      else (None, ierror ''invalid wire_type'' s))"

section \<open>Substreams\<close>

definition pb_make_string_substream :: "'s pb_istream \<Rightarrow> 's pb_istream option \<times> 's pb_istream" where
  "pb_make_string_substream s =
     (case pb_decode_varint32 s of
        (None, s') \<Rightarrow> (None, s')
      | (Some sz, s') \<Rightarrow>
          if bytes_left s' < ucast sz then (None, ierror ''parent stream too short'' s')
          else (Some (s'\<lparr>bytes_left := ucast sz\<rparr>),
                s'\<lparr>bytes_left := bytes_left s' - ucast sz\<rparr>))"

definition pb_close_string_substream :: "'s pb_istream \<Rightarrow> 's pb_istream \<Rightarrow> bool \<times> 's pb_istream" where
  "pb_close_string_substream s sub =
     (let (ok, sub') = (if bytes_left sub \<noteq> 0
                        then (case pb_read sub True (bytes_left sub) of (r, sub') \<Rightarrow> (r \<noteq> None, sub'))
                        else (True, sub))
      in if ok then (True, s\<lparr>isource := isource sub', ierrmsg := ierrmsg sub'\<rparr>) else (False, s))"

section \<open>Signed and fixed-width values\<close>

definition pb_decode_svarint :: "'s pb_istream \<Rightarrow> u64 option \<times> 's pb_istream" where
  "pb_decode_svarint s =
     (case pb_decode_varint s of
        (None, s') \<Rightarrow> (None, s')
      | (Some value, s') \<Rightarrow>
          (Some (if value AND 1 \<noteq> 0 then NOT (drop_bit 1 value) else drop_bit 1 value), s'))"

definition pb_decode_fixed32 :: "'s pb_istream \<Rightarrow> u32 option \<times> 's pb_istream" where
  "pb_decode_fixed32 s =
     (case pb_read s False 4 of
        (None, s') \<Rightarrow> (None, s')
      | (Some bytes, s') \<Rightarrow>
          (Some (push_bit 0 (ucast (bytes ! 0)) OR push_bit 8 (ucast (bytes ! 1)) OR
                 push_bit 16 (ucast (bytes ! 2)) OR push_bit 24 (ucast (bytes ! 3))), s'))"

definition pb_decode_fixed64 :: "'s pb_istream \<Rightarrow> u64 option \<times> 's pb_istream" where
  "pb_decode_fixed64 s =
     (case pb_read s False 8 of
        (None, s') \<Rightarrow> (None, s')
      | (Some bytes, s') \<Rightarrow>
          (Some (push_bit 0 (ucast (bytes ! 0)) OR push_bit 8 (ucast (bytes ! 1)) OR
                 push_bit 16 (ucast (bytes ! 2)) OR push_bit 24 (ucast (bytes ! 3)) OR
                 push_bit 32 (ucast (bytes ! 4)) OR push_bit 40 (ucast (bytes ! 5)) OR
                 push_bit 48 (ucast (bytes ! 6)) OR push_bit 56 (ucast (bytes ! 7))), s'))"

definition pb_decode_bool :: "'s pb_istream \<Rightarrow> bool option \<times> 's pb_istream" where
  "pb_decode_bool s =
     (case pb_decode_varint32 s of (None, s') \<Rightarrow> (None, s') | (Some value, s') \<Rightarrow> (Some (value \<noteq> 0), s'))"

end
