(* ===== verification/Pb_Memory.thy ===== *)
theory Pb_Memory
  imports Pb_Types
begin

text \<open>
  The memory that messages live in: a flat array of bytes addressed by 64-bit pointers, little-endian
  integers, and the blocks handed out by \<open>pb_realloc\<close>.  An address range is a start and a length, and
  wraps at the top of the address space (\<open>in_range\<close>), so frame conditions need no side condition on overflow.
\<close>

record mem =
  mbytes :: "addr \<Rightarrow> byte"
  mblocks :: "(addr \<times> size_t) list"

section \<open>Loads and stores\<close>

definition load_bytes :: "mem \<Rightarrow> addr \<Rightarrow> nat \<Rightarrow> byte list" where
  "load_bytes m a n = map (\<lambda>i. mbytes m (a + of_nat i)) [0..<n]"

definition store_bytes :: "mem \<Rightarrow> addr \<Rightarrow> byte list \<Rightarrow> mem" where
  "store_bytes m a bs =
     m\<lparr>mbytes := (\<lambda>x. if unat (x - a) < length bs then bs ! unat (x - a) else mbytes m x)\<rparr>"

definition load_int :: "mem \<Rightarrow> addr \<Rightarrow> nat \<Rightarrow> u64" where
  "load_int m a k = le_word (load_bytes m a k)"

definition store_int :: "mem \<Rightarrow> addr \<Rightarrow> nat \<Rightarrow> u64 \<Rightarrow> mem" where
  "store_int m a k w = store_bytes m a (le_bytes k w)"

definition load32 :: "mem \<Rightarrow> addr \<Rightarrow> u32" where "load32 m a = ucast (load_int m a 4)"
definition store32 :: "mem \<Rightarrow> addr \<Rightarrow> u32 \<Rightarrow> mem" where "store32 m a w = store_int m a 4 (ucast w)"
definition load_ptr :: "mem \<Rightarrow> addr \<Rightarrow> addr" where "load_ptr m a = load_int m a 8"
definition store_ptr :: "mem \<Rightarrow> addr \<Rightarrow> addr \<Rightarrow> mem" where "store_ptr m a p = store_int m a 8 p"
definition store_bool :: "mem \<Rightarrow> addr \<Rightarrow> bool \<Rightarrow> mem" where
  "store_bool m a b = store_bytes m a [if b then 1 else 0]"

definition memset0 :: "mem \<Rightarrow> addr \<Rightarrow> nat \<Rightarrow> mem" where
  "memset0 m a n = store_bytes m a (replicate n 0)"

definition memcpy :: "mem \<Rightarrow> addr \<Rightarrow> addr \<Rightarrow> nat \<Rightarrow> mem" where
  "memcpy m dest src n = store_bytes m dest (load_bytes m src n)"

definition sizeof_ptr :: size_t where "sizeof_ptr = 8"

section \<open>Ranges\<close>

definition in_range :: "addr \<Rightarrow> nat \<Rightarrow> addr \<Rightarrow> bool" where
  "in_range a n x \<longleftrightarrow> unat (x - a) < n"

definition disjoint_ranges :: "addr \<Rightarrow> nat \<Rightarrow> addr \<Rightarrow> nat \<Rightarrow> bool" where
  "disjoint_ranges a n b k \<longleftrightarrow> (\<forall>i < k. \<not> in_range a n (b + of_nat i))"

text \<open>\<open>unchanged_outside R m m'\<close>: the two memories agree on every byte at which \<open>R\<close> does not hold.\<close>

definition unchanged_outside :: "(addr \<Rightarrow> bool) \<Rightarrow> mem \<Rightarrow> mem \<Rightarrow> bool" where
  "unchanged_outside R m m' \<longleftrightarrow> (\<forall>x. \<not> R x \<longrightarrow> mbytes m' x = mbytes m x)"

named_theorems mem_simps \<open>loads after stores, frame conditions\<close>

lemma length_load_bytes [simp]: "length (load_bytes m a n) = n"
  by (simp add: load_bytes_def)

lemma nth_load_bytes [simp]: "i < n \<Longrightarrow> load_bytes m a n ! i = mbytes m (a + of_nat i)"
  by (simp add: load_bytes_def)

lemma mblocks_store [simp]:
  "mblocks (store_bytes m a bs) = mblocks m"
  "mblocks (store_int m a k w) = mblocks m"
  "mblocks (store32 m a v) = mblocks m"
  "mblocks (store_ptr m a w) = mblocks m"
  "mblocks (store_bool m a b) = mblocks m"
  "mblocks (memset0 m a n) = mblocks m"
  "mblocks (memcpy m a a' n) = mblocks m"
  by (simp_all add: store_bytes_def store_int_def store32_def store_ptr_def store_bool_def memset0_def memcpy_def)

lemma mbytes_store_bytes:
  "mbytes (store_bytes m a bs) x = (if in_range a (length bs) x then bs ! unat (x - a) else mbytes m x)"
  by (simp add: store_bytes_def in_range_def)

lemma load_store_bytes [mem_simps]:
  assumes "length bs \<le> 2 ^ 64"
  shows "load_bytes (store_bytes m a bs) a (length bs) = bs"
  using assms by (intro nth_equalityI) (simp_all add: mbytes_store_bytes in_range_def unat_of_nat64)

lemma load_bytes_cong:
  "(\<And>x. in_range a n x \<Longrightarrow> mbytes m x = mbytes m' x) \<Longrightarrow> n \<le> 2 ^ 64 \<Longrightarrow> load_bytes m a n = load_bytes m' a n"
  by (intro nth_equalityI) (simp_all add: in_range_def unat_of_nat64)

lemma load_store_disjoint [mem_simps]:
  assumes "disjoint_ranges a (length bs) b n"
  shows "load_bytes (store_bytes m a bs) b n = load_bytes m b n"
  using assms by (intro nth_equalityI) (simp_all add: mbytes_store_bytes disjoint_ranges_def)

lemma load_store [mem_simps]: "k \<le> 8 \<Longrightarrow> load_int (store_int m a k w) a k = take_bit (8 * k) w"
  using load_store_bytes [of "le_bytes k w" m a] by (simp add: load_int_def store_int_def le_word_le_bytes)

lemma load32_store32 [simp]: "load32 (store32 m a w) a = w"
proof -
  have "ucast (take_bit 32 (ucast w :: u64)) = w"
    by (rule bit_word_eqI) (auto simp: bit_simps)
  then show ?thesis by (simp add: load32_def store32_def load_store)
qed

lemma load_ptr_store_ptr [simp]: "load_ptr (store_ptr m a w) a = w"
  by (simp add: load_ptr_def store_ptr_def load_store take_bit_word_eq_self)

lemma unchanged_refl [simp, intro]: "unchanged_outside R m m"
  by (simp add: unchanged_outside_def)

lemma unchanged_trans [trans]:
  "unchanged_outside R m m' \<Longrightarrow> unchanged_outside R m' m'' \<Longrightarrow> unchanged_outside R m m''"
  by (simp add: unchanged_outside_def)

lemma unchanged_mono:
  "unchanged_outside R m m' \<Longrightarrow> (\<And>x. R x \<Longrightarrow> S x) \<Longrightarrow> unchanged_outside S m m'"
  by (auto simp: unchanged_outside_def)

lemma unchanged_store_bytes:
  "(\<And>x. in_range a (length bs) x \<Longrightarrow> R x) \<Longrightarrow> unchanged_outside R m (store_bytes m a bs)"
  by (auto simp: unchanged_outside_def mbytes_store_bytes)

lemma unchanged_store_int:
  "(\<And>x. in_range a k x \<Longrightarrow> R x) \<Longrightarrow> unchanged_outside R m (store_int m a k w)"
  unfolding store_int_def by (rule unchanged_store_bytes) simp

lemma in_range_mono: "in_range a n x \<Longrightarrow> n \<le> k \<Longrightarrow> in_range a k x"
  by (simp add: in_range_def)

lemma in_range_offset:
  assumes "in_range (a + of_nat j) n x" and "j + n \<le> k" and "k < 2 ^ 64"
  shows "in_range a k x"
proof -
  have "x - a = (x - (a + of_nat j)) + of_nat j" by simp
  then have "unat (x - a) = unat ((x - (a + of_nat j)) + of_nat j)" by simp
  also have "\<dots> \<le> unat (x - (a + of_nat j)) + unat (of_nat j :: addr)"
    unfolding unat_word_ariths by simp
  finally have "unat (x - a) \<le> unat (x - (a + of_nat j)) + unat (of_nat j :: addr)" .
  moreover have "unat (of_nat j :: addr) = j"
    using assms(2,3) by (intro unat_of_nat64) simp
  ultimately have "unat (x - a) \<le> unat (x - (a + of_nat j)) + j" by simp
  with assms show ?thesis by (simp add: in_range_def)
qed

section \<open>Allocation\<close>

text \<open>
  \<open>pb_realloc\<close> and \<open>pb_free\<close> are the C library's \<open>realloc\<close> and \<open>free\<close>.  Where a block is placed, and whether there
  is room for it, is the library's choice: the parameter \<open>pick\<close> gives the address, 0 for failure.
\<close>

type_synonym allocator = "mem \<Rightarrow> addr \<Rightarrow> size_t \<Rightarrow> addr"

definition block_size :: "mem \<Rightarrow> addr \<Rightarrow> size_t" where
  "block_size m p = (case map_of (mblocks m) p of None \<Rightarrow> 0 | Some n \<Rightarrow> n)"

definition drop_block :: "addr \<Rightarrow> (addr \<times> size_t) list \<Rightarrow> (addr \<times> size_t) list" where
  "drop_block p bl = filter (\<lambda>b. fst b \<noteq> p) bl"

definition pb_free :: "mem \<Rightarrow> addr \<Rightarrow> mem" where
  "pb_free m p = (if p = 0 then m else m\<lparr>mblocks := drop_block p (mblocks m)\<rparr>)"

definition pb_realloc :: "allocator \<Rightarrow> mem \<Rightarrow> addr \<Rightarrow> size_t \<Rightarrow> addr \<times> mem" where
  "pb_realloc pick m p sz =
     (let q = pick m p sz in
      if q = 0 then (0, m)
      else let old = load_bytes m p (min (unat (block_size m p)) (unat sz));
               m' = m\<lparr>mblocks := (q, sz) # (if p = 0 then mblocks m else drop_block p (mblocks m))\<rparr>
           in (q, store_bytes m' q old))"

end
