(* ===== verification/Pb_Iter.thy ===== *)
theory Pb_Iter
  imports Pb_Memory
begin

text \<open>
  Field iterators (\<open>pb_field_iter_t\<close> of \<open>pb_common.h\<close>, operations of \<open>pb_common.c\<close>).  A descriptor array is the list
  of its entries before the terminator, and \<open>iter->pos\<close> an index into it.

  \<open>pSize\<close> is an address (\<open>PMem\<close>), or points to the local variable \<open>fixed_count_size\<close> of the running
  \<open>pb_decode_noinit\<close> (\<open>PLocal\<close>), which the iterator carries in \<open>fixed_count_size\<close>.
\<close>

datatype ploc = PMem addr | PLocal

record pb_field_iter =
  start :: "pb_field list"
  pos :: nat
  required_field_index :: u32
  dest_struct :: addr
  pData :: addr
  pSize :: ploc
  fixed_count_size :: pb_size_t

abbreviation cur :: "pb_field_iter \<Rightarrow> pb_field" where
  "cur it \<equiv> field_at (start it) (pos it)"

definition ploc_add :: "addr \<Rightarrow> pb_ssize_t \<Rightarrow> ploc" where
  "ploc_add p off = PMem (p + scast off)"

definition pb_field_iter_begin :: "pb_field list \<Rightarrow> addr \<Rightarrow> pb_size_t \<Rightarrow> bool \<times> pb_field_iter" where
  "pb_field_iter_begin fs dest fcs =
     (let f = field_at fs 0;
          data = (if dest = 0 then 0 else dest + ucast (data_offset f));
          psize = (if dest = 0 then PMem 0 else ploc_add data (size_offset f))
      in (tag f \<noteq> 0,
          \<lparr>start = fs, pos = 0, required_field_index = 0, dest_struct = dest, pData = data, pSize = psize,
           fixed_count_size = fcs\<rparr>))"

text \<open>The room that a field takes in the message structure.\<close>

definition field_extent :: "pb_field \<Rightarrow> size_t" where
  "field_extent f =
     (if PB_ATYPE (ftype f) = PB_ATYPE_STATIC \<and> PB_HTYPE (ftype f) = PB_HTYPE_REPEATED
      then ucast (data_size f) * ucast (array_size f)
      else if PB_ATYPE (ftype f) = PB_ATYPE_POINTER then sizeof_ptr
      else ucast (data_size f))"

definition pb_field_iter_next :: "pb_field_iter \<Rightarrow> bool \<times> pb_field_iter" where
  "pb_field_iter_next it =
     (let prev_field = cur it in
      if tag prev_field = 0 then (False, it)
      else
        let next = field_at (start it) (Suc (pos it)) in
        if tag next = 0
        then (False, snd (pb_field_iter_begin (start it) (dest_struct it) (fixed_count_size it)))
        else if PB_HTYPE (ftype prev_field) = PB_HTYPE_ONEOF \<and> PB_HTYPE (ftype next) = PB_HTYPE_ONEOF \<and>
                data_offset next = PB_SIZE_MAX
        then (True, it\<lparr>pos := Suc (pos it)\<rparr>)
        else
          let data = pData it + field_extent prev_field + ucast (data_offset next) in
          (True, it\<lparr>pos := Suc (pos it),
                    required_field_index := required_field_index it +
                      (if PB_HTYPE (ftype prev_field) = PB_HTYPE_REQUIRED then 1 else 0),
                    pData := data, pSize := ploc_add data (size_offset next)\<rparr>))"

text \<open>
  The \<open>do ... while (iter->pos != start)\<close> loop of \<open>pb_field_iter_find\<close> and \<open>find_extension_field\<close>, with \<open>found\<close> the
  test of its body.  The counter bounds the number of rounds; one round per entry is enough
  (\<open>iter_search_result\<close> below).
\<close>

fun iter_search :: "(pb_field \<Rightarrow> bool) \<Rightarrow> nat \<Rightarrow> nat \<Rightarrow> pb_field_iter \<Rightarrow> bool \<times> pb_field_iter" where
  "iter_search found first 0 it = (False, it)"
| "iter_search found first (Suc rounds) it =
     (if found (cur it) then (True, it)
      else let it' = snd (pb_field_iter_next it) in
           if pos it' \<noteq> first then iter_search found first rounds it' else (False, it'))"

definition pb_field_iter_find :: "pb_field_iter \<Rightarrow> u32 \<Rightarrow> bool \<times> pb_field_iter" where
  "pb_field_iter_find it t =
     iter_search (\<lambda>f. tag f = t \<and> PB_LTYPE (ftype f) \<noteq> PB_LTYPE_EXTENSION) (pos it) (Suc (length (start it))) it"

definition find_extension_field :: "pb_field_iter \<Rightarrow> bool \<times> pb_field_iter" where
  "find_extension_field it =
     iter_search (\<lambda>f. PB_LTYPE (ftype f) = PB_LTYPE_EXTENSION) (pos it) (Suc (length (start it))) it"

end
