(* ===== verification/Pb_Defaults.thy ===== *)
theory Pb_Defaults
  imports Pb_Iter
begin

text \<open>
  The part of \<open>pb_decode.c\<close> that works on structures in memory without a stream: filling a structure with default
  values (\<open>pb_message_set_to_defaults\<close>) and releasing what its pointers own (\<open>pb_release\<close>).

  Both recurse into submessages and extensions, with fuel \<open>n\<close> for the depth (and for the length of the
  extension chains); \<open>None\<close> is the result when it is used up,
  or when a null descriptor array is followed.  \<open>d\<close> is the descriptor array at an address.
\<close>

section \<open>Structures that the decoder reads\<close>

definition sizeof_bool :: nat where "sizeof_bool = 1"
definition offsetof_bytes :: size_t where "offsetof_bytes = 4"
definition offsetof_callback_arg :: addr where "offsetof_callback_arg = 8"
definition offsetof_ext_type :: addr where "offsetof_ext_type = 0"
definition offsetof_ext_dest :: addr where "offsetof_ext_dest = 8"
definition offsetof_ext_next :: addr where "offsetof_ext_next = 16"
definition offsetof_ext_found :: addr where "offsetof_ext_found = 24"
definition offsetof_exttype_decode :: addr where "offsetof_exttype_decode = 0"
definition offsetof_exttype_encode :: addr where "offsetof_exttype_encode = 8"
definition offsetof_exttype_arg :: addr where "offsetof_exttype_arg = 16"

type_synonym descriptors = "addr \<Rightarrow> pb_field list"

text \<open>The descriptor array that \<open>extension->type->arg\<close> points to.\<close>

definition extension_fields :: "descriptors \<Rightarrow> addr \<Rightarrow> mem \<Rightarrow> pb_field list" where
  "extension_fields d ext m = d (load_ptr m (load_ptr m (ext + offsetof_ext_type) + offsetof_exttype_arg))"

definition iter_from_extension :: "descriptors \<Rightarrow> addr \<Rightarrow> mem \<Rightarrow> pb_field_iter" where
  "iter_from_extension d ext m =
     (let fs = extension_fields d ext m;
          dest = load_ptr m (ext + offsetof_ext_dest);
          it = snd (pb_field_iter_begin fs dest 0)
      in it\<lparr>pData := (if PB_ATYPE (ftype (cur it)) = PB_ATYPE_POINTER then ext + offsetof_ext_dest else dest),
            pSize := PMem (ext + offsetof_ext_found)\<rparr>)"

text \<open>\<open>*(pb_size_t*)iter->pSize\<close>, read and written, and \<open>*(bool*)iter->pSize = b\<close>.\<close>

definition size_load :: "pb_field_iter \<Rightarrow> mem \<Rightarrow> pb_size_t" where
  "size_load it m = (case pSize it of PMem a \<Rightarrow> load32 m a | PLocal \<Rightarrow> fixed_count_size it)"

definition size_store :: "pb_field_iter \<Rightarrow> mem \<Rightarrow> pb_size_t \<Rightarrow> pb_field_iter \<times> mem" where
  "size_store it m v = (case pSize it of
     PMem a \<Rightarrow> (it, store32 m a v)
   | PLocal \<Rightarrow> (it\<lparr>fixed_count_size := v\<rparr>, m))"

definition flag_store :: "pb_field_iter \<Rightarrow> mem \<Rightarrow> bool \<Rightarrow> pb_field_iter \<times> mem" where
  "flag_store it m b = (case pSize it of
     PMem a \<Rightarrow> (it, store_bool m a b)
   | PLocal \<Rightarrow> (it\<lparr>fixed_count_size := (fixed_count_size it AND 0xFFFFFF00) OR (if b then 1 else 0)\<rparr>, m))"

definition no_counter :: "pb_field_iter \<Rightarrow> bool" where
  "no_counter it \<longleftrightarrow> pSize it = PMem (pData it)"

section \<open>Loops\<close>

lemma next_more:
  assumes "pb_field_iter_next it = (True, it')"
  shows "length (start it') - pos it' < length (start it) - pos it"
proof -
  have "Suc (pos it) < length (start it) \<and> it' = it\<lparr>pos := Suc (pos it), required_field_index :=
      required_field_index it', pData := pData it', pSize := pSize it'\<rparr>"
    using assms
    by (cases "Suc (pos it) < length (start it)")
      (auto simp: pb_field_iter_next_def Let_def field_at_def PB_LAST_FIELD_def split: if_splits)
  then show ?thesis by (cases it') auto
qed

text \<open>The \<open>do ... while (pb_field_iter_next(&iter))\<close> loop with a body that changes memory.\<close>

function for_each_field :: "(pb_field_iter \<Rightarrow> mem \<Rightarrow> mem option) \<Rightarrow> pb_field_iter \<Rightarrow> mem \<Rightarrow> mem option" where
  "for_each_field body it m =
     (case body it m of
        None \<Rightarrow> None
      | Some m \<Rightarrow>
          (case pb_field_iter_next it of
             (again, it') \<Rightarrow> if again then for_each_field body it' m else Some m))"
  by pat_completeness auto
termination
  by (relation "measure (\<lambda>(body, it, m). length (start it) - pos it)") (auto dest: next_more [OF sym])

declare for_each_field.simps [simp del]

text \<open>The \<open>while (ext != NULL)\<close> loop over a chain of extensions, with fuel for its length.\<close>

primrec for_each_extension :: "(addr \<Rightarrow> mem \<Rightarrow> mem option) \<Rightarrow> nat \<Rightarrow> addr \<Rightarrow> mem \<Rightarrow> mem option" where
  "for_each_extension body 0 ext m = (if ext = 0 then Some m else None)"
| "for_each_extension body (Suc k) ext m =
     (if ext = 0 then Some m
      else case body ext m of
             None \<Rightarrow> None
           | Some m \<Rightarrow> for_each_extension body k (load_ptr m (ext + offsetof_ext_next)) m)"

section \<open>Default values\<close>

definition message_to_defaults ::
  "(pb_field_iter \<Rightarrow> mem \<Rightarrow> mem option) \<Rightarrow> pb_field list \<Rightarrow> addr \<Rightarrow> mem \<Rightarrow> mem option" where
  "message_to_defaults set_field fs dest m =
     (case pb_field_iter_begin fs dest 0 of
        (nonempty, it) \<Rightarrow> if nonempty then for_each_field set_field it m else Some m)"

definition field_to_default :: "descriptors \<Rightarrow> (pb_field_iter \<Rightarrow> mem \<Rightarrow> mem option) \<Rightarrow> nat \<Rightarrow>
    pb_field_iter \<Rightarrow> mem \<Rightarrow> mem option" where
  "field_to_default d rec k it m =
     (let f = cur it; type = ftype f in
      if PB_LTYPE type = PB_LTYPE_EXTENSION then
        for_each_extension (\<lambda>ext m.
          let m = store_bool m (ext + offsetof_ext_found) False
          in rec (iter_from_extension d ext m) m) k (load_ptr m (pData it)) m
      else if PB_ATYPE type = PB_ATYPE_STATIC then
        let (init_data, m) =
          (if PB_HTYPE type = PB_HTYPE_OPTIONAL \<and> \<not> no_counter it then (True, snd (flag_store it m False))
           else if PB_HTYPE type = PB_HTYPE_REPEATED \<or> PB_HTYPE type = PB_HTYPE_ONEOF
           then (False, snd (size_store it m 0))
           else (True, m))
        in if \<not> init_data then Some m
           else if PB_LTYPE type = PB_LTYPE_SUBMESSAGE then
             if fptr f = 0 then None else message_to_defaults rec (d (fptr f)) (pData it) m
           else if fptr f \<noteq> 0 then Some (memcpy m (pData it) (fptr f) (unat (data_size f)))
           else Some (memset0 m (pData it) (unat (data_size f)))
      else if PB_ATYPE type = PB_ATYPE_POINTER then
        let m = store_ptr m (pData it) 0
        in Some (if PB_HTYPE type = PB_HTYPE_REPEATED \<or> PB_HTYPE type = PB_HTYPE_ONEOF
                 then snd (size_store it m 0) else m)
      else Some m)"

primrec pb_field_set_to_default :: "nat \<Rightarrow> descriptors \<Rightarrow> pb_field_iter \<Rightarrow> mem \<Rightarrow> mem option" where
  "pb_field_set_to_default 0 d = (\<lambda>it m. None)"
| "pb_field_set_to_default (Suc n) d = field_to_default d (pb_field_set_to_default n d) n"

definition pb_message_set_to_defaults :: "nat \<Rightarrow> descriptors \<Rightarrow> pb_field list \<Rightarrow> addr \<Rightarrow> mem \<Rightarrow> mem option" where
  "pb_message_set_to_defaults n d = message_to_defaults (pb_field_set_to_default n d)"

section \<open>Release\<close>

definition release_message ::
  "(pb_field_iter \<Rightarrow> mem \<Rightarrow> mem option) \<Rightarrow> pb_field list \<Rightarrow> addr \<Rightarrow> mem \<Rightarrow> mem option" where
  "release_message release_field fs dest m =
     (if dest = 0 then Some m
      else case pb_field_iter_begin fs dest 0 of
             (nonempty, it) \<Rightarrow> if nonempty then for_each_field release_field it m else Some m)"

text \<open>The loop over the items of a submessage array.\<close>

primrec release_items :: "(addr \<Rightarrow> mem \<Rightarrow> mem option) \<Rightarrow> pb_size_t \<Rightarrow> nat \<Rightarrow> addr \<Rightarrow> mem \<Rightarrow> mem option" where
  "release_items release dsize 0 p m = Some m"
| "release_items release dsize (Suc k) p m =
     (case release p m of None \<Rightarrow> None | Some m \<Rightarrow> release_items release dsize k (p + ucast dsize) m)"

text \<open>\<open>for (; count > 0; count--) { pb_free(*pItem); *pItem++ = NULL; }\<close>\<close>

primrec free_entries :: "nat \<Rightarrow> addr \<Rightarrow> mem \<Rightarrow> mem" where
  "free_entries 0 p m = m"
| "free_entries (Suc k) p m = free_entries k (p + sizeof_ptr) (store_ptr (pb_free m (load_ptr m p)) p 0)"

definition item_count :: "pb_field_iter \<Rightarrow> mem \<Rightarrow> pb_size_t" where
  "item_count it m =
     (let f = cur it; type = ftype f in
      if PB_HTYPE type = PB_HTYPE_REPEATED then
        let count = (if PB_ATYPE type = PB_ATYPE_STATIC \<and> no_counter it then array_size f else size_load it m)
        in if PB_ATYPE type = PB_ATYPE_STATIC \<and> array_size f < count then array_size f else count
      else 1)"

definition release_contents :: "descriptors \<Rightarrow> (pb_field_iter \<Rightarrow> mem \<Rightarrow> mem option) \<Rightarrow> nat \<Rightarrow>
    pb_field_iter \<Rightarrow> mem \<Rightarrow> mem option" where
  "release_contents d rec k it m =
     (let f = cur it; type = ftype f in
      if PB_LTYPE type = PB_LTYPE_EXTENSION then
        for_each_extension (\<lambda>ext m. rec (iter_from_extension d ext m) m) k (load_ptr m (pData it)) m
      else if PB_LTYPE type = PB_LTYPE_SUBMESSAGE \<and> PB_ATYPE type \<noteq> PB_ATYPE_CALLBACK then
        let item = (if PB_ATYPE type = PB_ATYPE_POINTER then load_ptr m (pData it) else pData it)
        in if item \<noteq> 0
           then if fptr f = 0 then None else release_items (release_message rec (d (fptr f))) (data_size f) (unat (item_count it m)) item m
           else Some m
      else Some m)"

definition release_pointer :: "pb_field_iter \<Rightarrow> mem \<Rightarrow> mem" where
  "release_pointer it m =
     (let type = ftype (cur it);
          m = (if PB_HTYPE type = PB_HTYPE_REPEATED \<and>
                  (PB_LTYPE type = PB_LTYPE_STRING \<or> PB_LTYPE type = PB_LTYPE_BYTES)
               then free_entries (unat (size_load it m)) (load_ptr m (pData it)) m else m);
          m = (if PB_HTYPE type = PB_HTYPE_REPEATED then snd (size_store it m 0) else m);
          m = pb_free m (load_ptr m (pData it))
      in store_ptr m (pData it) 0)"

definition release_field :: "descriptors \<Rightarrow> (pb_field_iter \<Rightarrow> mem \<Rightarrow> mem option) \<Rightarrow> nat \<Rightarrow>
    pb_field_iter \<Rightarrow> mem \<Rightarrow> mem option" where
  "release_field d rec k it m =
     (let f = cur it; type = ftype f in
      if PB_HTYPE type = PB_HTYPE_ONEOF \<and> size_load it m \<noteq> tag f then Some m
      else case release_contents d rec k it m of
             None \<Rightarrow> None
           | Some m \<Rightarrow> Some (if PB_ATYPE type = PB_ATYPE_POINTER then release_pointer it m else m))"

primrec pb_release_single_field :: "nat \<Rightarrow> descriptors \<Rightarrow> pb_field_iter \<Rightarrow> mem \<Rightarrow> mem option" where
  "pb_release_single_field 0 d = (\<lambda>it m. None)"
| "pb_release_single_field (Suc n) d = release_field d (pb_release_single_field n d) n"

definition pb_release :: "nat \<Rightarrow> descriptors \<Rightarrow> pb_field list \<Rightarrow> addr \<Rightarrow> mem \<Rightarrow> mem option" where
  "pb_release n d = release_message (pb_release_single_field n d)"

end
