(* ===== verification/Pb_Decode.thy ===== *)
theory Pb_Decode
  imports Pb_IStream Pb_Defaults
begin

text \<open>
  The message decoder of \<open>pb_decode.c\<close>: an input stream is read into a structure in memory.  A decoder maps the
  stream and the memory to its return value and the new stream and memory; those that work through a field
  iterator also return the iterator.  \<open>None\<close> is the result when the fuel for nesting is used up, or
  when a null or unknown function pointer is called.  The build has \<open>PB_ENABLE_MALLOC\<close>.
\<close>

section \<open>Environment\<close>

type_synonym 's dec_result = "(bool \<times> 's pb_istream \<times> mem) option"
type_synonym 's iter_result = "(bool \<times> 's pb_istream \<times> pb_field_iter \<times> mem) option"

text \<open>
  The descriptor arrays, the allocator, and the user callbacks by the addresses of their functions: a
  field callback gets the field and the address of \<open>arg\<close>; an extension's decoder gets the extension.
\<close>

record 's dec_env =
  ddescr :: descriptors
  pick :: allocator
  dec_cb :: "addr \<Rightarrow> 's pb_istream \<Rightarrow> pb_field \<Rightarrow> addr \<Rightarrow> mem \<Rightarrow> 's dec_result"
  ext_dec :: "addr \<Rightarrow> 's pb_istream \<Rightarrow> addr \<Rightarrow> u32 \<Rightarrow> pb_wire_type_t \<Rightarrow> mem \<Rightarrow> 's dec_result"

text \<open>\<open>return func(stream, iter->pos, p)\<close> in a function with an iterator.\<close>

definition with_iter :: "pb_field_iter \<Rightarrow> 's dec_result \<Rightarrow> 's iter_result" where
  "with_iter it r = map_option (\<lambda>(ok, s, m). (ok, s, it, m)) r"

section \<open>Allocation\<close>

definition allocate_field :: "'s dec_env \<Rightarrow> 's pb_istream \<Rightarrow> addr \<Rightarrow> size_t \<Rightarrow> size_t \<Rightarrow> mem \<Rightarrow> bool \<times> 's pb_istream \<times> mem" where
  "allocate_field env s data dsize asize m =
     (let ptr = load_ptr m data; check_limit = push_bit 32 1 in
      if dsize = 0 \<or> asize = 0 then (False, ierror ''invalid size'' s, m)
      else if (check_limit \<le> dsize \<or> check_limit \<le> asize) \<and> (- 1) div asize < dsize
      then (False, ierror ''size too large'' s, m)
      else case pb_realloc (pick env) m ptr (asize * dsize) of
             (ptr, m) \<Rightarrow>
               if ptr = 0 then (False, ierror ''realloc failed'' s, m)
               else (True, s, store_ptr m data ptr))"

section \<open>Field decoders\<close>

definition store_width :: "mem \<Rightarrow> addr \<Rightarrow> pb_size_t \<Rightarrow> u64 \<Rightarrow> mem option" where
  "store_width m dest dsize v =
     (if dsize = 8 \<or> dsize = 4 \<or> dsize = 2 \<or> dsize = 1 then Some (store_int m dest (unat dsize) v) else None)"

text \<open>The value of \<open>v\<close> after a cast to a signed or an unsigned integer of \<open>dsize\<close> bytes.\<close>

definition clamp_signed :: "pb_size_t \<Rightarrow> u64 \<Rightarrow> u64" where
  "clamp_signed dsize v = signed_take_bit (8 * unat dsize - 1) v"

definition clamp_unsigned :: "pb_size_t \<Rightarrow> u64 \<Rightarrow> u64" where
  "clamp_unsigned dsize v = take_bit (8 * unat dsize) v"

definition pb_dec_bool :: "'s pb_istream \<Rightarrow> pb_field \<Rightarrow> addr \<Rightarrow> mem \<Rightarrow> bool \<times> 's pb_istream \<times> mem" where
  "pb_dec_bool s field dest m =
     (case pb_decode_varint32 s of
        (None, s) \<Rightarrow> (False, s, m)
      | (Some value, s) \<Rightarrow> (True, s, store_bool m dest (value \<noteq> 0)))"

definition pb_dec_varint :: "'s pb_istream \<Rightarrow> pb_field \<Rightarrow> addr \<Rightarrow> mem \<Rightarrow> bool \<times> 's pb_istream \<times> mem" where
  "pb_dec_varint s field dest m =
     (case pb_decode_varint s of
        (None, s) \<Rightarrow> (False, s, m)
      | (Some value, s) \<Rightarrow>
          let svalue = (if data_size field = 8 then value else scast (ucast value :: u32)) in
          case store_width m dest (data_size field) svalue of
            None \<Rightarrow> (False, ierror ''invalid data_size'' s, m)
          | Some m \<Rightarrow>
              if clamp_signed (data_size field) svalue \<noteq> svalue
              then (False, ierror ''integer too large'' s, m) else (True, s, m))"

definition pb_dec_uvarint :: "'s pb_istream \<Rightarrow> pb_field \<Rightarrow> addr \<Rightarrow> mem \<Rightarrow> bool \<times> 's pb_istream \<times> mem" where
  "pb_dec_uvarint s field dest m =
     (case pb_decode_varint s of
        (None, s) \<Rightarrow> (False, s, m)
      | (Some value, s) \<Rightarrow>
          case store_width m dest (data_size field) value of
            None \<Rightarrow> (False, ierror ''invalid data_size'' s, m)
          | Some m \<Rightarrow>
              if clamp_unsigned (data_size field) value \<noteq> value
              then (False, ierror ''integer too large'' s, m) else (True, s, m))"

definition pb_dec_svarint :: "'s pb_istream \<Rightarrow> pb_field \<Rightarrow> addr \<Rightarrow> mem \<Rightarrow> bool \<times> 's pb_istream \<times> mem" where
  "pb_dec_svarint s field dest m =
     (case pb_decode_svarint s of
        (None, s) \<Rightarrow> (False, s, m)
      | (Some value, s) \<Rightarrow>
          case store_width m dest (data_size field) value of
            None \<Rightarrow> (False, ierror ''invalid data_size'' s, m)
          | Some m \<Rightarrow>
              if clamp_signed (data_size field) value \<noteq> value
              then (False, ierror ''integer too large'' s, m) else (True, s, m))"

definition pb_dec_fixed32 :: "'s pb_istream \<Rightarrow> pb_field \<Rightarrow> addr \<Rightarrow> mem \<Rightarrow> bool \<times> 's pb_istream \<times> mem" where
  "pb_dec_fixed32 s field dest m =
     (case pb_decode_fixed32 s of
        (None, s) \<Rightarrow> (False, s, m) | (Some v, s) \<Rightarrow> (True, s, store32 m dest v))"

definition pb_dec_fixed64 :: "'s pb_istream \<Rightarrow> pb_field \<Rightarrow> addr \<Rightarrow> mem \<Rightarrow> bool \<times> 's pb_istream \<times> mem" where
  "pb_dec_fixed64 s field dest m =
     (case pb_decode_fixed64 s of
        (None, s) \<Rightarrow> (False, s, m) | (Some v, s) \<Rightarrow> (True, s, store_int m dest 8 v))"

text \<open>\<open>pb_read(stream, dest, count)\<close> into memory.\<close>

definition read_into :: "'s pb_istream \<Rightarrow> addr \<Rightarrow> size_t \<Rightarrow> mem \<Rightarrow> bool \<times> 's pb_istream \<times> mem" where
  "read_into s dest count m =
     (case pb_read s False count of
        (None, s) \<Rightarrow> (False, s, m) | (Some bs, s) \<Rightarrow> (True, s, store_bytes m dest bs))"

definition pb_dec_bytes :: "'s dec_env \<Rightarrow> 's pb_istream \<Rightarrow> pb_field \<Rightarrow> addr \<Rightarrow> mem \<Rightarrow> bool \<times> 's pb_istream \<times> mem" where
  "pb_dec_bytes env s field dest m =
     (case pb_decode_varint32 s of
        (None, s) \<Rightarrow> (False, s, m)
      | (Some sz, s) \<Rightarrow>
          let alloc_size = ucast sz + offsetof_bytes in
          if PB_SIZE_MAX < sz then (False, ierror ''bytes overflow'' s, m)
          else if alloc_size < ucast sz then (False, ierror ''size too large'' s, m)
          else if PB_ATYPE (ftype field) = PB_ATYPE_POINTER then
            if bytes_left s < ucast sz then (False, ierror ''end-of-stream'' s, m)
            else case allocate_field env s dest alloc_size 1 m of
                   (False, s, m) \<Rightarrow> (False, s, m)
                 | (True, s, m) \<Rightarrow>
                     let bdest = load_ptr m dest
                     in read_into s (bdest + offsetof_bytes) (ucast sz) (store32 m bdest sz)
          else if ucast (data_size field) < alloc_size then (False, ierror ''bytes overflow'' s, m)
          else read_into s (dest + offsetof_bytes) (ucast sz) (store32 m dest sz))"

definition terminate_string :: "addr \<Rightarrow> u32 \<Rightarrow> bool \<times> 's pb_istream \<times> mem \<Rightarrow> bool \<times> 's pb_istream \<times> mem" where
  "terminate_string dest sz r = (case r of (status, s, m) \<Rightarrow> (status, s, store_bytes m (dest + ucast sz) [0]))"

definition pb_dec_string :: "'s dec_env \<Rightarrow> 's pb_istream \<Rightarrow> pb_field \<Rightarrow> addr \<Rightarrow> mem \<Rightarrow> bool \<times> 's pb_istream \<times> mem" where
  "pb_dec_string env s field dest m =
     (case pb_decode_varint32 s of
        (None, s) \<Rightarrow> (False, s, m)
      | (Some sz, s) \<Rightarrow>
          let alloc_size = ucast (sz + 1) :: size_t in
          if alloc_size < ucast sz then (False, ierror ''size too large'' s, m)
          else if PB_ATYPE (ftype field) = PB_ATYPE_POINTER then
            if bytes_left s < ucast sz then (False, ierror ''end-of-stream'' s, m)
            else case allocate_field env s dest alloc_size 1 m of
                   (False, s, m) \<Rightarrow> (False, s, m)
                 | (True, s, m) \<Rightarrow>
                     let dest = load_ptr m dest
                     in terminate_string dest sz (read_into s dest (ucast sz) m)
          else if ucast (data_size field) < alloc_size then (False, ierror ''string overflow'' s, m)
          else terminate_string dest sz (read_into s dest (ucast sz) m))"

definition pb_dec_fixed_length_bytes :: "'s pb_istream \<Rightarrow> pb_field \<Rightarrow> addr \<Rightarrow> mem \<Rightarrow> bool \<times> 's pb_istream \<times> mem" where
  "pb_dec_fixed_length_bytes s field dest m =
     (case pb_decode_varint32 s of
        (None, s) \<Rightarrow> (False, s, m)
      | (Some sz, s) \<Rightarrow>
          if PB_SIZE_MAX < sz then (False, ierror ''bytes overflow'' s, m)
          else if sz = 0 then (True, s, memset0 m dest (unat (data_size field)))
          else if sz \<noteq> data_size field then (False, ierror ''incorrect fixed length bytes size'' s, m)
          else read_into s dest (ucast (data_size field)) m)"

section \<open>Submessages\<close>

type_synonym 's dec_rec = "'s pb_istream \<Rightarrow> pb_field list \<Rightarrow> addr \<Rightarrow> mem \<Rightarrow> 's dec_result"

text \<open>\<open>pb_decode\<close>, over \<open>noinit\<close> as \<open>pb_decode_noinit\<close>.\<close>

definition decode_with :: "'s dec_env \<Rightarrow> nat \<Rightarrow> 's dec_rec \<Rightarrow> 's dec_rec" where
  "decode_with env n noinit s fs dest m =
     (case pb_message_set_to_defaults n (ddescr env) fs dest m of
        None \<Rightarrow> None
      | Some m \<Rightarrow>
          (case noinit s fs dest m of
             None \<Rightarrow> None
           | Some (status, s, m) \<Rightarrow>
               if status then Some (True, s, m)
               else map_option (\<lambda>m. (False, s, m)) (pb_release n (ddescr env) fs dest m)))"

text \<open>Decode from a length-prefixed substream and close it.\<close>

definition in_substream :: "('s pb_istream \<Rightarrow> mem \<Rightarrow> 's dec_result) \<Rightarrow> 's pb_istream \<Rightarrow> mem \<Rightarrow> 's dec_result" where
  "in_substream body s m =
     (case pb_make_string_substream s of
        (None, s) \<Rightarrow> Some (False, s, m)
      | (Some substream, s) \<Rightarrow>
          (case body substream m of
             None \<Rightarrow> None
           | Some (status, substream, m) \<Rightarrow>
               (case pb_close_string_substream s substream of
                  (closed, s) \<Rightarrow> Some (closed \<and> status, s, m))))"

definition pb_dec_submessage :: "'s dec_env \<Rightarrow> nat \<Rightarrow> 's dec_rec \<Rightarrow>
    's pb_istream \<Rightarrow> pb_field \<Rightarrow> addr \<Rightarrow> mem \<Rightarrow> 's dec_result" where
  "pb_dec_submessage env n noinit s field dest m =
     (if fptr field = 0 then
        (case pb_make_string_substream s of
           (None, s) \<Rightarrow> Some (False, s, m)
         | (Some substream, s) \<Rightarrow> Some (False, ierror ''invalid field descriptor'' s, m))
      else in_substream (\<lambda>s m.
        if PB_HTYPE (ftype field) = PB_HTYPE_REPEATED
        then decode_with env n noinit s (ddescr env (fptr field)) dest m
        else noinit s (ddescr env (fptr field)) dest m) s m)"

text \<open>The table \<open>PB_DECODERS\<close>.\<close>

definition PB_DECODERS :: "'s dec_env \<Rightarrow> nat \<Rightarrow> 's dec_rec \<Rightarrow> pb_type_t \<Rightarrow>
    's pb_istream \<Rightarrow> pb_field \<Rightarrow> addr \<Rightarrow> mem \<Rightarrow> 's dec_result" where
  "PB_DECODERS env n noinit lt s field dest m =
     (if lt = PB_LTYPE_BOOL then Some (pb_dec_bool s field dest m)
      else if lt = PB_LTYPE_VARINT then Some (pb_dec_varint s field dest m)
      else if lt = PB_LTYPE_UVARINT then Some (pb_dec_uvarint s field dest m)
      else if lt = PB_LTYPE_SVARINT then Some (pb_dec_svarint s field dest m)
      else if lt = PB_LTYPE_FIXED32 then Some (pb_dec_fixed32 s field dest m)
      else if lt = PB_LTYPE_FIXED64 then Some (pb_dec_fixed64 s field dest m)
      else if lt = PB_LTYPE_BYTES then Some (pb_dec_bytes env s field dest m)
      else if lt = PB_LTYPE_STRING then Some (pb_dec_string env s field dest m)
      else if lt = PB_LTYPE_SUBMESSAGE then pb_dec_submessage env n noinit s field dest m
      else if lt = PB_LTYPE_FIXED_LENGTH_BYTES then Some (pb_dec_fixed_length_bytes s field dest m)
      else None)"

section \<open>Static fields\<close>

type_synonym 's dec_func = "'s pb_istream \<Rightarrow> pb_field \<Rightarrow> addr \<Rightarrow> mem \<Rightarrow> 's dec_result"

text \<open>\<open>(char*)data + iter->pos->data_size * n\<close>; the product is one of 32-bit integers.\<close>

definition item_addr :: "addr \<Rightarrow> pb_field \<Rightarrow> pb_size_t \<Rightarrow> addr" where
  "item_addr data f n = data + ucast (data_size f * n)"

text \<open>
  The loop over a packed array in a substream, with its status.  \<open>rounds\<close> is the number of rounds granted;
  every item takes a byte or more.
\<close>

primrec static_items :: "'s dec_func \<Rightarrow> nat \<Rightarrow> 's pb_istream \<Rightarrow> pb_field_iter \<Rightarrow> mem \<Rightarrow> 's iter_result" where
  "static_items func 0 s it m = None"
| "static_items func (Suc rounds) s it m =
     (if 0 < bytes_left s \<and> size_load it m < array_size (cur it) then
        (case func s (cur it) (item_addr (pData it) (cur it) (size_load it m)) m of
           None \<Rightarrow> None
         | Some (False, s, m) \<Rightarrow> Some (False, s, it, m)
         | Some (True, s, m) \<Rightarrow>
             (case size_store it m (size_load it m + 1) of
                (it, m) \<Rightarrow> static_items func rounds s it m))
      else Some (True, s, it, m))"

definition decode_static_packed :: "'s dec_func \<Rightarrow> 's pb_istream \<Rightarrow> pb_field_iter \<Rightarrow> mem \<Rightarrow> 's iter_result" where
  "decode_static_packed func s it m =
     (case pb_make_string_substream s of
        (None, s) \<Rightarrow> Some (False, s, it, m)
      | (Some substream, s) \<Rightarrow>
          (case static_items func (Suc (unat (bytes_left substream))) substream it m of
             None \<Rightarrow> None
           | Some (status, substream, it, m) \<Rightarrow>
               if bytes_left substream \<noteq> 0 then Some (False, ierror ''array overflow'' s, it, m)
               else (case pb_close_string_substream s substream of
                       (closed, s) \<Rightarrow> Some (closed \<and> status, s, it, m))))"

definition decode_static_field :: "'s dec_env \<Rightarrow> nat \<Rightarrow> 's dec_rec \<Rightarrow>
    's pb_istream \<Rightarrow> pb_wire_type_t \<Rightarrow> pb_field_iter \<Rightarrow> mem \<Rightarrow> 's iter_result" where
  "decode_static_field env n noinit s wire_type it m =
     (let f = cur it; type = ftype f; func = PB_DECODERS env n noinit (PB_LTYPE type) in
      if PB_HTYPE type = PB_HTYPE_REQUIRED then with_iter it (func s f (pData it) m)
      else if PB_HTYPE type = PB_HTYPE_OPTIONAL then
        (case (if \<not> no_counter it then flag_store it m True else (it, m)) of
           (it, m) \<Rightarrow> with_iter it (func s f (pData it) m))
      else if PB_HTYPE type = PB_HTYPE_REPEATED then
        if wire_type = PB_WT_STRING \<and> PB_LTYPE type \<le> PB_LTYPE_LAST_PACKABLE
        then decode_static_packed func s it m
        else
          let count = size_load it m; item = item_addr (pData it) f count in
          (case size_store it m (count + 1) of
             (it, m) \<Rightarrow>
               if array_size f \<le> count then Some (False, ierror ''array overflow'' s, it, m)
               else with_iter it (func s f item m))
      else
        (case (if PB_LTYPE type = PB_LTYPE_SUBMESSAGE \<and> size_load it m \<noteq> tag f then
                 if fptr f = 0 then None
                 else pb_message_set_to_defaults n (ddescr env) (ddescr env (fptr f)) (pData it)
                        (memset0 m (pData it) (unat (data_size f)))
               else Some m) of
           None \<Rightarrow> None
         | Some m \<Rightarrow>
             (case size_store it m (tag f) of
                (it, m) \<Rightarrow> with_iter it (func s f (pData it) m))))"

section \<open>Pointer fields\<close>

definition initialize_pointer_field :: "'s dec_env \<Rightarrow> nat \<Rightarrow> addr \<Rightarrow> pb_field_iter \<Rightarrow> mem \<Rightarrow> mem option" where
  "initialize_pointer_field env n item it m =
     (let f = cur it; lt = PB_LTYPE (ftype f) in
      if lt = PB_LTYPE_STRING \<or> lt = PB_LTYPE_BYTES then Some (store_ptr m item 0)
      else if lt = PB_LTYPE_SUBMESSAGE then
        if fptr f = 0 then None
        else pb_message_set_to_defaults n (ddescr env) (ddescr env (fptr f)) item
               (memset0 m item (unat (data_size f)))
      else Some m)"

text \<open>Initialise the item at \<open>item\<close>, then decode it.\<close>

definition decode_item :: "'s dec_env \<Rightarrow> nat \<Rightarrow> 's dec_func \<Rightarrow> 's pb_istream \<Rightarrow> addr \<Rightarrow> pb_field_iter \<Rightarrow> mem \<Rightarrow>
    's dec_result" where
  "decode_item env n func s item it m =
     (case initialize_pointer_field env n item it m of
        None \<Rightarrow> None
      | Some m \<Rightarrow> func s (cur it) item m)"

text \<open>
  The loop over a packed array that is allocated while it is read.  The guess of the number of
  entries that remain divides by \<open>data_size\<close>: \<open>None\<close> when that is 0.  The entry \<open>stream\<close> of the result
  is the error message set on the enclosing stream.
\<close>

primrec pointer_items :: "'s dec_env \<Rightarrow> nat \<Rightarrow> 's dec_func \<Rightarrow> nat \<Rightarrow> size_t \<Rightarrow>
    's pb_istream \<Rightarrow> 's pb_istream \<Rightarrow> pb_field_iter \<Rightarrow> mem \<Rightarrow> (bool \<times> 's pb_istream \<times> 's pb_istream \<times> pb_field_iter \<times> mem) option" where
  "pointer_items env n func 0 allocated_size stream s it m = None"
| "pointer_items env n func (Suc rounds) allocated_size stream s it m =
     (let f = cur it; count = size_load it m in
      if bytes_left s = 0 then Some (True, stream, s, it, m)
      else if count = PB_SIZE_MAX
      then Some (False, stream\<lparr>ierrmsg := Some ''too many array entries''\<rparr>, s, it, m)
      else if data_size f = 0 then None
      else
        (case (if allocated_size < ucast count + 1 then
                 let remain = (bytes_left s - 1) div ucast (data_size f) + 1;
                     allocated_size = (if remain < ucast PB_SIZE_MAX - allocated_size
                                       then allocated_size + remain else allocated_size + 1)
                 in (allocated_size, allocate_field env s (pData it) (ucast (data_size f)) allocated_size m)
               else (allocated_size, (True, s, m))) of
           (allocated_size, (False, s, m)) \<Rightarrow> Some (False, stream, s, it, m)
         | (allocated_size, (True, s, m)) \<Rightarrow>
             let item = item_addr (load_ptr m (pData it)) f (size_load it m) in
             if item = 0 then Some (False, stream, s, it, m)
             else (case decode_item env n func s item it m of
                     None \<Rightarrow> None
                   | Some (False, s, m) \<Rightarrow> Some (False, stream, s, it, m)
                   | Some (True, s, m) \<Rightarrow>
                       (case size_store it m (size_load it m + 1) of
                          (it, m) \<Rightarrow> pointer_items env n func rounds allocated_size stream s it m))))"

definition decode_pointer_packed :: "'s dec_env \<Rightarrow> nat \<Rightarrow> 's dec_func \<Rightarrow>
    's pb_istream \<Rightarrow> pb_field_iter \<Rightarrow> mem \<Rightarrow> 's iter_result" where
  "decode_pointer_packed env n func s it m =
     (case pb_make_string_substream s of
        (None, s) \<Rightarrow> Some (False, s, it, m)
      | (Some substream, s) \<Rightarrow>
          (case pointer_items env n func (Suc (unat (bytes_left substream))) (ucast (size_load it m)) s substream it m of
             None \<Rightarrow> None
           | Some (status, s, substream, it, m) \<Rightarrow>
               (case pb_close_string_substream s substream of
                  (closed, s) \<Rightarrow> Some (closed \<and> status, s, it, m))))"

definition decode_pointer_single :: "'s dec_env \<Rightarrow> nat \<Rightarrow> 's dec_func \<Rightarrow>
    's pb_istream \<Rightarrow> pb_field_iter \<Rightarrow> mem \<Rightarrow> 's iter_result" where
  "decode_pointer_single env n func s it m =
     (let f = cur it; type = ftype f; lt = PB_LTYPE type in
      case (if lt = PB_LTYPE_SUBMESSAGE \<and> load_ptr m (pData it) \<noteq> 0
            then pb_release_single_field n (ddescr env) it m else Some m) of
        None \<Rightarrow> None
      | Some m \<Rightarrow>
          (case (if PB_HTYPE type = PB_HTYPE_ONEOF then size_store it m (tag f) else (it, m)) of
             (it, m) \<Rightarrow>
               if lt = PB_LTYPE_STRING \<or> lt = PB_LTYPE_BYTES then with_iter it (func s f (pData it) m)
               else (case allocate_field env s (pData it) (ucast (data_size f)) 1 m of
                       (False, s, m) \<Rightarrow> Some (False, s, it, m)
                     | (True, s, m) \<Rightarrow> with_iter it (decode_item env n func s (load_ptr m (pData it)) it m))))"

definition decode_pointer_field :: "'s dec_env \<Rightarrow> nat \<Rightarrow> 's dec_rec \<Rightarrow>
    's pb_istream \<Rightarrow> pb_wire_type_t \<Rightarrow> pb_field_iter \<Rightarrow> mem \<Rightarrow> 's iter_result" where
  "decode_pointer_field env n noinit s wire_type it m =
     (let f = cur it; type = ftype f; func = PB_DECODERS env n noinit (PB_LTYPE type) in
      if PB_HTYPE type \<noteq> PB_HTYPE_REPEATED then decode_pointer_single env n func s it m
      else if wire_type = PB_WT_STRING \<and> PB_LTYPE type \<le> PB_LTYPE_LAST_PACKABLE
      then decode_pointer_packed env n func s it m
      else
        let count = size_load it m in
        if count = PB_SIZE_MAX then Some (False, ierror ''too many array entries'' s, it, m)
        else (case allocate_field env s (pData it) (ucast (data_size f)) (ucast (count + 1)) m of
                (False, s, m) \<Rightarrow> Some (False, s, it, m)
              | (True, s, m) \<Rightarrow>
                  let item = item_addr (load_ptr m (pData it)) f (size_load it m) in
                  (case size_store it m (size_load it m + 1) of
                     (it, m) \<Rightarrow> with_iter it (decode_item env n func s item it m))))"

section \<open>Callback fields\<close>

text \<open>The \<open>do ... while (substream.bytes_left)\<close> loop, with fuel: a callback need not read anything.\<close>

primrec callback_loop :: "('s pb_istream \<Rightarrow> mem \<Rightarrow> 's dec_result) \<Rightarrow> nat \<Rightarrow> 's pb_istream \<Rightarrow> mem \<Rightarrow> 's dec_result" where
  "callback_loop call 0 s m = None"
| "callback_loop call (Suc k) s m =
     (case call s m of
        None \<Rightarrow> None
      | Some (False, s, m) \<Rightarrow> Some (False, s, m)
      | Some (True, s, m) \<Rightarrow> if bytes_left s \<noteq> 0 then callback_loop call k s m else Some (True, s, m))"

definition decode_callback_field :: "'s dec_env \<Rightarrow> nat \<Rightarrow>
    's pb_istream \<Rightarrow> pb_wire_type_t \<Rightarrow> pb_field_iter \<Rightarrow> mem \<Rightarrow> 's dec_result" where
  "decode_callback_field env n s wire_type it m =
     (let decode = load_ptr m (pData it);
          call = (\<lambda>s m. dec_cb env decode s (cur it) (pData it + offsetof_callback_arg) m) in
      if pData it = 0 \<or> decode = 0
      then (case pb_skip_field s wire_type of (ok, s) \<Rightarrow> Some (ok, s, m))
      else if wire_type = PB_WT_STRING then
        (case pb_make_string_substream s of
           (None, s) \<Rightarrow> Some (False, s, m)
         | (Some substream, s) \<Rightarrow>
             (case callback_loop call n substream m of
                None \<Rightarrow> None
              | Some (False, substream, m) \<Rightarrow> Some (False, ierror ''callback failed'' s, m)
              | Some (True, substream, m) \<Rightarrow>
                  (case pb_close_string_substream s substream of (closed, s) \<Rightarrow> Some (closed, s, m))))
      else
        (case read_raw_value s wire_type 10 of
           (None, s) \<Rightarrow> Some (False, s, m)
         | (Some buffer, s) \<Rightarrow>
             map_option (\<lambda>(ok, substream, m). (ok, s, m))
               (call (pb_istream_from_buffer buffer (of_nat (length buffer))) m)))"

section \<open>Fields\<close>

definition pb_release_union_field :: "'s dec_env \<Rightarrow> nat \<Rightarrow> 's pb_istream \<Rightarrow> pb_field_iter \<Rightarrow> mem \<Rightarrow> 's iter_result" where
  "pb_release_union_field env n s it m =
     (let old_tag = size_load it m; new_tag = tag (cur it) in
      if old_tag = 0 \<or> old_tag = new_tag then Some (True, s, it, m)
      else
        (case pb_field_iter_find it old_tag of
           (False, it) \<Rightarrow> Some (False, ierror ''invalid union tag'' s, it, m)
         | (True, it) \<Rightarrow>
             (case pb_release_single_field n (ddescr env) it m of
                None \<Rightarrow> None
              | Some m \<Rightarrow>
                  (case pb_field_iter_find it new_tag of
                     (False, it) \<Rightarrow> Some (False, ierror ''iterator error'' s, it, m)
                   | (True, it) \<Rightarrow>
                       Some (True, s, it,
                             if PB_ATYPE (ftype (cur it)) = PB_ATYPE_POINTER then store_ptr m (pData it) 0 else m)))))"

definition decode_field :: "'s dec_env \<Rightarrow> nat \<Rightarrow> 's dec_rec \<Rightarrow>
    's pb_istream \<Rightarrow> pb_wire_type_t \<Rightarrow> pb_field_iter \<Rightarrow> mem \<Rightarrow> 's iter_result" where
  "decode_field env n noinit s wire_type it m =
     (case (if PB_HTYPE (ftype (cur it)) = PB_HTYPE_ONEOF then pb_release_union_field env n s it m
            else Some (True, s, it, m)) of
        None \<Rightarrow> None
      | Some (False, s, it, m) \<Rightarrow> Some (False, s, it, m)
      | Some (True, s, it, m) \<Rightarrow>
          let atype = PB_ATYPE (ftype (cur it)) in
          if atype = PB_ATYPE_STATIC then decode_static_field env n noinit s wire_type it m
          else if atype = PB_ATYPE_POINTER then decode_pointer_field env n noinit s wire_type it m
          else if atype = PB_ATYPE_CALLBACK then with_iter it (decode_callback_field env n s wire_type it m)
          else Some (False, ierror ''invalid field type'' s, it, m))"

section \<open>Extensions\<close>

definition default_extension_decoder :: "'s dec_env \<Rightarrow> nat \<Rightarrow> 's dec_rec \<Rightarrow>
    's pb_istream \<Rightarrow> addr \<Rightarrow> u32 \<Rightarrow> pb_wire_type_t \<Rightarrow> mem \<Rightarrow> 's dec_result" where
  "default_extension_decoder env n noinit s ext t wire_type m =
     (if tag (field_at (extension_fields (ddescr env) ext m) 0) \<noteq> t then Some (True, s, m)
      else
        let it = iter_from_extension (ddescr env) ext m;
            m = store_bool m (ext + offsetof_ext_found) True
        in map_option (\<lambda>(ok, s, it, m). (ok, s, m)) (decode_field env n noinit s wire_type it m))"

text \<open>The loop ends when an extension has read something, or with the chain.\<close>

primrec decode_extensions :: "'s dec_env \<Rightarrow> nat \<Rightarrow> 's dec_rec \<Rightarrow> size_t \<Rightarrow> nat \<Rightarrow>
    's pb_istream \<Rightarrow> addr \<Rightarrow> u32 \<Rightarrow> pb_wire_type_t \<Rightarrow> mem \<Rightarrow> 's dec_result" where
  "decode_extensions env n noinit left 0 s ext t wire_type m =
     (if ext = 0 \<or> bytes_left s \<noteq> left then Some (True, s, m) else None)"
| "decode_extensions env n noinit left (Suc k) s ext t wire_type m =
     (if ext = 0 \<or> bytes_left s \<noteq> left then Some (True, s, m)
      else
        let decode = load_ptr m (load_ptr m (ext + offsetof_ext_type) + offsetof_exttype_decode) in
        (case (if decode \<noteq> 0 then ext_dec env decode s ext t wire_type m
               else default_extension_decoder env n noinit s ext t wire_type m) of
           None \<Rightarrow> None
         | Some (False, s, m) \<Rightarrow> Some (False, s, m)
         | Some (True, s, m) \<Rightarrow>
             decode_extensions env n noinit left k s (load_ptr m (ext + offsetof_ext_next)) t wire_type m))"

definition decode_extension :: "'s dec_env \<Rightarrow> nat \<Rightarrow> 's dec_rec \<Rightarrow>
    's pb_istream \<Rightarrow> u32 \<Rightarrow> pb_wire_type_t \<Rightarrow> pb_field_iter \<Rightarrow> mem \<Rightarrow> 's dec_result" where
  "decode_extension env n noinit s t wire_type it m =
     decode_extensions env n noinit (bytes_left s) n s (load_ptr m (pData it)) t wire_type m"

section \<open>Messages\<close>

text \<open>
  The local variables of \<open>pb_decode_noinit\<close>.  \<open>fixed_count_field\<close> is a position in the descriptor array;
  \<open>fixed_count_size\<close> lives in the iterator.
\<close>

record noinit_vars =
  fields_seen :: "u32 list"
  extension_range_start :: u32
  fixed_count_field :: "nat option"
  iter :: pb_field_iter

definition noinit_start :: "pb_field list \<Rightarrow> addr \<Rightarrow> noinit_vars" where
  "noinit_start fs dest =
     \<lparr>fields_seen = [0, 0], extension_range_start = 0, fixed_count_field = None,
      iter = snd (pb_field_iter_begin fs dest 0)\<rparr>"

definition wrong_fixed_count :: "noinit_vars \<Rightarrow> bool" where
  "wrong_fixed_count v =
     (case fixed_count_field v of
        None \<Rightarrow> False
      | Some i \<Rightarrow> fixed_count_size (iter v) \<noteq> array_size (field_at (start (iter v)) i))"

text \<open>What is done with a field that has no entry: the extensions, or skipping.\<close>

definition decode_unknown :: "'s dec_env \<Rightarrow> nat \<Rightarrow> 's dec_rec \<Rightarrow>
    's pb_istream \<Rightarrow> u32 \<Rightarrow> pb_wire_type_t \<Rightarrow> noinit_vars \<Rightarrow> mem \<Rightarrow> (bool \<times> 's pb_istream \<times> noinit_vars \<times> mem) option" where
  "decode_unknown env n noinit s t wire_type v m =
     (let skip = (\<lambda>s v m. case pb_skip_field s wire_type of (ok, s) \<Rightarrow> Some (ok, s, v, m)) in
      if extension_range_start v \<le> t then
        case find_extension_field (iter v) of
          (found, it) \<Rightarrow>
            let v = v\<lparr>iter := it, extension_range_start := (if found then tag (cur it) else - 1)\<rparr> in
            if extension_range_start v \<le> t then
              (case decode_extension env n noinit s t wire_type it m of
                 None \<Rightarrow> None
               | Some (False, s', m) \<Rightarrow> Some (False, s', v, m)
               | Some (True, s', m) \<Rightarrow>
                   if bytes_left s \<noteq> bytes_left s' then Some (True, s', v, m) else skip s' v m)
            else skip s v m
      else skip s v m)"

text \<open>The bookkeeping before a field is decoded; \<open>None\<close> when the previous fixed array is incomplete.\<close>

definition note_fixed_count :: "noinit_vars \<Rightarrow> noinit_vars option" where
  "note_fixed_count v =
     (if PB_HTYPE (ftype (cur (iter v))) = PB_HTYPE_REPEATED \<and> no_counter (iter v) then
        if fixed_count_field v \<noteq> Some (pos (iter v)) then
          if wrong_fixed_count v then None
          else Some (v\<lparr>fixed_count_field := Some (pos (iter v)),
                      iter := (iter v)\<lparr>fixed_count_size := 0, pSize := PLocal\<rparr>\<rparr>)
        else Some (v\<lparr>iter := (iter v)\<lparr>pSize := PLocal\<rparr>\<rparr>)
      else Some v)"

definition note_required :: "noinit_vars \<Rightarrow> noinit_vars" where
  "note_required v =
     (let i = required_field_index (iter v) in
      if PB_HTYPE (ftype (cur (iter v))) = PB_HTYPE_REQUIRED \<and> i < PB_MAX_REQUIRED_FIELDS
      then let w = unat (drop_bit 5 i) in
        v\<lparr>fields_seen := (fields_seen v)[w := (fields_seen v ! w) OR push_bit (unat (i AND 31)) 1]\<rparr>
      else v)"

definition decode_known :: "'s dec_env \<Rightarrow> nat \<Rightarrow> 's dec_rec \<Rightarrow>
    's pb_istream \<Rightarrow> pb_wire_type_t \<Rightarrow> noinit_vars \<Rightarrow> mem \<Rightarrow> (bool \<times> 's pb_istream \<times> noinit_vars \<times> mem) option" where
  "decode_known env n noinit s wire_type v m =
     (case note_fixed_count v of
        None \<Rightarrow> Some (False, ierror ''wrong size for fixed count field'' s, v, m)
      | Some v \<Rightarrow>
          let v = note_required v in
          map_option (\<lambda>(ok, s, it, m). (ok, s, v\<lparr>iter := it\<rparr>, m)) (decode_field env n noinit s wire_type (iter v) m))"

text \<open>
  The \<open>while (stream->bytes_left)\<close> loop.  \<open>rounds\<close> is the number of rounds granted; every round reads a tag of
  a byte or more.
\<close>

primrec decode_loop :: "'s dec_env \<Rightarrow> nat \<Rightarrow> 's dec_rec \<Rightarrow> nat \<Rightarrow>
    's pb_istream \<Rightarrow> noinit_vars \<Rightarrow> mem \<Rightarrow> (bool \<times> 's pb_istream \<times> noinit_vars \<times> mem) option" where
  "decode_loop env n noinit 0 s v m = None"
| "decode_loop env n noinit (Suc rounds) s v m =
     (if bytes_left s = 0 then Some (True, s, v, m)
      else
        (case pb_decode_tag s of
           ((None, eof), s) \<Rightarrow> Some (eof, s, v, m)
         | ((Some (wire_type, t), eof), s) \<Rightarrow>
             (case pb_field_iter_find (iter v) t of
                (found, it) \<Rightarrow>
                  let v = v\<lparr>iter := it\<rparr> in
                  (case (if \<not> found then decode_unknown env n noinit s t wire_type v m
                         else decode_known env n noinit s wire_type v m) of
                     None \<Rightarrow> None
                   | Some (False, s, v, m) \<Rightarrow> Some (False, s, v, m)
                   | Some (True, s, v, m) \<Rightarrow> decode_loop env n noinit rounds s v m))))"

section \<open>Required fields\<close>

text \<open>
  The \<open>do ... while (pb_field_iter_next(&iter))\<close> loop to the last field: its \<open>required_field_index\<close>, its type, and
  the iterator behind it.
\<close>

function last_required :: "pb_field_iter \<Rightarrow> u32 \<times> pb_type_t \<times> pb_field_iter" where
  "last_required it =
     (case pb_field_iter_next it of
        (again, it') \<Rightarrow>
          if again then last_required it' else (required_field_index it, ftype (cur it), it'))"
  by pat_completeness auto
termination
  by (relation "measure (\<lambda>it. length (start it) - pos it)") (auto dest: next_more [OF sym])

declare last_required.simps [simp del]

definition required_count :: "pb_field_iter \<Rightarrow> u32" where
  "required_count it =
     (case last_required it of
        (req_field_count, last_type, it) \<Rightarrow>
          let req_field_count = (if PB_HTYPE last_type = PB_HTYPE_REQUIRED \<and> tag (cur it) \<noteq> 0
                                 then req_field_count + 1 else req_field_count)
          in if PB_MAX_REQUIRED_FIELDS < req_field_count then PB_MAX_REQUIRED_FIELDS else req_field_count)"

definition all_required_seen :: "u32 list \<Rightarrow> u32 \<Rightarrow> bool" where
  "all_required_seen seen count \<longleftrightarrow>
     list_all (\<lambda>i. seen ! i = - 1) [0..<unat (drop_bit 5 count)] \<and>
     (count AND 31 \<noteq> 0 \<longrightarrow> seen ! unat (drop_bit 5 count) = drop_bit (32 - unat (count AND 31)) (- 1))"

definition decode_message :: "'s dec_env \<Rightarrow> nat \<Rightarrow> 's dec_rec \<Rightarrow> 's dec_rec" where
  "decode_message env n noinit s fs dest m =
     (case decode_loop env n noinit (Suc (unat (bytes_left s))) s (noinit_start fs dest) m of
        None \<Rightarrow> None
      | Some (False, s, v, m) \<Rightarrow> Some (False, s, m)
      | Some (True, s, v, m) \<Rightarrow>
          if wrong_fixed_count v then Some (False, ierror ''wrong size for fixed count field'' s, m)
          else if \<not> all_required_seen (fields_seen v) (required_count (iter v))
          then Some (False, ierror ''missing required field'' s, m)
          else Some (True, s, m))"

primrec pb_decode_noinit :: "nat \<Rightarrow> 's dec_env \<Rightarrow> 's dec_rec" where
  "pb_decode_noinit 0 env = (\<lambda>s fs dest m. None)"
| "pb_decode_noinit (Suc n) env = decode_message env n (pb_decode_noinit n env)"

definition pb_decode :: "nat \<Rightarrow> 's dec_env \<Rightarrow> 's dec_rec" where
  "pb_decode n env = decode_with env n (pb_decode_noinit n env)"

definition pb_decode_delimited_noinit :: "nat \<Rightarrow> 's dec_env \<Rightarrow> 's dec_rec" where
  "pb_decode_delimited_noinit n env s fs dest m =
     in_substream (\<lambda>s m. pb_decode_noinit n env s fs dest m) s m"

definition pb_decode_delimited :: "nat \<Rightarrow> 's dec_env \<Rightarrow> 's dec_rec" where
  "pb_decode_delimited n env s fs dest m = in_substream (\<lambda>s m. pb_decode n env s fs dest m) s m"

definition pb_decode_nullterminated :: "nat \<Rightarrow> 's dec_env \<Rightarrow> 's dec_rec" where
  "pb_decode_nullterminated n env = pb_decode n env"

end
