(* ===== verification/Pb_Iter_Props.thy ===== *)
theory Pb_Iter_Props
  imports Pb_Iter
begin

text \<open>
  Correctness of the iterators: stepping visits the entries in order and wraps to the first, the data pointer
  depends only on the position (\<open>iter_at\<close>), and a search finds an entry exactly when there is one.
\<close>

section \<open>Positions\<close>

definition wf_fields :: "pb_field list \<Rightarrow> bool" where
  "wf_fields fs \<longleftrightarrow> (\<forall>f \<in> set fs. tag f \<noteq> 0)"

text \<open>The iterator reached from the beginning by \<open>i\<close> steps.\<close>

primrec iter_at :: "pb_field list \<Rightarrow> addr \<Rightarrow> nat \<Rightarrow> pb_field_iter" where
  "iter_at fs dest 0 = snd (pb_field_iter_begin fs dest 0)"
| "iter_at fs dest (Suc i) = snd (pb_field_iter_next (iter_at fs dest i))"

definition same_message :: "pb_field_iter \<Rightarrow> pb_field_iter \<Rightarrow> bool" where
  "same_message it it' \<longleftrightarrow>
     start it' = start it \<and> dest_struct it' = dest_struct it \<and> fixed_count_size it' = fixed_count_size it"

text \<open>
  An iterator over a message is at a position, up to the local counter and to \<open>pSize\<close>, which the decoder
  redirects while it stands on a repeated field without a counter.
\<close>

definition wf_iter :: "pb_field_iter \<Rightarrow> bool" where
  "wf_iter it \<longleftrightarrow>
     wf_fields (start it) \<and> (pos it < length (start it) \<or> pos it = 0) \<and>
     (let p = iter_at (start it) (dest_struct it) (pos it) in
      required_field_index it = required_field_index p \<and> pData it = pData p \<and>
      (pSize it = pSize p \<or> pos it < length (start it) \<and> PB_HTYPE (ftype (cur it)) = PB_HTYPE_REPEATED))"

lemma same_message_refl [simp]: "same_message it it"
  by (simp add: same_message_def)

lemma same_message_trans [trans]: "same_message a b \<Longrightarrow> same_message b c \<Longrightarrow> same_message a c"
  by (simp add: same_message_def)

lemma field_at_tag: "wf_fields fs \<Longrightarrow> tag (field_at fs i) = 0 \<longleftrightarrow> length fs \<le> i"
  by (cases "i < length fs") (auto simp: wf_fields_def PB_LAST_FIELD_def)

lemma begin_simps [simp]:
  "start (snd (pb_field_iter_begin fs dest c)) = fs"
  "pos (snd (pb_field_iter_begin fs dest c)) = 0"
  "dest_struct (snd (pb_field_iter_begin fs dest c)) = dest"
  "fixed_count_size (snd (pb_field_iter_begin fs dest c)) = c"
  "required_field_index (snd (pb_field_iter_begin fs dest c)) = 0"
  by (simp_all add: pb_field_iter_begin_def Let_def)

lemma begin_data:
  "pData (snd (pb_field_iter_begin fs dest c)) = pData (iter_at fs dest 0)"
  "pSize (snd (pb_field_iter_begin fs dest c)) = pSize (iter_at fs dest 0)"
  by (simp_all add: pb_field_iter_begin_def Let_def)

lemma next_same [simp]:
  "start (snd (pb_field_iter_next it)) = start it"
  "dest_struct (snd (pb_field_iter_next it)) = dest_struct it"
  "fixed_count_size (snd (pb_field_iter_next it)) = fixed_count_size it"
  by (simp_all add: pb_field_iter_next_def Let_def)

lemma iter_at_same [simp]:
  "start (iter_at fs dest i) = fs"
  "dest_struct (iter_at fs dest i) = dest"
  by (induction i) simp_all

lemma next_wrap:
  assumes "wf_fields (start it)" and "pos it < length (start it)" and "\<not> Suc (pos it) < length (start it)"
  shows "pb_field_iter_next it = (False, snd (pb_field_iter_begin (start it) (dest_struct it) (fixed_count_size it)))"
proof -
  have "tag (cur it) \<noteq> 0" "tag (field_at (start it) (Suc (pos it))) = 0"
    using assms by (simp_all only: field_at_tag)
  then show ?thesis by (simp only: pb_field_iter_next_def Let_def if_False if_True simp_thms)
qed

lemma next_step:
  assumes "wf_fields (start it)" and "Suc (pos it) < length (start it)"
  shows "pb_field_iter_next it =
    (let prev = start it ! pos it; next = start it ! Suc (pos it);
         data = pData it + field_extent prev + ucast (data_offset next) in
     if PB_HTYPE (ftype prev) = PB_HTYPE_ONEOF \<and> PB_HTYPE (ftype next) = PB_HTYPE_ONEOF \<and>
        data_offset next = PB_SIZE_MAX
     then (True, it\<lparr>pos := Suc (pos it)\<rparr>)
     else (True, it\<lparr>pos := Suc (pos it),
             required_field_index := required_field_index it +
               (if PB_HTYPE (ftype prev) = PB_HTYPE_REQUIRED then 1 else 0),
             pData := data, pSize := ploc_add data (size_offset next)\<rparr>))"
proof -
  have "tag (cur it) \<noteq> 0" "tag (field_at (start it) (Suc (pos it))) \<noteq> 0"
    using assms by (simp_all only: field_at_tag)
  then show ?thesis
    using assms(2) by (simp only: pb_field_iter_next_def Let_def if_False field_at_simps(1) Suc_lessD)
qed

lemma next_pos:
  assumes "wf_fields (start it)" and "pos it < length (start it)"
  shows "pos (snd (pb_field_iter_next it)) = (if Suc (pos it) < length (start it) then Suc (pos it) else 0)"
    and "fst (pb_field_iter_next it) = (Suc (pos it) < length (start it))"
  using assms by (cases "Suc (pos it) < length (start it)"; simp add: next_wrap next_step Let_def)+

lemma pos_iter_at: "wf_fields fs \<Longrightarrow> i < length fs \<Longrightarrow> pos (iter_at fs dest i) = i"
  by (induction i) (simp_all add: next_pos)

lemma wf_iter_begin [simp]: "wf_fields fs \<Longrightarrow> wf_iter (snd (pb_field_iter_begin fs dest c))"
  by (simp add: wf_iter_def Let_def begin_data del: iter_at.simps) simp

text \<open>An iterator that has just been moved to its position.\<close>

definition exact_iter :: "pb_field_iter \<Rightarrow> bool" where
  "exact_iter it \<longleftrightarrow> wf_iter it \<and> pSize it = pSize (iter_at (start it) (dest_struct it) (pos it))"

lemma exact_iter_begin [simp]: "wf_fields fs \<Longrightarrow> exact_iter (snd (pb_field_iter_begin fs dest c))"
  by (simp add: exact_iter_def) (simp add: pb_field_iter_begin_def Let_def)

lemma exact_iter_next:
  assumes wf: "wf_iter it" and ne: "pos it < length (start it)"
  shows "exact_iter (snd (pb_field_iter_next it))"
proof (cases "Suc (pos it) < length (start it)")
  case False
  then show ?thesis using wf ne by (simp add: next_wrap wf_iter_def [of it])
next
  case True
  let ?p = "iter_at (start it) (dest_struct it) (pos it)"
  have fs: "wf_fields (start it)" using wf by (simp add: wf_iter_def)
  have p: "pos ?p = pos it" by (rule pos_iter_at [OF fs ne])
  have s: "pos (snd (pb_field_iter_next it)) = Suc (pos it)"
    using True next_pos(1) [OF fs ne] by simp
  have eq: "required_field_index it = required_field_index ?p" "pData it = pData ?p"
    "pSize it = pSize ?p \<or> PB_HTYPE (ftype (start it ! pos it)) = PB_HTYPE_REPEATED"
    using wf ne by (auto simp: wf_iter_def Let_def)
  have neq: "PB_HTYPE_REPEATED \<noteq> PB_HTYPE_ONEOF" by (simp add: pb_consts)
  have "required_field_index (snd (pb_field_iter_next it)) = required_field_index (snd (pb_field_iter_next ?p)) \<and>
      pData (snd (pb_field_iter_next it)) = pData (snd (pb_field_iter_next ?p)) \<and>
      pSize (snd (pb_field_iter_next it)) = pSize (snd (pb_field_iter_next ?p))"
    using eq True fs ne neq by (auto simp: next_step Let_def p)
  then show ?thesis
    using True fs s by (simp add: exact_iter_def wf_iter_def Let_def)
qed

lemma wf_iter_next: "wf_iter it \<Longrightarrow> pos it < length (start it) \<Longrightarrow> wf_iter (snd (pb_field_iter_next it))"
  using exact_iter_next by (simp add: exact_iter_def)

lemma exact_iter_search:
  assumes "exact_iter it" and "pos it < length (start it)"
  shows "exact_iter (snd (iter_search found first rounds it))"
  using assms
proof (induction rounds arbitrary: it)
  case (Suc rounds)
  have wf: "wf_iter it" using Suc.prems(1) by (simp add: exact_iter_def)
  then have fs: "wf_fields (start it)" by (simp add: wf_iter_def)
  have "pos (snd (pb_field_iter_next it)) < length (start (snd (pb_field_iter_next it)))"
    using next_pos(1) [OF fs Suc.prems(2)] Suc.prems(2) by auto
  with Suc exact_iter_next [OF wf] show ?case by (auto simp: Let_def)
qed simp

section \<open>Searching\<close>

lemma iter_search_result:
  assumes "wf_iter it" and "start it = fs" and "pos it = (first + j) mod length fs"
    and "first < length fs" and "j < length fs" and "length fs - j \<le> rounds"
  shows "case iter_search found first rounds it of (ok, it') \<Rightarrow>
    same_message it it' \<and> wf_iter it' \<and> pos it' < length fs \<and> (ok \<longrightarrow> found (cur it')) \<and>
    (ok \<longleftrightarrow> (\<exists>i. j \<le> i \<and> i < length fs \<and> found (fs ! ((first + i) mod length fs)))) \<and> (\<not> ok \<longrightarrow> pos it' = first)"
  using assms
proof (induction rounds arbitrary: it j)
  case (Suc rounds)
  let ?n = "length fs"
  have p: "pos it < ?n" unfolding Suc.prems(3) using Suc.prems(4) by (intro mod_less_divisor) linarith
  have cur: "cur it = fs ! ((first + j) mod ?n)" using Suc.prems p by simp
  show ?case
  proof (cases "found (cur it)")
    case True
    then show ?thesis using Suc.prems p cur by auto
  next
    case False
    let ?it = "snd (pb_field_iter_next it)"
    have wf: "wf_iter ?it" using wf_iter_next Suc.prems p by simp
    have pos': "pos ?it = (first + Suc j) mod ?n"
      using next_pos(1) [of it] Suc.prems(1-3) p by (auto simp: wf_iter_def mod_Suc)
    have skip: "(\<exists>i. j \<le> i \<and> i < ?n \<and> found (fs ! ((first + i) mod ?n))) \<longleftrightarrow>
        (\<exists>i. Suc j \<le> i \<and> i < ?n \<and> found (fs ! ((first + i) mod ?n)))"
      using False cur by (metis Suc_leD Suc_leI le_neq_implies_less)
    show ?thesis
    proof (cases "Suc j = ?n")
      case True
      then have "pos ?it = first" using pos' Suc.prems(4) by simp
      then show ?thesis
        using False wf Suc.prems skip True by (auto simp: Let_def same_message_def)
    next
      case more: False
      then have j: "Suc j < ?n" using Suc.prems(5) by simp
      have "pos ?it \<noteq> first"
      proof
        assume "pos ?it = first"
        then have "(first + Suc j) mod ?n = (first + 0) mod ?n" using pos' Suc.prems(4) by simp
        then show False
          using j Suc.prems(4) by (cases "first + Suc j < ?n") (auto simp: mod_if split: if_splits)
      qed
      moreover have "same_message it ?it" by (simp add: same_message_def)
      moreover have "?n - Suc j \<le> rounds" using Suc.prems(6) by linarith
      moreover obtain ok it2 where res: "iter_search found first rounds ?it = (ok, it2)"
        by (cases "iter_search found first rounds ?it")
      ultimately show ?thesis
        using Suc.IH [of ?it "Suc j"] wf pos' j Suc.prems(2,4) False skip
        by (auto simp: Let_def intro: same_message_trans)
    qed
  qed
qed simp

lemma cyclic_search:
  assumes "p < length xs"
  shows "(\<exists>i. 0 \<le> i \<and> i < length xs \<and> P (xs ! ((p + i) mod length xs))) \<longleftrightarrow> (\<exists>x \<in> set xs. P x)"
proof -
  have "(\<exists>x \<in> set (rotate p xs). P x) \<longleftrightarrow> (\<exists>i < length xs. P (rotate p xs ! i))"
    by (metis in_set_conv_nth length_rotate)
  also have "\<dots> \<longleftrightarrow> (\<exists>i < length xs. P (xs ! ((p + i) mod length xs)))"
    by (simp add: nth_rotate cong: conj_cong)
  finally show ?thesis by simp
qed

lemma iter_search_whole:
  assumes "wf_iter it" and "pos it < length (start it)"
  shows "case iter_search found (pos it) (Suc (length (start it))) it of (ok, it') \<Rightarrow>
    same_message it it' \<and> wf_iter it' \<and> pos it' < length (start it) \<and> (ok \<longrightarrow> found (cur it')) \<and>
    (ok \<longleftrightarrow> (\<exists>f \<in> set (start it). found f)) \<and> (\<not> ok \<longrightarrow> pos it' = pos it)"
proof -
  let ?n = "length (start it)"
  obtain ok it' where res: "iter_search found (pos it) (Suc ?n) it = (ok, it')"
    by (cases "iter_search found (pos it) (Suc ?n) it")
  have "pos it = (pos it + 0) mod ?n" "0 < ?n" "?n - 0 \<le> Suc ?n" using assms(2) by auto
  from iter_search_result [OF assms(1) refl this(1) assms(2) this(2,3), of found] show ?thesis
    unfolding res prod.case cyclic_search [OF assms(2), of found] by blast
qed

text \<open>C28: on every well-formed message \<open>pb_field_iter_find\<close> succeeds exactly when some ordinary field has the tag, and
  then stands on such a field with the data pointer of its position; it never leaves the message, and
  on failure it is back where it started.\<close>

theorem pb_field_iter_find_correct:
  assumes "wf_iter it" and "pos it < length (start it)"
  shows "case pb_field_iter_find it t of (ok, it') \<Rightarrow>
    (ok \<longleftrightarrow> (\<exists>f \<in> set (start it). tag f = t \<and> PB_LTYPE (ftype f) \<noteq> PB_LTYPE_EXTENSION)) \<and>
    wf_iter it' \<and> same_message it it' \<and> pos it' < length (start it) \<and>
    (ok \<longrightarrow> tag (start it ! pos it') = t) \<and> (\<not> ok \<longrightarrow> pos it' = pos it)"
proof (cases "pb_field_iter_find it t")
  case (Pair ok it')
  let ?f = "\<lambda>f. tag f = t \<and> PB_LTYPE (ftype f) \<noteq> PB_LTYPE_EXTENSION"
  have res: "iter_search ?f (pos it) (Suc (length (start it))) it = (ok, it')"
    using Pair by (simp only: pb_field_iter_find_def)
  from iter_search_whole [OF assms, of ?f]
  have "same_message it it'" "wf_iter it'" "pos it' < length (start it)" "ok \<longrightarrow> ?f (cur it')"
    "ok \<longleftrightarrow> (\<exists>f \<in> set (start it). ?f f)" "\<not> ok \<longrightarrow> pos it' = pos it"
    unfolding res prod.case by blast+
  then show ?thesis
    unfolding Pair prod.case by (auto simp: same_message_def)
qed

definition two_fields :: "pb_field list" where
  "two_fields = [\<lparr>tag = 1, ftype = PB_LTYPE_VARINT, data_offset = 0, size_offset = 0, data_size = 4, array_size = 0, fptr = 0\<rparr>,
     \<lparr>tag = 7, ftype = PB_LTYPE_BOOL, data_offset = 0, size_offset = 0, data_size = 1, array_size = 0, fptr = 0\<rparr>]"

theorem pb_field_iter_find_correct_witness:
  "case pb_field_iter_find (snd (pb_field_iter_begin two_fields 16 0)) 7 of (ok, it') \<Rightarrow>
    (ok \<longleftrightarrow> (\<exists>f \<in> set (start (snd (pb_field_iter_begin two_fields 16 0))). tag f = 7 \<and>
        PB_LTYPE (ftype f) \<noteq> PB_LTYPE_EXTENSION)) \<and>
    wf_iter it' \<and> same_message (snd (pb_field_iter_begin two_fields 16 0)) it' \<and>
    pos it' < length (start (snd (pb_field_iter_begin two_fields 16 0))) \<and>
    (ok \<longrightarrow> tag (start (snd (pb_field_iter_begin two_fields 16 0)) ! pos it') = 7) \<and>
    (\<not> ok \<longrightarrow> pos it' = pos (snd (pb_field_iter_begin two_fields 16 0)))"
  by (rule pb_field_iter_find_correct) (simp_all add: wf_fields_def two_fields_def)

text \<open>
  On a message without fields the search starts on the terminator, whose tag is 0: a field with tag 0 and
  a wire type other than 0 is taken for a field of the message, a boolean at offset 0.
\<close>

lemma find_on_empty_message:
  "fst (pb_field_iter_find (snd (pb_field_iter_begin [] dest c)) t) \<longleftrightarrow> t = 0"
  by (auto simp: pb_field_iter_find_def PB_LAST_FIELD_def PB_LTYPE_def pb_consts Let_def pb_field_iter_next_def)

end
