(* ===== verification/Pb_Layout.thy ===== *)
theory Pb_Layout
  imports Pb_Defaults Pb_Iter_Props
begin

text \<open>
  Messages in memory.  \<open>owned_schema\<close> describes structures whose members lie within their size: static members,
  static submessages, pointers to single values, and pointers to arrays of submessages without pointers.  On these
  structures setting the defaults and releasing return, and write to nothing but the structure.
\<close>

section \<open>Room in memory\<close>

text \<open>\<open>room R a n\<close>: there are \<open>n\<close> bytes at \<open>a\<close>, all of which may be written.\<close>

definition room :: "(addr \<Rightarrow> bool) \<Rightarrow> addr \<Rightarrow> nat \<Rightarrow> bool" where
  "room R a n \<longleftrightarrow> a \<noteq> 0 \<and> unat a + n < 2 ^ 64 \<and> (\<forall>x. in_range a n x \<longrightarrow> R x)"

lemma room_sub:
  assumes "room R a n" and "unat off + k \<le> n"
  shows "room R (a + off) k"
proof -
  have "unat (a + off) = unat a + unat off"
    using assms by (simp add: room_def unat_word_ariths)
  moreover have "0 < unat a" using assms(1) by (simp add: room_def unat_gt_0)
  moreover have "in_range a n x" if "in_range (a + off) k x" for x
  proof (rule in_range_offset [of a "unat off" k])
    show "in_range (a + of_nat (unat off)) k x" using that by simp
  qed (use assms in \<open>auto simp: room_def\<close>)
  ultimately show ?thesis
    using assms by (auto simp: room_def simp flip: unat_gt_0)
qed

lemma room_mono: "room R a n \<Longrightarrow> k \<le> n \<Longrightarrow> room R a k"
  using room_sub [of R a n 0 k] by simp

lemma unchanged_store: "room R a n \<Longrightarrow> length bs \<le> n \<Longrightarrow> unchanged_outside R m (store_bytes m a bs)"
  by (rule unchanged_store_bytes) (auto simp: room_def intro: in_range_mono)

lemma unchanged_stores:
  "room R a n \<Longrightarrow> k \<le> n \<Longrightarrow> unchanged_outside R m (store_int m a k v)"
  "room R a n \<Longrightarrow> 4 \<le> n \<Longrightarrow> unchanged_outside R m (store32 m a w)"
  "room R a n \<Longrightarrow> 8 \<le> n \<Longrightarrow> unchanged_outside R m (store_ptr m a p)"
  "room R a n \<Longrightarrow> 1 \<le> n \<Longrightarrow> unchanged_outside R m (store_bool m a b)"
  "room R a n \<Longrightarrow> k \<le> n \<Longrightarrow> unchanged_outside R m (memset0 m a k)"
  "room R a n \<Longrightarrow> k \<le> n \<Longrightarrow> unchanged_outside R m (memcpy m a src k)"
  unfolding store_int_def store32_def store_ptr_def store_bool_def memset0_def memcpy_def
  by (rule unchanged_store, assumption, simp)+

text \<open>A memory that differs in its list of blocks only.\<close>

lemma unchanged_blocks [simp]: "unchanged_outside R m (m\<lparr>mblocks := b\<rparr>)"
  by (simp add: unchanged_outside_def)

lemma unchanged_from_blocks [simp]: "unchanged_outside R (m\<lparr>mblocks := b\<rparr>) m' = unchanged_outside R m m'"
  by (simp add: unchanged_outside_def)

section \<open>Offsets\<close>

text \<open>The entries of a descriptor array with the offsets of their members, as the iterator adds them up.\<close>

fun placed :: "addr \<Rightarrow> pb_field list \<Rightarrow> (addr \<times> pb_field) list" where
  "placed e [] = []"
| "placed e (f # fs) =
     (let off = e + ucast (data_offset f) in (off, f) # placed (off + field_extent f) fs)"

lemma length_placed [simp]: "length (placed e fs) = length fs"
  by (induction e fs rule: placed.induct) (simp_all add: Let_def)

lemma nth_placed: "i < length fs \<Longrightarrow> snd (placed e fs ! i) = fs ! i"
  by (induction e fs arbitrary: i rule: placed.induct) (auto simp: Let_def nth_Cons split: nat.split)

lemma placed_0: "fs \<noteq> [] \<Longrightarrow> fst (placed e fs ! 0) = e + ucast (data_offset (fs ! 0))"
  by (cases fs) (simp_all add: Let_def)

lemma placed_Suc:
  "Suc i < length fs \<Longrightarrow> fst (placed e fs ! Suc i) = fst (placed e fs ! i) + field_extent (fs ! i) + ucast (data_offset (fs ! Suc i))"
proof (induction e fs arbitrary: i rule: placed.induct)
  case (2 e f fs)
  then show ?case by (cases i) (simp_all add: Let_def placed_0)
qed simp

definition no_oneofs :: "pb_field list \<Rightarrow> bool" where
  "no_oneofs fs \<longleftrightarrow> list_all (\<lambda>f. PB_HTYPE (ftype f) \<noteq> PB_HTYPE_ONEOF) fs"

lemma placed_iter:
  assumes "wf_fields fs" and "no_oneofs fs" and "dest \<noteq> 0" and "i < length fs"
  shows "pData (iter_at fs dest i) = dest + fst (placed 0 fs ! i) \<and>
    pSize (iter_at fs dest i) = ploc_add (dest + fst (placed 0 fs ! i)) (size_offset (fs ! i))"
  using assms(4)
proof (induction i)
  case 0
  then show ?case using assms(3) placed_0 [of fs 0] by (simp add: pb_field_iter_begin_def Let_def)
next
  case (Suc i)
  let ?it = "iter_at fs dest i"
  have pos: "pos ?it = i" using pos_iter_at [OF assms(1)] Suc.prems by simp
  have "PB_HTYPE (ftype (fs ! i)) \<noteq> PB_HTYPE_ONEOF"
    using assms(2) Suc.prems by (simp add: no_oneofs_def list_all_length)
  then show ?case
    using Suc next_step [of ?it] assms(1) pos by (simp add: Let_def placed_Suc ploc_add_def algebra_simps)
qed

section \<open>Schemas\<close>

text \<open>The types of values, and the room that a value takes at least.\<close>

definition value_fits :: "pb_field \<Rightarrow> bool" where
  "value_fits f \<longleftrightarrow>
     (let lt = PB_LTYPE (ftype f); n = unat (data_size f) in
      (lt = PB_LTYPE_BOOL \<and> 1 \<le> n) \<or> lt = PB_LTYPE_VARINT \<or> lt = PB_LTYPE_UVARINT \<or> lt = PB_LTYPE_SVARINT \<or>
      (lt = PB_LTYPE_FIXED32 \<and> 4 \<le> n) \<or> (lt = PB_LTYPE_FIXED64 \<and> 8 \<le> n) \<or>
      lt = PB_LTYPE_BYTES \<or> lt = PB_LTYPE_STRING \<or> lt = PB_LTYPE_SUBMESSAGE \<or> lt = PB_LTYPE_FIXED_LENGTH_BYTES)"

text \<open>
  A member at offset \<open>off\<close> of a structure of \<open>sz\<close> bytes.  \<open>heap\<close> allows pointers, \<open>sub\<close> is the condition on the
  structure and the descriptors of a submessage.
\<close>

definition owned_field :: "(bool \<Rightarrow> nat \<Rightarrow> pb_field list \<Rightarrow> bool) \<Rightarrow> descriptors \<Rightarrow> bool \<Rightarrow> nat \<Rightarrow> addr \<times> pb_field \<Rightarrow> bool" where
  "owned_field sub d heap sz e \<longleftrightarrow>
     (let off = fst e; f = snd e; type = ftype f; counter = off + scast (size_offset f);
          array = (PB_HTYPE type = PB_HTYPE_REPEATED); msg = (PB_LTYPE type = PB_LTYPE_SUBMESSAGE) in
      tag f \<noteq> 0 \<and> PB_HTYPE type \<noteq> PB_HTYPE_ONEOF \<and> value_fits f \<and>
      (size_offset f \<noteq> 0 \<longrightarrow> unat counter + (if array then 4 else 1) \<le> sz) \<and>
      (PB_ATYPE type = PB_ATYPE_STATIC \<and> \<not> array \<and> unat off + unat (data_size f) \<le> sz \<and>
         (msg \<longrightarrow> fptr f \<noteq> 0 \<and> sub heap (unat (data_size f)) (d (fptr f))) \<or>
       PB_ATYPE type = PB_ATYPE_POINTER \<and> heap \<and> unat off + 8 \<le> sz \<and>
         (if array
          then msg \<and> fptr f \<noteq> 0 \<and> sub False (unat (data_size f)) (d (fptr f)) \<and> size_offset f \<noteq> 0 \<and>
            (unat off + 8 \<le> unat counter \<or> unat counter + 4 \<le> unat off)
          else \<not> msg)))"

primrec owned_schema :: "nat \<Rightarrow> descriptors \<Rightarrow> bool \<Rightarrow> nat \<Rightarrow> pb_field list \<Rightarrow> bool" where
  "owned_schema 0 d heap sz fs = False"
| "owned_schema (Suc n) d heap sz fs =
     (fs \<noteq> [] \<and> list_all (owned_field (owned_schema n d) d heap sz) (placed 0 fs))"

lemma owned_fields:
  assumes "owned_schema n d heap sz fs" and "i < length fs"
  obtains k where "n = Suc k" and "owned_field (owned_schema k d) d heap sz (fst (placed 0 fs ! i), fs ! i)"
proof -
  obtain k where k: "n = Suc k" using assms(1) by (cases n) auto
  have "placed 0 fs ! i = (fst (placed 0 fs ! i), fs ! i)" using nth_placed [OF assms(2)] by (metis prod.collapse)
  then have "owned_field (owned_schema k d) d heap sz (fst (placed 0 fs ! i), fs ! i)"
    using assms k by (simp add: list_all_length)
  with k show thesis by (rule that)
qed

lemma owned_wf:
  assumes "owned_schema n d heap sz fs"
  shows "wf_fields fs" and "no_oneofs fs" and "fs \<noteq> []"
proof -
  have "tag (fs ! i) \<noteq> 0 \<and> PB_HTYPE (ftype (fs ! i)) \<noteq> PB_HTYPE_ONEOF" if "i < length fs" for i
    using owned_fields [OF assms that] by (auto simp: owned_field_def Let_def)
  then show "wf_fields fs" "no_oneofs fs"
    by (auto simp: wf_fields_def no_oneofs_def list_all_length in_set_conv_nth)
  show "fs \<noteq> []" using assms by (cases n) auto
qed

text \<open>An iterator that stands on a member at offset \<open>off\<close> of the structure at \<open>dest\<close>.\<close>

definition stands_on :: "pb_field_iter \<Rightarrow> addr \<Rightarrow> addr \<Rightarrow> bool" where
  "stands_on it dest off \<longleftrightarrow> pData it = dest + off \<and> pSize it = PMem (dest + (off + scast (size_offset (cur it))))"

text \<open>Where the iterator points to, at a position of such a structure.\<close>

lemma iter_in_place:
  assumes "owned_schema n d heap sz fs" and "room R dest sz" and "exact_iter it"
    and "start it = fs" "dest_struct it = dest" "pos it < length fs"
  obtains k off where "n = Suc k" and "owned_field (owned_schema k d) d heap sz (off, cur it)"
    and "stands_on it dest off"
proof -
  let ?off = "fst (placed 0 fs ! pos it)"
  obtain k where "n = Suc k" and "owned_field (owned_schema k d) d heap sz (?off, fs ! pos it)"
    using owned_fields [OF assms(1,6)] by blast
  moreover have "pData it = dest + ?off" "pSize it = ploc_add (dest + ?off) (size_offset (fs ! pos it))"
    using placed_iter [OF owned_wf(1,2) [OF assms(1)] _ assms(6), of dest] assms(2-5)
    by (auto simp: exact_iter_def wf_iter_def Let_def room_def)
  ultimately show thesis
    using assms(4,6) by (intro that [of k ?off]) (simp_all add: stands_on_def ploc_add_def add.assoc)
qed

section \<open>Loops over the members\<close>

lemma for_each_field_all:
  assumes "wf_fields fs" and "i < length fs" and "P m"
    and step: "\<And>i m. i < length fs \<Longrightarrow> P m \<Longrightarrow> \<exists>m'. body (iter_at fs dest i) m = Some m' \<and> P m'"
  shows "\<exists>m'. for_each_field body (iter_at fs dest i) m = Some m' \<and> P m'"
  using assms(2,3)
proof (induction "length fs - i" arbitrary: i m rule: less_induct)
  case less
  obtain m' where m': "body (iter_at fs dest i) m = Some m'" "P m'" using step [OF less.prems] by blast
  let ?it = "iter_at fs dest i"
  have pos: "pos ?it = i" using pos_iter_at [OF assms(1) less.prems(1)] .
  have nxt: "pb_field_iter_next ?it = (Suc i < length fs, iter_at fs dest (Suc i))"
    using next_pos(2) [of ?it] assms(1) less.prems(1) pos by (simp add: prod_eq_iff)
  show ?case
  proof (cases "Suc i < length fs")
    case True
    then have "\<exists>m''. for_each_field body (iter_at fs dest (Suc i)) m' = Some m'' \<and> P m''"
      using m'(2) by (intro less.hyps) auto
    then show ?thesis using m'(1) nxt True by (subst for_each_field.simps) (simp del: iter_at.simps)
  next
    case False
    then show ?thesis using m' nxt by (subst for_each_field.simps) (simp del: iter_at.simps)
  qed
qed

lemma exact_iter_at: "wf_fields fs \<Longrightarrow> i < length fs \<Longrightarrow> exact_iter (iter_at fs dest i)"
proof (induction i)
  case (Suc i)
  then show ?case using exact_iter_next [of "iter_at fs dest i"] pos_iter_at [of fs i dest] by (simp add: exact_iter_def)
qed simp

lemma begin_at:
  "wf_fields fs \<Longrightarrow> fs \<noteq> [] \<Longrightarrow> pb_field_iter_begin fs dest 0 = (True, iter_at fs dest 0)"
  using field_at_tag [of fs 0] by (simp add: prod_eq_iff) (simp add: pb_field_iter_begin_def Let_def)

lemma member_at:
  assumes "owned_schema n d heap sz fs" and "room R dest sz" and "i < length fs"
  shows "\<exists>k off. n = Suc k \<and> owned_field (owned_schema k d) d heap sz (off, cur (iter_at fs dest i)) \<and>
    stands_on (iter_at fs dest i) dest off"
proof -
  note wf = owned_wf(1) [OF assms(1)]
  have "pos (iter_at fs dest i) < length fs" using pos_iter_at [OF wf assms(3)] assms(3) by simp
  from iter_in_place [OF assms(1,2) exact_iter_at [OF wf assms(3)] iter_at_same this] show ?thesis
    by blast
qed

section \<open>The members in memory\<close>

lemma no_counter_iff: "stands_on it dest off \<Longrightarrow> no_counter it \<longleftrightarrow> size_offset (cur it) = 0"
proof -
  have "(scast (x :: pb_ssize_t) :: addr) = 0 \<longleftrightarrow> x = 0" for x
  proof
    assume "(scast x :: addr) = 0"
    then have z: "\<not> bit (scast x :: addr) n" for n by simp
    show "x = 0"
    proof (rule bit_word_eqI)
      fix n assume "n < LENGTH(32)"
      then show "bit x n = bit 0 n" using z [of n] by (cases "n = 31") (auto simp: bit_simps min_def split: if_splits)
    qed
  qed simp
  then show "stands_on it dest off \<Longrightarrow> ?thesis" by (auto simp: stands_on_def no_counter_def)
qed

lemma owned_htype:
  assumes owned: "owned_field sub d heap sz (off, f)"
  shows "PB_HTYPE (ftype f) = PB_HTYPE_REQUIRED \<or> PB_HTYPE (ftype f) = PB_HTYPE_OPTIONAL \<or>
    PB_HTYPE (ftype f) = PB_HTYPE_REPEATED"
  using owned PB_HTYPE_cases [of "ftype f"] by (auto simp: owned_field_def Let_def)

lemma owned_counter:
  assumes owned: "owned_field sub d heap sz (off, f)" and room: "room R dest sz"
  shows "size_offset f \<noteq> 0 \<Longrightarrow> room R (dest + (off + scast (size_offset f))) 1"
    and "size_offset f \<noteq> 0 \<Longrightarrow> PB_HTYPE (ftype f) = PB_HTYPE_REPEATED \<Longrightarrow>
     room R (dest + (off + scast (size_offset f))) 4"
  using owned by (auto simp: owned_field_def Let_def split: if_splits intro!: room_sub [OF room])

lemma owned_atype:
  assumes owned: "owned_field sub d heap sz (off, f)"
  shows "PB_ATYPE (ftype f) = PB_ATYPE_STATIC \<or> PB_ATYPE (ftype f) = PB_ATYPE_POINTER"
  using owned by (auto simp: owned_field_def Let_def)

lemma owned_static:
  assumes owned: "owned_field sub d heap sz (off, f)" and room: "room R dest sz" and "PB_ATYPE (ftype f) = PB_ATYPE_STATIC"
  shows "room R (dest + off) (unat (data_size f))" and "PB_HTYPE (ftype f) \<noteq> PB_HTYPE_REPEATED"
    and "PB_LTYPE (ftype f) = PB_LTYPE_SUBMESSAGE \<Longrightarrow> fptr f \<noteq> 0 \<and> sub heap (unat (data_size f)) (d (fptr f))"
  using assms by (auto simp: owned_field_def Let_def pb_consts intro!: room_sub [OF room])

lemma owned_pointer:
  assumes owned: "owned_field sub d heap sz (off, f)" and room: "room R dest sz" and "PB_ATYPE (ftype f) = PB_ATYPE_POINTER"
  shows "room R (dest + off) 8" and "heap"
    and "PB_LTYPE (ftype f) = PB_LTYPE_SUBMESSAGE \<longleftrightarrow> PB_HTYPE (ftype f) = PB_HTYPE_REPEATED"
    and "PB_HTYPE (ftype f) = PB_HTYPE_REPEATED \<Longrightarrow> fptr f \<noteq> 0 \<and> sub False (unat (data_size f)) (d (fptr f)) \<and>
      size_offset f \<noteq> 0 \<and>
      (unat off + 8 \<le> unat (off + scast (size_offset f)) \<or> unat (off + scast (size_offset f)) + 4 \<le> unat off)"
  using assms by (auto simp: owned_field_def Let_def pb_consts split: if_splits intro!: room_sub [OF room])

lemma owned_ltype:
  assumes owned: "owned_field sub d heap sz (off, f)"
  shows "PB_LTYPE (ftype f) \<noteq> PB_LTYPE_EXTENSION"
  using owned by (auto simp: owned_field_def value_fits_def Let_def pb_consts)

section \<open>Default values\<close>

lemma size_store_in: "pSize it = PMem a \<Longrightarrow> size_store it m v = (it, store32 m a v)"
  by (simp add: size_store_def)

lemma flag_store_in: "pSize it = PMem a \<Longrightarrow> flag_store it m b = (it, store_bool m a b)"
  by (simp add: flag_store_def)

lemma field_to_default_static:
  assumes "PB_LTYPE (ftype (cur it)) \<noteq> PB_LTYPE_EXTENSION" and "PB_ATYPE (ftype (cur it)) = PB_ATYPE_STATIC"
    and "PB_HTYPE (ftype (cur it)) = PB_HTYPE_REQUIRED \<or> PB_HTYPE (ftype (cur it)) = PB_HTYPE_OPTIONAL"
  shows "field_to_default d rec k it m =
    (let m = (if PB_HTYPE (ftype (cur it)) = PB_HTYPE_OPTIONAL \<and> \<not> no_counter it then snd (flag_store it m False) else m) in
     if PB_LTYPE (ftype (cur it)) = PB_LTYPE_SUBMESSAGE then
       if fptr (cur it) = 0 then None else message_to_defaults rec (d (fptr (cur it))) (pData it) m
     else if fptr (cur it) \<noteq> 0 then Some (memcpy m (pData it) (fptr (cur it)) (unat (data_size (cur it))))
     else Some (memset0 m (pData it) (unat (data_size (cur it)))))"
  using assms unfolding field_to_default_def Let_def
  by (cases "PB_HTYPE (ftype (cur it)) = PB_HTYPE_OPTIONAL \<and> \<not> no_counter it") (auto simp: pb_consts)

lemma field_to_default_owned:
  assumes owned: "owned_field sub d heap sz (off, cur it)" and room: "room R dest sz" and it: "stands_on it dest off"
    and sub: "\<And>h n fs p m. sub h n fs \<Longrightarrow> room R p n \<Longrightarrow> \<exists>m'. message_to_defaults rec fs p m = Some m' \<and> unchanged_outside R m m'"
  shows "\<exists>m'. field_to_default d rec k it m = Some m' \<and> unchanged_outside R m m'"
proof (cases "PB_ATYPE (ftype (cur it)) = PB_ATYPE_STATIC")
  case True
  note st = owned_static [OF owned room True]
  define m1 where "m1 = (if PB_HTYPE (ftype (cur it)) = PB_HTYPE_OPTIONAL \<and> \<not> no_counter it
    then snd (flag_store it m False) else m)"
  have m1: "unchanged_outside R m m1"
    using owned_counter(1) [OF owned room] no_counter_iff [OF it] it
    by (auto simp: m1_def flag_store_in stands_on_def unchanged_stores)
  have "\<exists>m'. (if PB_LTYPE (ftype (cur it)) = PB_LTYPE_SUBMESSAGE then
      if fptr (cur it) = 0 then None else message_to_defaults rec (d (fptr (cur it))) (pData it) m1
      else if fptr (cur it) \<noteq> 0 then Some (memcpy m1 (pData it) (fptr (cur it)) (unat (data_size (cur it))))
      else Some (memset0 m1 (pData it) (unat (data_size (cur it))))) = Some m' \<and> unchanged_outside R m1 m'"
    using st sub it by (auto simp: stands_on_def unchanged_stores)
  moreover have "PB_HTYPE (ftype (cur it)) = PB_HTYPE_REQUIRED \<or> PB_HTYPE (ftype (cur it)) = PB_HTYPE_OPTIONAL"
    using st(2) owned_htype [OF owned] by blast
  ultimately obtain m' where "field_to_default d rec k it m = Some m'" "unchanged_outside R m1 m'"
    using field_to_default_static [OF owned_ltype [OF owned] True, of d rec k m] unfolding Let_def m1_def [symmetric] by auto
  with m1 show ?thesis by (auto intro: unchanged_trans)
next
  case False
  then have ptr: "PB_ATYPE (ftype (cur it)) = PB_ATYPE_POINTER" using owned_atype [OF owned] by simp
  note st = owned_pointer [OF owned room ptr]
  have "unchanged_outside R m (store_ptr m (pData it) 0)"
    using st(1) it by (simp add: stands_on_def unchanged_stores)
  moreover have "unchanged_outside R m1 (snd (size_store it m1 0))" if "PB_HTYPE (ftype (cur it)) = PB_HTYPE_REPEATED" for m1
    using owned_counter(2) [OF owned room _ that] st(4) [OF that] it
    by (simp add: stands_on_def size_store_in unchanged_stores)
  ultimately show ?thesis
    using False ptr owned_htype [OF owned] owned_ltype [OF owned]
    by (auto simp: field_to_default_def Let_def pb_consts intro: unchanged_trans)
qed

lemma defaults_owned:
  "owned_schema n d heap sz fs \<Longrightarrow> room R dest sz \<Longrightarrow>
    \<exists>m'. pb_message_set_to_defaults n d fs dest m = Some m' \<and> unchanged_outside R m m'"
proof (induction n arbitrary: heap sz fs dest m)
  case (Suc n)
  note wf = owned_wf [OF Suc.prems(1)]
  have "\<exists>m''. field_to_default d (pb_field_set_to_default n d) n (iter_at fs dest i) m' = Some m'' \<and> unchanged_outside R m m''"
    if i: "i < length fs" and u: "unchanged_outside R m m'" for i m'
  proof -
    obtain k off where k: "Suc n = Suc k" and f: "owned_field (owned_schema k d) d heap sz (off, cur (iter_at fs dest i))"
      and "stands_on (iter_at fs dest i) dest off"
      using member_at [OF Suc.prems i] by blast
    then have "\<exists>m''. field_to_default d (pb_field_set_to_default n d) n (iter_at fs dest i) m' = Some m'' \<and>
        unchanged_outside R m' m''"
      using Suc.IH [unfolded pb_message_set_to_defaults_def] by (intro field_to_default_owned [OF f Suc.prems(2)]) auto
    with u show ?thesis by (auto intro: unchanged_trans)
  qed
  then have "\<exists>m'. for_each_field (field_to_default d (pb_field_set_to_default n d) n) (iter_at fs dest 0) m = Some m' \<and>
      unchanged_outside R m m'"
    using wf by (intro for_each_field_all) auto
  then show ?case
    using begin_at [OF wf(1,3)] by (simp add: pb_message_set_to_defaults_def message_to_defaults_def del: iter_at.simps)
qed simp

section \<open>Release\<close>

lemma release_items_idle: "(\<And>p. release p m = Some m) \<Longrightarrow> release_items release w k p m = Some m"
  by (induction k arbitrary: p) simp_all

lemma item_count_one: "PB_HTYPE (ftype (cur it)) \<noteq> PB_HTYPE_REPEATED \<Longrightarrow> unat (item_count it m) = 1"
  by (simp add: item_count_def Let_def)

lemma release_field_static:
  assumes owned: "owned_field sub d heap sz (off, cur it)" and static: "PB_ATYPE (ftype (cur it)) = PB_ATYPE_STATIC"
  shows "release_field d rec k it m =
    (if PB_LTYPE (ftype (cur it)) = PB_LTYPE_SUBMESSAGE then release_message rec (d (fptr (cur it))) (pData it) m
     else Some m)"
proof -
  have "PB_HTYPE (ftype (cur it)) \<noteq> PB_HTYPE_ONEOF" "PB_HTYPE (ftype (cur it)) \<noteq> PB_HTYPE_REPEATED"
    "PB_LTYPE (ftype (cur it)) = PB_LTYPE_SUBMESSAGE \<Longrightarrow> fptr (cur it) \<noteq> 0"
    using assms by (auto simp: owned_field_def Let_def pb_consts)
  moreover have "release_message rec fs 0 m = Some m" for fs by (simp add: release_message_def)
  ultimately show ?thesis
    using static owned_ltype [OF owned] item_count_one [of it m]
    by (cases "pData it = 0") (auto simp: release_field_def release_contents_def Let_def pb_consts split: option.split)
qed

lemma release_static_schema:
  "owned_schema n d False sz fs \<Longrightarrow> pb_release n d fs p m = Some m"
proof (induction n arbitrary: sz fs p m)
  case (Suc n)
  note wf = owned_wf [OF Suc.prems]
  have "\<exists>m''. release_field d (pb_release_single_field n d) n (iter_at fs p i) m' = Some m'' \<and> m'' = m"
    if i: "i < length fs" and u: "m' = m" for i m'
  proof -
    obtain k where k: "Suc n = Suc k" and f: "owned_field (owned_schema k d) d False sz (fst (placed 0 fs ! i), fs ! i)"
      using owned_fields [OF Suc.prems i] by blast
    have cur: "cur (iter_at fs p i) = fs ! i" using pos_iter_at [OF wf(1) i] i by simp
    have static: "PB_ATYPE (ftype (fs ! i)) = PB_ATYPE_STATIC"
      and sub: "PB_LTYPE (ftype (fs ! i)) = PB_LTYPE_SUBMESSAGE \<Longrightarrow>
        owned_schema n d False (unat (data_size (fs ! i))) (d (fptr (fs ! i)))"
      using f k by (auto simp: owned_field_def Let_def)
    show ?thesis
      using release_field_static [of _ d False sz _ "iter_at fs p i", unfolded cur, OF f static] Suc.IH [OF sub] u
      by (simp add: pb_release_def)
  qed
  then have "p \<noteq> 0 \<Longrightarrow> \<exists>m'. for_each_field (release_field d (pb_release_single_field n d) n) (iter_at fs p 0) m = Some m' \<and> m' = m"
    using wf by (intro for_each_field_all) auto
  then show ?case
    using begin_at [OF wf(1,3)] by (auto simp: pb_release_def release_message_def simp del: iter_at.simps)
qed simp

lemma release_pointer_owned:
  assumes owned: "owned_field sub d heap sz (off, cur it)" and room: "room R dest sz" and it: "stands_on it dest off"
    and ptr: "PB_ATYPE (ftype (cur it)) = PB_ATYPE_POINTER"
  shows "unchanged_outside R m (release_pointer it m)"
proof -
  note st = owned_pointer [OF owned room ptr]
  define m1 where "m1 = (if PB_HTYPE (ftype (cur it)) = PB_HTYPE_REPEATED then snd (size_store it m 0) else m)"
  have lt: "\<not> (PB_HTYPE (ftype (cur it)) = PB_HTYPE_REPEATED \<and>
      (PB_LTYPE (ftype (cur it)) = PB_LTYPE_STRING \<or> PB_LTYPE (ftype (cur it)) = PB_LTYPE_BYTES))"
    using st(3) by (auto simp: pb_consts)
  have "unchanged_outside R m m1"
    using owned_counter(2) [OF owned room] st(4) it
    by (auto simp: m1_def stands_on_def size_store_in unchanged_stores)
  also have "unchanged_outside R m1 (pb_free m1 (load_ptr m1 (pData it)))"
    by (simp add: pb_free_def)
  also have "unchanged_outside R \<dots> (release_pointer it m)"
    using st(1) it by (simp only: release_pointer_def Let_def lt if_False m1_def [symmetric] stands_on_def)
      (simp add: unchanged_stores)
  finally show ?thesis .
qed

lemma release_field_owned:
  assumes owned: "owned_field sub d heap sz (off, cur it)" and room: "room R dest sz" and it: "stands_on it dest off"
    and sub: "\<And>h n fs p m. sub h n fs \<Longrightarrow> room R p n \<Longrightarrow> \<exists>m'. release_message rec fs p m = Some m' \<and> unchanged_outside R m m'"
    and flat: "\<And>n fs p m. sub False n fs \<Longrightarrow> release_message rec fs p m = Some m"
  shows "\<exists>m'. release_field d rec k it m = Some m' \<and> unchanged_outside R m m'"
proof (cases "PB_ATYPE (ftype (cur it)) = PB_ATYPE_STATIC")
  case True
  then show ?thesis
    using owned_static [OF owned room True] sub it by (auto simp: release_field_static [OF owned True] stands_on_def)
next
  case False
  then have ptr: "PB_ATYPE (ftype (cur it)) = PB_ATYPE_POINTER" using owned_atype [OF owned] by simp
  note st = owned_pointer [OF owned room ptr]
  have "release_contents d rec k it m = Some m"
    using owned_ltype [OF owned] st(3,4) ptr flat
    by (auto simp: release_contents_def Let_def intro!: release_items_idle)
  moreover have "PB_HTYPE (ftype (cur it)) \<noteq> PB_HTYPE_ONEOF" using owned by (simp add: owned_field_def Let_def)
  ultimately show ?thesis
    using ptr release_pointer_owned [OF owned room it ptr] by (simp add: release_field_def Let_def)
qed

lemma release_owned:
  "owned_schema n d heap sz fs \<Longrightarrow> room R dest sz \<Longrightarrow>
    \<exists>m'. pb_release n d fs dest m = Some m' \<and> unchanged_outside R m m'"
proof (induction n arbitrary: heap sz fs dest m)
  case (Suc n)
  note wf = owned_wf [OF Suc.prems(1)]
  have "\<exists>m''. release_field d (pb_release_single_field n d) n (iter_at fs dest i) m' = Some m'' \<and> unchanged_outside R m m''"
    if i: "i < length fs" and u: "unchanged_outside R m m'" for i m'
  proof -
    obtain k off where k: "Suc n = Suc k" and f: "owned_field (owned_schema k d) d heap sz (off, cur (iter_at fs dest i))"
      and "stands_on (iter_at fs dest i) dest off"
      using member_at [OF Suc.prems i] by blast
    then have "\<exists>m''. release_field d (pb_release_single_field n d) n (iter_at fs dest i) m' = Some m'' \<and>
        unchanged_outside R m' m''"
      using Suc.IH [unfolded pb_release_def] release_static_schema [of n d, unfolded pb_release_def]
      by (intro release_field_owned [OF f Suc.prems(2)]) auto
    with u show ?thesis by (auto intro: unchanged_trans)
  qed
  then have "\<exists>m'. for_each_field (release_field d (pb_release_single_field n d) n) (iter_at fs dest 0) m = Some m' \<and>
      unchanged_outside R m m'"
    using wf by (intro for_each_field_all) auto
  then show ?case
    using begin_at [OF wf(1,3)] by (auto simp: pb_release_def release_message_def simp del: iter_at.simps)
qed simp

end
