(* ===== verification/Pb_Stream_Rel.thy ===== *)
theory Pb_Stream_Rel
  imports Pb_IStream
begin

text \<open>
  Relations between the state of a stream before and after a read.  A relation that holds for single reads
  (\<open>stream_relation\<close>) holds for every operation of \<open>Pb_IStream\<close>.  It is used for two of them: an error message
  is kept, and the input that is left never grows.
\<close>

definition moves :: "('s pb_istream \<Rightarrow> 's pb_istream \<Rightarrow> bool) \<Rightarrow>
    ('s pb_istream \<Rightarrow> 'r \<times> 's pb_istream) \<Rightarrow> 's pb_istream \<Rightarrow> bool" where
  "moves rel f s \<longleftrightarrow> rel s (snd (f s))"

lemma moves_option:
  "(a = None \<Longrightarrow> moves rel f s) \<Longrightarrow> (\<And>y. a = Some y \<Longrightarrow> moves rel (g y) s) \<Longrightarrow>
     moves rel (\<lambda>s. case a of None \<Rightarrow> f s | Some y \<Rightarrow> g y s) s"
  by (cases a) simp_all

lemma moves_if:
  "(P s \<Longrightarrow> moves rel f s) \<Longrightarrow> (\<not> P s \<Longrightarrow> moves rel h s) \<Longrightarrow> moves rel (\<lambda>s. if P s then f s else h s) s"
  by (simp add: moves_def)

lemma moves_prod:
  "(\<And>y z. b = (y, z) \<Longrightarrow> moves rel (k y z) s) \<Longrightarrow> moves rel (\<lambda>s. case b of (y, z) \<Rightarrow> k y z s) s"
  by (cases b) simp

lemma moves_cong: "(\<And>s. f s = g s) \<Longrightarrow> moves rel g s \<Longrightarrow> moves rel f s"
  by (simp add: moves_def)

locale stream_relation =
  fixes rel :: "'s pb_istream \<Rightarrow> 's pb_istream \<Rightarrow> bool"
  assumes same: "rel s s"
    and trans: "rel a b \<Longrightarrow> rel b c \<Longrightarrow> rel a c"
    and error: "rel s (ierror msg s)"
    and called: "rel s (snd (icallback s k))"
    and taken: "n \<le> bytes_left s \<Longrightarrow> rel s (s\<lparr>bytes_left := bytes_left s - n\<rparr>)"
begin

lemma bind:
  assumes "moves rel f s" and "\<And>a s'. f s = (a, s') \<Longrightarrow> moves rel (g a) s'"
  shows "moves rel (\<lambda>s. case f s of (a, s') \<Rightarrow> g a s') s"
  using assms trans by (cases "f s") (auto simp: moves_def)

lemma basic: "moves rel (\<lambda>s. (q s, s)) s" "moves rel (\<lambda>s. (r, ierror msg s)) s"
  by (simp_all add: moves_def same error)

lemma take: "\<not> bytes_left s < n \<Longrightarrow> moves rel (\<lambda>s. (q s, s\<lparr>bytes_left := bytes_left s - n\<rparr>)) s"
  by (simp add: moves_def taken)

lemma checked: "moves rel (\<lambda>s. pb_read_checked s n) s"
proof (cases "bytes_left s < n")
  case False
  obtain r s' where call: "icallback s (unat n) = (r, s')" by (cases "icallback s (unat n)")
  then have "rel s s'" using called [of s "unat n"] by simp
  show ?thesis
  proof (cases r)
    case None
    then show ?thesis using call False trans [OF \<open>rel s s'\<close> error] by (simp add: moves_def pb_read_checked_def)
  next
    case (Some bs)
    then have "bytes_left s' = bytes_left s" using call icallback_bytes_left by blast
    then have "rel s (s'\<lparr>bytes_left := bytes_left s' - n\<rparr>)" using False trans [OF \<open>rel s s'\<close> taken] by simp
    then show ?thesis using call False Some by (simp add: moves_def pb_read_checked_def)
  qed
qed (simp add: moves_def pb_read_checked_def error)

lemma readbyte: "moves rel pb_readbyte s"
proof (cases "bytes_left s = 0")
  case False
  obtain r s' where call: "icallback s 1 = (r, s')" by (cases "icallback s 1")
  then have "rel s s'" using called [of s 1] by simp
  have "1 \<le> bytes_left s" using False by (simp add: word_le_nat_alt unat_gt_0 Suc_leI)
  show ?thesis
  proof (cases r)
    case None
    then show ?thesis using call False trans [OF \<open>rel s s'\<close> error] by (simp add: moves_def pb_readbyte_def)
  next
    case (Some bs)
    then have "bytes_left s' = bytes_left s" using call icallback_bytes_left by blast
    then have "rel s (s'\<lparr>bytes_left := bytes_left s' - 1\<rparr>)"
      using \<open>1 \<le> bytes_left s\<close> trans [OF \<open>rel s s'\<close> taken] by simp
    then show ?thesis using call False Some by (simp add: moves_def pb_readbyte_def)
  qed
qed (simp add: moves_def pb_readbyte_def error)

lemmas step = bind basic moves_option moves_if moves_prod readbyte checked

lemma read_skip: "moves rel (\<lambda>s. pb_read_skip s n) s"
proof (induction s n rule: pb_read_skip.induct)
  case (1 s n)
  show ?case
    by (rule moves_cong [OF pb_read_skip.simps]) (auto intro!: step 1)
qed

lemma read: "moves rel (\<lambda>s. pb_read s null n) s"
  using read_skip [of n s] checked [of n s] by (auto simp: moves_def pb_read_def same)

lemma varint32_loop: "moves rel (\<lambda>s. varint32_loop s bitpos r) s"
proof (induction s bitpos r rule: varint32_loop.induct)
  case (1 s bitpos r)
  show ?case
    by (rule moves_cong [OF varint32_loop.simps [unfolded Let_def]])
      (auto intro!: step 1 [OF _ _ refl _ refl refl])
qed

lemma varint64_loop: "moves rel (\<lambda>s. varint64_loop s bitpos r) s"
proof (induction s bitpos r rule: varint64_loop.induct)
  case (1 s bitpos r)
  show ?case
    by (rule moves_cong [OF varint64_loop.simps [unfolded Let_def]]) (auto intro!: step 1)
qed

lemma skip_varint: "moves rel pb_skip_varint s"
proof (induction s rule: pb_skip_varint.induct)
  case (1 s)
  show ?case
    by (rule moves_cong [OF pb_skip_varint.simps]) (auto intro!: step read 1)
qed

lemma varint32_eof: "moves rel pb_decode_varint32_eof s"
  unfolding pb_decode_varint32_eof_def
  by (rule bind [OF readbyte], rule moves_option; auto intro!: step varint32_loop)

lemma varint: "moves rel pb_decode_varint s"
  by (simp add: pb_decode_varint_def [abs_def] varint64_loop)

lemma varint32: "moves rel pb_decode_varint32 s"
  by (auto simp: pb_decode_varint32_def [abs_def] intro!: step varint32_eof)

lemma svarint: "moves rel pb_decode_svarint s"
  by (auto simp: pb_decode_svarint_def [abs_def] intro!: step varint)

lemma fixed32: "moves rel pb_decode_fixed32 s"
  by (auto simp: pb_decode_fixed32_def [abs_def] intro!: step read)

lemma fixed64: "moves rel pb_decode_fixed64 s"
  by (auto simp: pb_decode_fixed64_def [abs_def] intro!: step read)

lemma decode_tag: "moves rel pb_decode_tag s"
  by (auto simp: pb_decode_tag_def [abs_def] intro!: step varint32_eof)

lemma bool: "moves rel pb_decode_bool s"
  by (auto simp: pb_decode_bool_def [abs_def] intro!: step varint32)

lemma raw_varint: "moves rel (\<lambda>s. read_raw_varint s room) s"
proof (induction s room rule: read_raw_varint.induct)
  case (2 s room)
  show ?case
    by (rule moves_cong [OF read_raw_varint.simps(2)]) (auto intro!: step read 2)
qed (simp add: moves_def same)

lemma raw_value: "moves rel (\<lambda>s. read_raw_value s wt n) s"
  by (auto simp: read_raw_value_def intro!: step read raw_varint)

lemma skip_string: "moves rel pb_skip_string s"
  by (auto simp: pb_skip_string_def [abs_def] intro!: step read varint32)

lemma skip_field: "moves rel (\<lambda>s. pb_skip_field s wt) s"
  by (auto simp: pb_skip_field_def intro!: step read skip_varint skip_string)

lemma open_substream: "moves rel pb_make_string_substream s"
  by (auto simp: pb_make_string_substream_def [abs_def] intro!: step varint32 take)

end

interpretation err: stream_relation "\<lambda>s s'. \<forall>e. ierrmsg s = Some e \<longrightarrow> ierrmsg s' = Some e"
  by unfold_locales (auto simp: icallback_def buf_read_def split: pb_isource.splits read_result.splits)

interpretation len: stream_relation "\<lambda>s s'. bytes_left s' \<le> bytes_left s"
  by unfold_locales
    (auto simp: icallback_def buf_read_def word_le_nat_alt unat_sub split: pb_isource.splits read_result.splits)

lemmas left_readers [unfolded moves_def] =
  len.read len.varint len.varint32 len.svarint len.fixed32 len.fixed64 len.decode_tag len.skip_field
  len.open_substream

end
