(* ===== verification/Pb_Decode_Safe.thy ===== *)
theory Pb_Decode_Safe
  imports Pb_Decode Pb_Layout Pb_Stream_Rel
begin

text \<open>
  Safety of the decoder on arbitrary input.  For the schemas of \<open>owned_schema\<close>, every call of \<open>pb_decode\<close>
  returns, and writes only to the structure and to blocks that the allocator has handed out.
\<close>

section \<open>Results\<close>

text \<open>The call returns, has not added to the input that was left, and has only written where it may.\<close>

definition confined :: "(addr \<Rightarrow> bool) \<Rightarrow> size_t \<Rightarrow> mem \<Rightarrow> 's dec_result \<Rightarrow> bool" where
  "confined R n m r \<longleftrightarrow>
     (\<exists>ok s' m'. r = Some (ok, s', m') \<and> bytes_left s' \<le> n \<and> unchanged_outside R m m')"

lemma confinedI: "bytes_left s' \<le> n \<Longrightarrow> unchanged_outside R m m' \<Longrightarrow> confined R n m (Some (ok, s', m'))"
  by (simp add: confined_def)

lemma confined_trans:
  "confined R k m' r \<Longrightarrow> k \<le> n \<Longrightarrow> unchanged_outside R m m' \<Longrightarrow> confined R n m r"
  unfolding confined_def by (auto intro: order_trans unchanged_trans)

text \<open>The same for a result that is no option.\<close>

definition stays :: "(addr \<Rightarrow> bool) \<Rightarrow> size_t \<Rightarrow> mem \<Rightarrow> bool \<times> 's pb_istream \<times> mem \<Rightarrow> bool" where
  "stays R n m r \<longleftrightarrow> bytes_left (fst (snd r)) \<le> n \<and> unchanged_outside R m (snd (snd r))"

lemma confined_Some [simp]: "confined R n m (Some r) = stays R n m r"
  by (cases r) (simp add: confined_def stays_def)

lemma stays_done [simp]: "stays R n m (ok, s', m) \<longleftrightarrow> bytes_left s' \<le> n"
  by (simp add: stays_def)

lemma staysI: "bytes_left s' \<le> n \<Longrightarrow> unchanged_outside R m m' \<Longrightarrow> stays R n m (ok, s', m')"
  by (simp add: stays_def)

lemma stays_trans: "stays R k m' r \<Longrightarrow> k \<le> n \<Longrightarrow> unchanged_outside R m m' \<Longrightarrow> stays R n m r"
  by (auto simp: stays_def intro: order_trans unchanged_trans)

lemma stays_if: "(b \<Longrightarrow> stays R n m r) \<Longrightarrow> (\<not> b \<Longrightarrow> stays R n m q) \<Longrightarrow> stays R n m (if b then r else q)"
  by simp

text \<open>A decoder that reads a value with \<open>f\<close> and goes on with it.\<close>

lemma stays_value:
  assumes "bytes_left (snd x) \<le> n" and "\<And>v s'. stays R (bytes_left s') m (g v s')"
  shows "stays R n m (case x of (None, s') \<Rightarrow> (False, s', m) | (Some v, s') \<Rightarrow> g v s')"
proof (cases x)
  case (Pair r s')
  then show ?thesis using assms(1) assms(2) [of s' "the r"] by (cases r) (auto intro: stays_trans)
qed

section \<open>Allocation\<close>

text \<open>
  What the C library promises of \<open>realloc\<close>: a block of the size that was asked for, in writable memory, and apart
  from the structures of the caller (\<open>T\<close>).
\<close>

definition allocates :: "(addr \<Rightarrow> bool) \<Rightarrow> (addr \<Rightarrow> bool) \<Rightarrow> allocator \<Rightarrow> bool" where
  "allocates R T pck \<longleftrightarrow>
     (\<forall>m p n. pck m p n \<noteq> 0 \<longrightarrow>
        room R (pck m p n) (unat n) \<and> (\<forall>x. in_range (pck m p n) (unat n) x \<longrightarrow> \<not> T x))"

lemma no_overflow:
  assumes "\<not> ((push_bit 32 1 \<le> d \<or> push_bit 32 1 \<le> a) \<and> (- 1) div a < (d :: size_t))" and "a \<noteq> 0"
  shows "unat d * unat a < 2 ^ 64"
proof (cases "d < push_bit 32 1 \<and> a < push_bit 32 1")
  case True
  have "unat (push_bit 32 1 :: size_t) = 2 ^ 32" by simp
  then have "unat d < 2 ^ 32 \<and> unat a < 2 ^ 32" using True by (simp only: word_less_nat_alt)
  then have "unat d * unat a < 2 ^ 32 * 2 ^ 32" by (intro mult_strict_mono) auto
  then show ?thesis by simp
next
  case False
  then have "d \<le> (- 1) div a" using assms(1) by (auto simp: not_less)
  moreover have "unat (- 1 :: size_t) = 2 ^ 64 - 1" by (simp add: unsigned_minus_1_eq_mask mask_eq_exp_minus_1)
  ultimately have "unat d \<le> (2 ^ 64 - 1) div unat a"
    by (simp only: word_le_nat_alt unat_div)
  then have "unat d * unat a \<le> 2 ^ 64 - 1"
    by (meson div_times_less_eq_dividend le_trans mult_le_mono1)
  then show ?thesis by simp
qed

lemma allocate_field_confined:
  assumes "allocates R T (pick env)" and "room R data 8" and "allocate_field env s data d a m = (ok, s', m')"
  shows "bytes_left s' = bytes_left s" and "unchanged_outside R m m'"
    and "ok \<Longrightarrow> room R (load_ptr m' data) (unat d * unat a)"
    and "T x \<Longrightarrow> \<not> in_range data 8 x \<Longrightarrow> mbytes m' x = mbytes m x"
proof -
  obtain p where p: "pick env m (load_ptr m data) (a * d) = p" by blast
  have "bytes_left s' = bytes_left s \<and> unchanged_outside R m m' \<and> (ok \<longrightarrow> room R (load_ptr m' data) (unat d * unat a)) \<and>
      (T x \<longrightarrow> \<not> in_range data 8 x \<longrightarrow> mbytes m' x = mbytes m x)"
  proof (cases "d = 0 \<or> a = 0 \<or> (push_bit 32 1 \<le> d \<or> push_bit 32 1 \<le> a) \<and> (- 1) div a < d \<or> p = 0")
    case True
    then show ?thesis using assms(3) p
      by (auto simp: allocate_field_def Let_def pb_realloc_def split: if_splits)
  next
    case False
    then have "unat d * unat a < 2 ^ 64" by (intro no_overflow) auto
    then have sz: "unat (a * d) = unat d * unat a" by (simp add: unat_word_ariths mult.commute)
    have block: "room R p (unat (a * d))" and apart: "in_range p (unat (a * d)) x \<Longrightarrow> \<not> T x"
      using assms(1) [unfolded allocates_def, rule_format, of m "load_ptr m data" "a * d"] False p by auto
    define m1 where "m1 = m\<lparr>mblocks := (p, a * d) #
      (if load_ptr m data = 0 then mblocks m else drop_block (load_ptr m data) (mblocks m))\<rparr>"
    define old where "old = load_bytes m (load_ptr m data) (min (unat (block_size m (load_ptr m data))) (unat (a * d)))"
    have res: "ok" "s' = s" "m' = store_ptr (store_bytes m1 p old) data p"
      using assms(3) False p by (auto simp: allocate_field_def Let_def pb_realloc_def m1_def old_def)
    have "unchanged_outside R m (store_bytes m1 p old)"
      using unchanged_store [OF block, of old m1] by (simp add: m1_def old_def)
    also have "unchanged_outside R (store_bytes m1 p old) m'"
      unfolding res by (rule unchanged_stores(3) [OF assms(2)]) simp
    finally have un: "unchanged_outside R m m'" .
    have "mbytes m' x = mbytes m x" if "T x" "\<not> in_range data 8 x"
    proof -
      have "\<not> in_range p (length old) x" using apart that(1) in_range_mono [of p "length old" x "unat (a * d)"]
        by (auto simp: old_def)
      then show ?thesis using that(2) unfolding res store_ptr_def store_int_def
        by (simp add: mbytes_store_bytes m1_def)
    qed
    with un show ?thesis using res block sz by simp
  qed
  then show "bytes_left s' = bytes_left s" "unchanged_outside R m m'" "ok \<Longrightarrow> room R (load_ptr m' data) (unat d * unat a)"
    "T x \<Longrightarrow> \<not> in_range data 8 x \<Longrightarrow> mbytes m' x = mbytes m x"
    by blast+
qed

lemma stays_allocate:
  assumes "allocates R T (pick env)" and "room R data 8"
    and "\<And>s2 m2. room R (load_ptr m2 data) (unat d * unat a) \<Longrightarrow> stays R (bytes_left s2) m2 (g s2 m2)"
  shows "stays R (bytes_left s) m (case allocate_field env s data d a m of (False, s, m) \<Rightarrow> (False, s, m) | (True, s, m) \<Rightarrow> g s m)"
proof -
  obtain ok s2 m2 where r: "allocate_field env s data d a m = (ok, s2, m2)"
    by (cases "allocate_field env s data d a m") auto
  note al = allocate_field_confined [OF assms(1,2) r]
  show ?thesis
  proof (cases ok)
    case True
    then show ?thesis using r stays_trans [OF assms(3) [OF al(3)] _ al(2)] al(1) by simp
  next
    case False
    then show ?thesis using r al(1,2) by (simp add: staysI)
  qed
qed

section \<open>Values\<close>

lemma pb_read_length: "pb_read s False n = (Some bs, s') \<Longrightarrow> length bs = unat n"
  using pb_read_checked_length [of s n bs s'] by (auto simp: pb_read_def split: if_splits)

lemma read_into_stays:
  assumes "room R dest (unat n)"
  shows "stays R (bytes_left s) m (read_into s dest n m)"
proof (cases "pb_read s False n")
  case (Pair r s')
  then have "bytes_left s' \<le> bytes_left s" using left_readers(1) [of s False n] by simp
  then show ?thesis
    using Pair pb_read_length [of s n _ s'] unchanged_store [OF assms]
    by (cases r) (auto simp: read_into_def intro!: staysI)
qed

lemma store_width_room:
  "room R dest (unat w) \<Longrightarrow> store_width m dest w v = Some m' \<Longrightarrow> unchanged_outside R m m'"
  by (auto simp: store_width_def unchanged_stores split: if_splits)

lemma ints_stay:
  assumes "room R dest (unat (data_size f))"
  shows "stays R (bytes_left s) m (pb_dec_varint s f dest m)"
    and "stays R (bytes_left s) m (pb_dec_uvarint s f dest m)"
    and "stays R (bytes_left s) m (pb_dec_svarint s f dest m)"
  unfolding pb_dec_varint_def pb_dec_uvarint_def pb_dec_svarint_def
  by (rule stays_value, rule left_readers,
      auto simp: Let_def intro!: staysI store_width_room [OF assms] split: option.split)+

lemma scalars_stay:
  "room R dest 1 \<Longrightarrow> stays R (bytes_left s) m (pb_dec_bool s f dest m)"
  "room R dest 4 \<Longrightarrow> stays R (bytes_left s) m (pb_dec_fixed32 s f dest m)"
  "room R dest 8 \<Longrightarrow> stays R (bytes_left s) m (pb_dec_fixed64 s f dest m)"
  unfolding pb_dec_bool_def pb_dec_fixed32_def pb_dec_fixed64_def
  by (rule stays_value, rule left_readers, auto simp: unchanged_stores intro!: staysI)+

lemma fixed_length_stays:
  assumes "room R dest (unat (data_size f))"
  shows "stays R (bytes_left s) m (pb_dec_fixed_length_bytes s f dest m)"
proof -
  have "stays R (bytes_left s') m (read_into s' dest (ucast (data_size f)) m)" for s' :: "'s pb_istream"
    using assms by (intro read_into_stays) simp
  note read = this
  show ?thesis
    unfolding pb_dec_fixed_length_bytes_def
    by (rule stays_value, rule left_readers, auto simp: unchanged_stores(5) [OF assms] read intro!: staysI)
qed

lemma read_bytes_stays:
  assumes "room R dest k" and "unat sz + 4 \<le> k"
  shows "stays R (bytes_left s) m (read_into s (dest + offsetof_bytes) (ucast sz) (store32 m dest sz))"
proof -
  have "room R (dest + offsetof_bytes) (unat (ucast sz :: size_t))"
    using assms by (intro room_sub) (auto simp: offsetof_bytes_def)
  from read_into_stays [OF this] show ?thesis
    by (rule stays_trans) (use unchanged_stores(2) [OF assms(1)] assms(2) in auto)
qed

lemma read_string_stays:
  assumes "room R dest k" and "unat sz + 1 \<le> k"
  shows "stays R (bytes_left s) m (terminate_string dest sz (read_into s dest (ucast sz) m))"
proof -
  have "room R dest (unat (ucast sz :: size_t))" using assms by (intro room_mono [OF assms(1)]) auto
  from read_into_stays [OF this, of s m] obtain ok s' m'
    where r: "read_into s dest (ucast sz) m = (ok, s', m')" "bytes_left s' \<le> bytes_left s" "unchanged_outside R m m'"
    by (cases "read_into s dest (ucast sz) m") (auto simp: stays_def)
  have "room R (dest + ucast sz) 1" using assms by (intro room_sub [OF assms(1)]) auto
  then have "unchanged_outside R m' (store_bytes m' (dest + ucast sz) [0])" by (rule unchanged_store) simp
  from unchanged_trans [OF r(3) this] show ?thesis using r by (simp add: terminate_string_def stays_def)
qed

lemma succ_no_wrap: "\<not> (ucast (sz + 1 :: u32) :: size_t) < ucast sz \<Longrightarrow> unat (sz + 1) = unat sz + 1"
proof (cases "1 + sz = 0")
  case True
  assume "\<not> (ucast (sz + 1) :: size_t) < ucast sz"
  moreover have "sz + 1 = 0" using True by (simp add: add.commute)
  ultimately have "\<not> 0 < unat sz" by (simp add: word_less_nat_alt)
  then have "sz = 0" by (simp add: unat_eq_zero)
  then show ?thesis using True by simp
next
  case False
  then show ?thesis using unatSuc [of sz] by (simp add: add.commute)
qed

lemma bytes_room: "unat (ucast (sz :: u32) + offsetof_bytes :: size_t) = unat sz + 4"
  using unsigned_less [of sz, where 'a = nat] by (simp add: offsetof_bytes_def unat_word_ariths)

text \<open>What a decoder of bytes or strings may write to.\<close>

definition target :: "(addr \<Rightarrow> bool) \<Rightarrow> pb_field \<Rightarrow> addr \<Rightarrow> bool" where
  "target R f dest \<longleftrightarrow> room R dest (if PB_ATYPE (ftype f) = PB_ATYPE_POINTER then 8 else unat (data_size f))"

lemma bytes_stay:
  fixes s :: "'s pb_istream"
  assumes heap: "allocates R T (pick env)" and dest: "target R f dest"
  shows "stays R (bytes_left s) m (pb_dec_bytes env s f dest m)"
  unfolding pb_dec_bytes_def Let_def
proof (rule stays_value, rule left_readers, intro stays_if)
  fix sz :: u32 and s' :: "'s pb_istream"
  assume "PB_ATYPE (ftype f) = PB_ATYPE_POINTER"
  then have "room R dest 8" using dest by (simp add: target_def)
  then show "stays R (bytes_left s') m
      (case allocate_field env s' dest (ucast sz + offsetof_bytes) 1 m of
         (False, s, m) \<Rightarrow> (False, s, m)
       | (True, s, m) \<Rightarrow> read_into s (load_ptr m dest + offsetof_bytes) (ucast sz) (store32 m (load_ptr m dest) sz))"
    by (rule stays_allocate [OF heap]) (rule read_bytes_stays, assumption, simp add: bytes_room)
next
  fix sz :: u32 and s' :: "'s pb_istream"
  assume "PB_ATYPE (ftype f) \<noteq> PB_ATYPE_POINTER" "\<not> ucast (data_size f) < ucast sz + offsetof_bytes"
  then show "stays R (bytes_left s') m (read_into s' (dest + offsetof_bytes) (ucast sz) (store32 m dest sz))"
    using dest by (intro read_bytes_stays) (auto simp: target_def word_less_nat_alt bytes_room)
qed simp_all

lemma string_stays:
  fixes s :: "'s pb_istream"
  assumes heap: "allocates R T (pick env)" and dest: "target R f dest"
  shows "stays R (bytes_left s) m (pb_dec_string env s f dest m)"
  unfolding pb_dec_string_def Let_def
proof (rule stays_value, rule left_readers, intro stays_if)
  fix sz :: u32 and s' :: "'s pb_istream"
  assume sz: "\<not> (ucast (sz + 1) :: size_t) < ucast sz" and "PB_ATYPE (ftype f) = PB_ATYPE_POINTER"
  then have "room R dest 8" using dest by (simp add: target_def)
  then show "stays R (bytes_left s') m
      (case allocate_field env s' dest (ucast (sz + 1)) 1 m of
         (False, s, m) \<Rightarrow> (False, s, m)
       | (True, s, m) \<Rightarrow> terminate_string (load_ptr m dest) sz (read_into s (load_ptr m dest) (ucast sz) m))"
    by (rule stays_allocate [OF heap]) (rule read_string_stays, assumption, simp add: succ_no_wrap [OF sz])
next
  fix sz :: u32 and s' :: "'s pb_istream"
  assume "\<not> (ucast (sz + 1) :: size_t) < ucast sz" "PB_ATYPE (ftype f) \<noteq> PB_ATYPE_POINTER"
    "\<not> ucast (data_size f) < (ucast (sz + 1) :: size_t)"
  then show "stays R (bytes_left s') m (terminate_string dest sz (read_into s' dest (ucast sz) m))"
    using dest succ_no_wrap [of sz] by (intro read_string_stays) (auto simp: target_def word_less_nat_alt)
qed simp_all

section \<open>Submessages\<close>

lemma in_substream_confined:
  assumes "\<And>sub m. confined R (bytes_left sub) m (body sub m)"
  shows "confined R (bytes_left s) m (in_substream body s m)"
proof (cases "pb_make_string_substream s")
  case (Pair r s')
  then have left: "bytes_left s' \<le> bytes_left s" using left_readers(9) [of s] by simp
  show ?thesis
  proof (cases r)
    case None
    then show ?thesis using Pair left by (simp add: in_substream_def)
  next
    case (Some sub)
    obtain ok sub' m' where b: "body sub m = Some (ok, sub', m')" "unchanged_outside R m m'"
      using assms [of sub m] by (auto simp: confined_def)
    obtain closed s2 where c: "pb_close_string_substream s' sub' = (closed, s2)"
      by (cases "pb_close_string_substream s' sub'")
    then have "bytes_left s2 = bytes_left s'"
      by (auto simp: pb_close_string_substream_def Let_def split: if_splits prod.splits)
    then show ?thesis using Pair Some b c left by (simp add: in_substream_def staysI)
  qed
qed

lemma decode_with_confined:
  assumes schema: "owned_schema n (ddescr env) heap sz fs" and room: "room R dest sz"
    and noinit: "\<And>s m. confined R (bytes_left s) m (noinit s fs dest m)"
  shows "confined R (bytes_left s) m (decode_with env n noinit s fs dest m)"
proof -
  obtain m1 where m1: "pb_message_set_to_defaults n (ddescr env) fs dest m = Some m1" "unchanged_outside R m m1"
    using defaults_owned [OF schema room] by blast
  obtain ok s' m2 where m2: "noinit s fs dest m1 = Some (ok, s', m2)" "bytes_left s' \<le> bytes_left s" "unchanged_outside R m1 m2"
    using noinit [of s m1] by (auto simp: confined_def)
  obtain m3 where m3: "pb_release n (ddescr env) fs dest m2 = Some m3" "unchanged_outside R m2 m3"
    using release_owned [OF schema room] by blast
  have "unchanged_outside R m m2" using m1(2) m2(3) by (rule unchanged_trans)
  moreover from this have "unchanged_outside R m m3" using m3(2) by (rule unchanged_trans)
  ultimately show ?thesis using m1(1) m2(1,2) m3(1) by (simp add: decode_with_def staysI)
qed

lemma submessage_confined:
  assumes "fptr f \<noteq> 0" and "owned_schema n (ddescr env) heap (unat (data_size f)) (ddescr env (fptr f))"
    and "room R dest (unat (data_size f))"
    and "\<And>s m. confined R (bytes_left s) m (noinit s (ddescr env (fptr f)) dest m)"
  shows "confined R (bytes_left s) m (pb_dec_submessage env n noinit s f dest m)"
  using assms by (auto simp: pb_dec_submessage_def intro!: in_substream_confined decode_with_confined)

section \<open>Fields\<close>

text \<open>The values that are no messages.\<close>

lemma value_confined:
  assumes "value_fits f" and "PB_LTYPE (ftype f) \<noteq> PB_LTYPE_SUBMESSAGE" and heap: "allocates R T (pick env)"
    and dest: "if PB_LTYPE (ftype f) = PB_LTYPE_STRING \<or> PB_LTYPE (ftype f) = PB_LTYPE_BYTES then target R f dest
               else room R dest (unat (data_size f))"
  shows "confined R (bytes_left s) m (PB_DECODERS env n noinit (PB_LTYPE (ftype f)) s f dest m)"
proof -
  consider "PB_LTYPE (ftype f) = PB_LTYPE_STRING \<or> PB_LTYPE (ftype f) = PB_LTYPE_BYTES" |
    "room R dest (unat (data_size f))" "PB_LTYPE (ftype f) \<noteq> PB_LTYPE_STRING" "PB_LTYPE (ftype f) \<noteq> PB_LTYPE_BYTES"
    using dest by (auto split: if_splits)
  then show ?thesis
  proof cases
    case 1
    then have "target R f dest" using dest by simp
    then show ?thesis
      using 1 bytes_stay [OF heap] string_stays [OF heap] by (auto simp: PB_DECODERS_def pb_consts)
  next
    case 2
    then show ?thesis
      using assms(1,2) ints_stay [OF 2(1)] fixed_length_stays [OF 2(1)]
      by (auto simp: PB_DECODERS_def value_fits_def Let_def pb_consts intro!: scalars_stay intro: room_mono)
  qed
qed

lemma unat_add64: "unat a + unat b < 2 ^ 64 \<Longrightarrow> unat (a + b) = unat a + unat (b :: addr)"
  by (simp add: unat_word_ariths)

lemma in_range_base:
  assumes "in_range (dest + off) k x" and "unat off + k < 2 ^ 64"
  shows "unat off \<le> unat (x - dest) \<and> unat (x - dest) < unat off + k"
proof -
  have "unat off + unat (x - (dest + off)) < 2 ^ 64" using assms by (simp add: in_range_def)
  then have "unat (off + (x - (dest + off))) = unat off + unat (x - (dest + off))"
    by (rule unat_add64)
  moreover have "off + (x - (dest + off)) = x - dest" by simp
  ultimately have "unat (x - dest) = unat off + unat (x - (dest + off))" by simp
  then show ?thesis using assms(1) by (simp add: in_range_def)
qed

text \<open>What \<open>pb_decode_noinit\<close> has to guarantee for the messages one level below.\<close>

definition rec_confined :: "(addr \<Rightarrow> bool) \<Rightarrow> (addr \<Rightarrow> bool) \<Rightarrow> descriptors \<Rightarrow> nat \<Rightarrow> 's dec_rec \<Rightarrow> bool" where
  "rec_confined R T d n noinit \<longleftrightarrow>
     (\<forall>h k fs p s m. owned_schema n d h k fs \<longrightarrow> room R p k \<longrightarrow> (h \<longrightarrow> room T p k) \<longrightarrow>
        confined R (bytes_left s) m (noinit s fs p m))"

lemma with_iter_Some: "confined R n m r \<Longrightarrow>
    \<exists>ok s' m'. with_iter it r = Some (ok, s', it, m') \<and> bytes_left s' \<le> n \<and> unchanged_outside R m m'"
  by (auto simp: confined_def with_iter_def)

definition field_done :: "(addr \<Rightarrow> bool) \<Rightarrow> pb_field_iter \<Rightarrow> size_t \<Rightarrow> mem \<Rightarrow> 's iter_result \<Rightarrow> bool" where
  "field_done R it n m r \<longleftrightarrow>
     (\<exists>ok s' m'. r = Some (ok, s', it, m') \<and> bytes_left s' \<le> n \<and> unchanged_outside R m m')"

lemma field_done_simps [simp]: "field_done R it n m (Some (ok, s', it, m')) \<longleftrightarrow> bytes_left s' \<le> n \<and> unchanged_outside R m m'"
  by (simp add: field_done_def)

lemma field_done_iter: "confined R n m r \<Longrightarrow> field_done R it n m (with_iter it r)"
  unfolding field_done_def by (rule with_iter_Some)

lemma field_done_trans:
  "field_done R it k m' r \<Longrightarrow> k \<le> n \<Longrightarrow> unchanged_outside R m m' \<Longrightarrow> field_done R it n m r"
  by (auto simp: field_done_def intro: order_trans unchanged_trans)

lemma decode_static_done:
  assumes owned: "owned_field (owned_schema n (ddescr env)) (ddescr env) heap sz (off, cur it)" and room: "room R dest sz"
    and it: "stands_on it dest off" and static: "PB_ATYPE (ftype (cur it)) = PB_ATYPE_STATIC"
    and alloc: "allocates R T (pick env)" and apart: "heap \<Longrightarrow> room T dest sz"
    and rec: "rec_confined R T (ddescr env) n noinit"
  shows "field_done R it (bytes_left s) m (decode_static_field env n noinit s wt it m)"
proof -
  note st = owned_static [OF owned room static]
  let ?f = "cur it" and ?func = "PB_DECODERS env n noinit (PB_LTYPE (ftype (cur it)))"
  have func: "confined R (bytes_left s) m (?func s ?f (dest + off) m)" for m
  proof (cases "PB_LTYPE (ftype ?f) = PB_LTYPE_SUBMESSAGE")
    case True
    have "confined R (bytes_left s) m (pb_dec_submessage env n noinit s ?f (dest + off) m)"
    proof (rule submessage_confined)
      show "confined R (bytes_left s) m (noinit s (ddescr env (fptr ?f)) (dest + off) m)" for s m
        using rec st(1,3) owned_static(1) [OF owned apart static] True unfolding rec_confined_def by blast
    qed (use st True in auto)
    then show ?thesis using True by (simp add: PB_DECODERS_def pb_consts)
  next
    case False
    have "value_fits ?f" using owned by (simp add: owned_field_def Let_def)
    from value_confined [OF this False alloc] show ?thesis using st(1) static by (simp add: target_def pb_consts)
  qed
  have h: "PB_HTYPE (ftype ?f) = PB_HTYPE_REQUIRED \<or> PB_HTYPE (ftype ?f) = PB_HTYPE_OPTIONAL"
    using st(2) owned_htype [OF owned] by blast
  define m1 where "m1 = (if no_counter it then m else store_bool m (dest + (off + scast (size_offset ?f))) True)"
  have "unchanged_outside R m m1"
    using owned_counter(1) [OF owned room] no_counter_iff [OF it] by (auto simp: m1_def unchanged_stores)
  then have opt: "field_done R it (bytes_left s) m (with_iter it (?func s ?f (dest + off) m1))"
    by (intro field_done_trans [OF field_done_iter [OF func]]) auto
  have pd: "pData it = dest + off" and ps: "pSize it = PMem (dest + (off + scast (size_offset ?f)))"
    using it by (simp_all add: stands_on_def)
  show ?thesis
  proof (cases "PB_HTYPE (ftype ?f) = PB_HTYPE_REQUIRED")
    case True
    then show ?thesis using field_done_iter [OF func] pd by (simp add: decode_static_field_def Let_def)
  next
    case False
    then show ?thesis using h opt pd flag_store_in [OF ps]
      by (auto simp: decode_static_field_def Let_def m1_def pb_consts)
  qed
qed

lemma field_done_allocate:
  assumes alloc: "allocates R T (pick env)" and data: "room R data 8"
    and go_on: "\<And>s2 m2. room R (load_ptr m2 data) (unat d * unat a) \<Longrightarrow>
      (\<And>x. T x \<Longrightarrow> \<not> in_range data 8 x \<Longrightarrow> mbytes m2 x = mbytes m x) \<Longrightarrow> field_done R it (bytes_left s2) m2 (g s2 m2)"
  shows "field_done R it (bytes_left s) m
    (case allocate_field env s data d a m of (False, s, m) \<Rightarrow> Some (False, s, it, m) | (True, s, m) \<Rightarrow> g s m)"
proof -
  obtain ok s2 m2 where r: "allocate_field env s data d a m = (ok, s2, m2)"
    by (cases "allocate_field env s data d a m") auto
  note al = allocate_field_confined [OF alloc data r]
  show ?thesis
  proof (cases ok)
    case True
    then show ?thesis using r field_done_trans [OF go_on [OF al(3) al(4)] _ al(2)] al(1) by simp
  next
    case False
    then show ?thesis using r al(1,2) by simp
  qed
qed

lemma item_room:
  assumes "room R p (unat w * unat (ucast (count + 1) :: size_t))" and "count \<noteq> PB_SIZE_MAX" and "data_size f = w"
  shows "room R (item_addr p f count) (unat w)"
proof -
  have "1 + count \<noteq> 0" using assms(2) by (auto simp: pb_consts eq_neg_iff_add_eq_0 add.commute)
  then have "unat (count + 1) = unat count + 1" using unatSuc [of count] by (simp add: add.commute)
  moreover have "unat (w * count) \<le> unat w * unat count" by (simp add: unat_word_ariths)
  ultimately show ?thesis
    using assms(1,3) unfolding item_addr_def by (intro room_sub [OF assms(1)]) (simp_all add: algebra_simps)
qed

text \<open>Storing the pointer of an array, and filling the block, leave its counter alone.\<close>

lemma counter_kept:
  assumes owned: "owned_field sub d heap sz (off, cur it)" and apart: "room T dest sz"
    and array: "PB_HTYPE (ftype (cur it)) = PB_HTYPE_REPEATED" and ptr: "PB_ATYPE (ftype (cur it)) = PB_ATYPE_POINTER"
    and it: "stands_on it dest off" and same: "\<And>x. T x \<Longrightarrow> \<not> in_range (pData it) 8 x \<Longrightarrow> mbytes m2 x = mbytes m x"
  shows "size_load it m2 = size_load it m"
proof -
  let ?c = "off + scast (size_offset (cur it))"
  note st = owned_pointer [OF owned apart ptr]
  note ctr = owned_counter(2) [OF owned apart _ array]
  have "load_bytes m2 (dest + ?c) 4 = load_bytes m (dest + ?c) 4"
  proof (rule load_bytes_cong)
    fix x assume x: "in_range (dest + ?c) 4 x"
    have "unat ?c + 4 < 2 ^ 64" "unat off + 8 < 2 ^ 64"
      using owned apart ptr array by (auto simp: owned_field_def room_def Let_def)
    then have "\<not> in_range (dest + off) 8 x"
      using in_range_base [OF x] in_range_base [of dest off 8 x] st(4) [OF array] by auto
    moreover have "T x" using ctr st(4) [OF array] x by (auto simp: room_def)
    ultimately show "mbytes m2 x = mbytes m x" using same it by (simp add: stands_on_def)
  qed simp
  then show ?thesis using it by (simp add: size_load_def stands_on_def load32_def load_int_def)
qed

lemma decode_item_message:
  assumes "PB_HTYPE (ftype (cur it)) = PB_HTYPE_REPEATED" and "PB_LTYPE (ftype (cur it)) = PB_LTYPE_SUBMESSAGE"
    and "fptr (cur it) \<noteq> 0" and items: "owned_schema n (ddescr env) False (unat (data_size (cur it))) (ddescr env (fptr (cur it)))"
    and item: "room R p (unat (data_size (cur it)))" and rec: "rec_confined R T (ddescr env) n noinit"
  shows "confined R (bytes_left s) m (decode_item env n (PB_DECODERS env n noinit (PB_LTYPE (ftype (cur it)))) s p it m)"
proof -
  let ?m = "memset0 m p (unat (data_size (cur it)))"
  obtain m1 where m1: "pb_message_set_to_defaults n (ddescr env) (ddescr env (fptr (cur it))) p ?m = Some m1"
    and "unchanged_outside R ?m m1" using defaults_owned [OF items item] by blast
  then have un: "unchanged_outside R m m1"
    using unchanged_stores(5) [OF item order_refl] unchanged_trans by blast
  have "confined R (bytes_left s) m1 (pb_dec_submessage env n noinit s (cur it) p m1)"
  proof (rule submessage_confined [OF assms(3) items item])
    show "confined R (bytes_left s) m (noinit s (ddescr env (fptr (cur it))) p m)" for s m
      using rec items item unfolding rec_confined_def by blast
  qed
  then have "confined R (bytes_left s) m1 (PB_DECODERS env n noinit (PB_LTYPE (ftype (cur it))) s (cur it) p m1)"
    using assms(2) by (simp add: PB_DECODERS_def pb_consts)
  from confined_trans [OF this order_refl un] show ?thesis
    using m1 assms(1-3) by (simp add: decode_item_def initialize_pointer_field_def Let_def pb_consts)
qed

lemma decode_pointer_done:
  fixes s :: "'s pb_istream"
  assumes owned: "owned_field (owned_schema n (ddescr env)) (ddescr env) heap sz (off, cur it)" and room: "room R dest sz"
    and it: "stands_on it dest off" and ptr: "PB_ATYPE (ftype (cur it)) = PB_ATYPE_POINTER"
    and alloc: "allocates R T (pick env)" and apart: "heap \<Longrightarrow> room T dest sz"
    and rec: "rec_confined R T (ddescr env) n noinit"
  shows "field_done R it (bytes_left s) m (decode_pointer_field env n noinit s wt it m)"
proof -
  note st = owned_pointer [OF owned room ptr]
  let ?f = "cur it" and ?func = "PB_DECODERS env n noinit (PB_LTYPE (ftype (cur it)))"
  have pd: "pData it = dest + off" and ps: "pSize it = PMem (dest + (off + scast (size_offset ?f)))"
    using it by (simp_all add: stands_on_def)
  have room_ptr: "room R (pData it) 8" using st(1) pd by simp
  have fits: "value_fits ?f" using owned by (simp add: owned_field_def Let_def)
  show ?thesis
  proof (cases "PB_HTYPE (ftype ?f) = PB_HTYPE_REPEATED")
    case False
    then have msg: "PB_LTYPE (ftype ?f) \<noteq> PB_LTYPE_SUBMESSAGE" using st(3) by simp
    have "PB_HTYPE (ftype ?f) \<noteq> PB_HTYPE_ONEOF" using owned by (simp add: owned_field_def Let_def)
    note single = decode_pointer_field_def decode_pointer_single_def Let_def
    show ?thesis
    proof (cases "PB_LTYPE (ftype ?f) = PB_LTYPE_STRING \<or> PB_LTYPE (ftype ?f) = PB_LTYPE_BYTES")
      case True
      have "confined R (bytes_left s) m (?func s ?f (dest + off) m)"
        using value_confined [OF fits msg alloc] True st(1) ptr by (simp add: target_def)
      then show ?thesis
        using True False msg \<open>_ \<noteq> PB_HTYPE_ONEOF\<close> field_done_iter by (simp add: single pd)
    next
      case nolen: False
      have "field_done R it (bytes_left s2) m2 (with_iter it (decode_item env n ?func s2 (load_ptr m2 (pData it)) it m2))"
        if "room R (load_ptr m2 (pData it)) (unat (ucast (data_size ?f) :: size_t) * unat (1 :: size_t))"
        for s2 :: "'s pb_istream" and m2
      proof (rule field_done_iter)
        have "decode_item env n ?func s2 p it m2 = ?func s2 ?f p m2" for p
          using nolen msg by (simp add: decode_item_def initialize_pointer_field_def Let_def)
        then show "confined R (bytes_left s2) m2 (decode_item env n ?func s2 (load_ptr m2 (pData it)) it m2)"
          using value_confined [OF fits msg alloc] nolen that by simp
      qed
      note go_on = this
      have eq: "decode_pointer_field env n noinit s wt it m =
        (case allocate_field env s (pData it) (ucast (data_size ?f)) 1 m of
           (False, s, m) \<Rightarrow> Some (False, s, it, m)
         | (True, s, m) \<Rightarrow> with_iter it (decode_item env n ?func s (load_ptr m (pData it)) it m))"
        using nolen False msg \<open>_ \<noteq> PB_HTYPE_ONEOF\<close> by (simp add: single)
      show ?thesis
        by (subst eq, rule field_done_allocate [OF alloc room_ptr], erule go_on)
    qed
  next
    case True
    then have msg: "PB_LTYPE (ftype ?f) = PB_LTYPE_SUBMESSAGE" using st(3) by simp
    note arr = st(4) [OF True]
    let ?ctr = "dest + (off + scast (size_offset ?f))"
    have room_ctr: "room R ?ctr 4" using owned_counter(2) [OF owned room _ True] arr by blast
    have "field_done R it (bytes_left s2) m2
        (case size_store it m2 (size_load it m2 + 1) of
           (it', m') \<Rightarrow> with_iter it' (decode_item env n ?func s2 (item_addr (load_ptr m2 (pData it)) ?f (size_load it m2)) it' m'))"
      if count: "size_load it m \<noteq> PB_SIZE_MAX"
        and block: "room R (load_ptr m2 (pData it)) (unat (ucast (data_size ?f) :: size_t) * unat (ucast (size_load it m + 1) :: size_t))"
        and same: "\<And>x. T x \<Longrightarrow> \<not> in_range (pData it) 8 x \<Longrightarrow> mbytes m2 x = mbytes m x"
      for s2 :: "'s pb_istream" and m2
    proof -
      have "size_load it m2 = size_load it m"
        using counter_kept [OF owned apart [OF st(2)] True ptr it same] .
      then have item: "room R (item_addr (load_ptr m2 (pData it)) ?f (size_load it m2)) (unat (data_size ?f))" (is "room R ?item _")
        using block count by (intro item_room) auto
      define m3 where "m3 = store32 m2 ?ctr (size_load it m2 + 1)"
      have "unchanged_outside R m2 m3" unfolding m3_def by (rule unchanged_stores(2) [OF room_ctr]) simp
      moreover have "confined R (bytes_left s2) m3 (decode_item env n ?func s2 ?item it m3)"
        using decode_item_message [OF True msg _ _ item rec] arr by blast
      ultimately have "field_done R it (bytes_left s2) m2 (with_iter it (decode_item env n ?func s2 ?item it m3))"
        by (intro field_done_trans [OF field_done_iter]) auto
      then show ?thesis by (simp add: size_store_in [OF ps] m3_def)
    qed
    note go_on = this
    show ?thesis
    proof (cases "size_load it m = PB_SIZE_MAX")
      case False
      then have eq: "decode_pointer_field env n noinit s wt it m =
        (case allocate_field env s (pData it) (ucast (data_size ?f)) (ucast (size_load it m + 1)) m of
           (False, s, m) \<Rightarrow> Some (False, s, it, m)
         | (True, s, m) \<Rightarrow> (case size_store it m (size_load it m + 1) of
             (it', m') \<Rightarrow> with_iter it' (decode_item env n ?func s (item_addr (load_ptr m (pData it)) ?f (size_load it m)) it' m')))"
        using True msg unfolding decode_pointer_field_def Let_def by (simp add: PB_LTYPE_SUBMESSAGE_def PB_LTYPE_LAST_PACKABLE_def)
      show ?thesis
        by (subst eq, rule field_done_allocate [OF alloc room_ptr], rule go_on [OF False], assumption, blast)
    qed (use True msg in \<open>simp add: decode_pointer_field_def Let_def PB_LTYPE_SUBMESSAGE_def PB_LTYPE_LAST_PACKABLE_def\<close>)
  qed
qed

lemma decode_field_done:
  assumes owned: "owned_field (owned_schema n (ddescr env)) (ddescr env) heap sz (off, cur it)" and room: "room R dest sz"
    and it: "stands_on it dest off" and alloc: "allocates R T (pick env)" and apart: "heap \<Longrightarrow> room T dest sz"
    and rec: "rec_confined R T (ddescr env) n noinit"
  shows "field_done R it (bytes_left s) m (decode_field env n noinit s wt it m)"
proof -
  have "PB_HTYPE (ftype (cur it)) \<noteq> PB_HTYPE_ONEOF" using owned by (simp add: owned_field_def Let_def)
  then show ?thesis
    using owned_atype [OF owned] decode_static_done [OF owned room it _ alloc apart rec]
      decode_pointer_done [OF owned room it _ alloc apart rec]
    by (auto simp: decode_field_def Let_def pb_consts)
qed

section \<open>Messages\<close>

lemma varint32_eof_decreases:
  assumes "pb_decode_varint32_eof s = ((Some v, eof), s')"
  shows "unat (bytes_left s') < unat (bytes_left s)"
proof -
  obtain b s1 where b: "pb_readbyte s = (Some b, s1)"
    using assms by (auto simp: pb_decode_varint32_eof_def split: prod.splits option.splits)
  have loop: "varint32_loop s1 7 r = (x, s2) \<Longrightarrow> bytes_left s2 \<le> bytes_left s1" for r x s2
    using len.varint32_loop [of 7 r s1] by (simp add: moves_def)
  then have "bytes_left s' \<le> bytes_left s1"
    using assms b by (auto simp: pb_decode_varint32_eof_def split: prod.splits option.splits if_splits)
  then show ?thesis using pb_readbyte_decreases [OF b] by (simp add: word_le_nat_alt)
qed

lemma decode_tag_progress:
  assumes "pb_decode_tag s = ((Some (wt, t), eof), s')"
  shows "unat (bytes_left s') < unat (bytes_left s)" and "t \<noteq> - 1"
proof -
  obtain temp where temp: "pb_decode_varint32_eof s = ((Some temp, eof), s')" "t = drop_bit 3 temp"
    using assms by (auto simp: pb_decode_tag_def split: prod.splits option.splits if_splits)
  show "unat (bytes_left s') < unat (bytes_left s)" using varint32_eof_decreases [OF temp(1)] .
  have "\<not> bit t 31" using temp(2) by (auto simp: bit_simps dest: bit_imp_le_length)
  then show "t \<noteq> - 1" by (auto simp: bit_minus_1_iff)
qed

text \<open>The iterator stays on an entry of the message.\<close>

definition on_entry :: "pb_field list \<Rightarrow> addr \<Rightarrow> pb_field_iter \<Rightarrow> bool" where
  "on_entry fs dest it \<longleftrightarrow> exact_iter it \<and> start it = fs \<and> dest_struct it = dest \<and> pos it < length fs"

lemma on_entry_search:
  assumes "on_entry fs dest it" and "iter_search found (pos it) (Suc (length fs)) it = (ok, it')"
  shows "on_entry fs dest it'" and "ok \<longleftrightarrow> (\<exists>f \<in> set fs. found f)"
  using assms iter_search_whole [of it found] exact_iter_search [of it found "pos it" "Suc (length fs)"]
  by (auto simp: on_entry_def exact_iter_def same_message_def)

definition round_done :: "(addr \<Rightarrow> bool) \<Rightarrow> pb_field list \<Rightarrow> addr \<Rightarrow> size_t \<Rightarrow> mem \<Rightarrow>
    (bool \<times> 's pb_istream \<times> noinit_vars \<times> mem) option \<Rightarrow> bool" where
  "round_done R fs dest n m r \<longleftrightarrow>
     (\<exists>ok s' v' m'. r = Some (ok, s', v', m') \<and> bytes_left s' \<le> n \<and> unchanged_outside R m m' \<and> on_entry fs dest (iter v'))"

lemma round_done_trans:
  assumes "round_done R fs dest k m' r" and "k \<le> n" and "unchanged_outside R m m'"
  shows "round_done R fs dest n m r"
  using assms order_trans [of _ k n] unchanged_trans [of R m m'] unfolding round_done_def by blast

lemma decode_unknown_done:
  assumes schema: "owned_schema n d heap sz fs" and v: "on_entry fs dest (iter v)" and t: "t \<noteq> - 1"
  shows "round_done R fs dest (bytes_left s) m (decode_unknown env k noinit s t wt v m)"
proof -
  obtain ok s' where skip: "pb_skip_field s wt = (ok, s')" by (cases "pb_skip_field s wt")
  then have left: "bytes_left s' \<le> bytes_left s" using left_readers(8) [of s wt] by simp
  obtain found it where it: "find_extension_field (iter v) = (found, it)" by (cases "find_extension_field (iter v)")
  then have search: "iter_search (\<lambda>f. PB_LTYPE (ftype f) = PB_LTYPE_EXTENSION) (pos (iter v)) (Suc (length fs)) (iter v) = (found, it)"
    using v by (simp add: find_extension_field_def on_entry_def del: iter_search.simps)
  have "PB_LTYPE (ftype (fs ! i)) \<noteq> PB_LTYPE_EXTENSION" if i: "i < length fs" for i
    using owned_fields [OF schema i] owned_ltype by metis
  then have "\<not> found" using on_entry_search(2) [OF v search] by (auto simp: in_set_conv_nth)
  moreover have "\<not> - 1 \<le> t" using t by (simp add: word_order.extremum_unique)
  ultimately show ?thesis
    using skip it left v on_entry_search(1) [OF v search] by (auto simp: round_done_def decode_unknown_def Let_def)
qed

lemma decode_known_done:
  assumes schema: "owned_schema (Suc n) (ddescr env) heap sz fs" and room: "room R dest sz" and v: "on_entry fs dest (iter v)"
    and alloc: "allocates R T (pick env)" and apart: "heap \<Longrightarrow> room T dest sz"
    and rec: "rec_confined R T (ddescr env) n noinit"
  shows "round_done R fs dest (bytes_left s) m (decode_known env n noinit s wt v m)"
proof -
  obtain k off where "Suc n = Suc k" and owned: "owned_field (owned_schema k (ddescr env)) (ddescr env) heap sz (off, cur (iter v))"
    and it: "stands_on (iter v) dest off"
    using iter_in_place [OF schema room, of "iter v"] v unfolding on_entry_def by metis
  then have owned: "owned_field (owned_schema n (ddescr env)) (ddescr env) heap sz (off, cur (iter v))" by simp
  have "PB_HTYPE (ftype (cur (iter v))) = PB_HTYPE_REPEATED \<Longrightarrow> \<not> no_counter (iter v)"
    using owned_atype [OF owned] owned_static(2) [OF owned room] owned_pointer(4) [OF owned room] no_counter_iff [OF it] by blast
  then have note1: "note_fixed_count v = Some v" by (auto simp: note_fixed_count_def)
  have note2: "iter (note_required v) = iter v" by (simp add: note_required_def Let_def)
  from decode_field_done [OF owned room it alloc apart rec, of s m wt] obtain ok s' m'
    where "decode_field env n noinit s wt (iter v) m = Some (ok, s', iter v, m')" "bytes_left s' \<le> bytes_left s"
      "unchanged_outside R m m'" by (auto simp: field_done_def)
  then show ?thesis using v note1 note2 by (simp add: decode_known_def round_done_def Let_def)
qed

lemma decode_loop_done:
  assumes schema: "owned_schema (Suc n) (ddescr env) heap sz fs" and room: "room R dest sz"
    and alloc: "allocates R T (pick env)" and apart: "heap \<Longrightarrow> room T dest sz"
    and rec: "rec_confined R T (ddescr env) n noinit"
  shows "unat (bytes_left s) < rounds \<Longrightarrow> on_entry fs dest (iter v) \<Longrightarrow>
    round_done R fs dest (bytes_left s) m (decode_loop env n noinit rounds s v m)"
proof (induction rounds arbitrary: s v m)
  case (Suc rounds)
  obtain r eof s1 where tag: "pb_decode_tag s = ((r, eof), s1)" by (cases "pb_decode_tag s") auto
  have left: "bytes_left s1 \<le> bytes_left s" using left_readers(7) [of s] tag by simp
  show ?case
  proof (cases "bytes_left s = 0 \<or> r = None")
    case True
    then show ?thesis using Suc.prems(2) tag left by (auto simp: round_done_def)
  next
    case False
    then obtain wt t where r: "r = Some (wt, t)" by auto
    note prog = decode_tag_progress [OF tag [unfolded r]]
    obtain found it where find: "pb_field_iter_find (iter v) t = (found, it)" by (cases "pb_field_iter_find (iter v) t")
    then have it: "on_entry fs dest (iter (v\<lparr>iter := it\<rparr>))"
      using on_entry_search(1) [OF Suc.prems(2)] Suc.prems(2)
      by (simp add: pb_field_iter_find_def on_entry_def del: iter_search.simps)
    define q where "q = (if \<not> found then decode_unknown env n noinit s1 t wt (v\<lparr>iter := it\<rparr>) m
                         else decode_known env n noinit s1 wt (v\<lparr>iter := it\<rparr>) m)"
    have "round_done R fs dest (bytes_left s1) m q"
      unfolding q_def
      by (cases found) (simp_all only: if_True if_False simp_thms decode_unknown_done [OF schema it prog(2)]
          decode_known_done [OF schema room it alloc apart rec])
    then obtain ok s2 v2 m2 where q: "q = Some (ok, s2, v2, m2)" "bytes_left s2 \<le> bytes_left s1"
      "unchanged_outside R m m2" "on_entry fs dest (iter v2)" by (auto simp: round_done_def)
    have step: "decode_loop env n noinit (Suc rounds) s v m = (if ok then decode_loop env n noinit rounds s2 v2 m2 else q)"
      using False tag r find q(1) by (cases ok) (simp_all add: q_def [symmetric])
    have "unat (bytes_left s2) < rounds" using q(2) prog(1) Suc.prems(1) by (simp add: word_le_nat_alt)
    then have "round_done R fs dest (bytes_left s2) m2 (decode_loop env n noinit rounds s2 v2 m2)"
      using q(4) by (rule Suc.IH)
    then have "round_done R fs dest (bytes_left s) m (decode_loop env n noinit rounds s2 v2 m2)"
      by (rule round_done_trans) (use q left in auto)
    moreover have "round_done R fs dest (bytes_left s) m q"
      using q left by (simp add: round_done_def)
    ultimately show ?thesis unfolding step by simp
  qed
qed simp

theorem noinit_confined:
  assumes alloc: "allocates R T (pick env)"
  shows "rec_confined R T (ddescr env) n (pb_decode_noinit n env)"
proof (induction n)
  case (Suc n)
  have "confined R (bytes_left s) m (decode_message env n (pb_decode_noinit n env) s fs dest m)"
    if schema: "owned_schema (Suc n) (ddescr env) heap sz fs" and room: "room R dest sz" and apart: "heap \<longrightarrow> room T dest sz"
    for heap sz fs dest m and s :: "'a pb_istream"
  proof -
    have "on_entry fs dest (iter (noinit_start fs dest))"
      using owned_wf [OF schema] by (simp add: noinit_start_def on_entry_def)
    from decode_loop_done [OF schema room alloc _ Suc.IH lessI this, of s m] apart show ?thesis
      by (auto simp: decode_message_def round_done_def intro!: staysI split: bool.split)
  qed
  then show ?case unfolding rec_confined_def pb_decode_noinit.simps by blast
qed (simp add: rec_confined_def)

theorem decode_confined:
  assumes "owned_schema n (ddescr env) heap sz fs" and "room R dest sz" and "heap \<Longrightarrow> room T dest sz"
    and "allocates R T (pick env)"
  shows "confined R (bytes_left s) m (pb_decode n env s fs dest m)"
  unfolding pb_decode_def
  using noinit_confined [OF assms(4), of n] assms(1-3)
  by (intro decode_with_confined [OF assms(1,2)]) (simp add: rec_confined_def)

end
