(* ===== verification/Pb_OStream.thy ===== *)
theory Pb_OStream
  imports Pb_Types
begin

text \<open>
  Output streams (\<open>pb_ostream_t\<close> of \<open>pb_encode.h\<close>) and the stream-level part of \<open>pb_encode.c\<close>: \<open>pb_write\<close>,
  varints, zigzag, fixed-width values, tags and length-prefixed strings.

  A stream has no callback (\<open>Sizing\<close>: it only counts), writes into a memory buffer (\<open>BufWrite\<close>: callback
  \<open>buf_write\<close>, with the bytes stored so far), or calls a user callback with its own state.
\<close>

section \<open>Streams\<close>

datatype 's pb_osink = Sizing | BufWrite "byte list" | UserWrite "'s \<Rightarrow> byte list \<Rightarrow> bool \<times> 's" 's

record 's pb_ostream =
  osink :: "'s pb_osink"
  max_size :: size_t
  bytes_written :: size_t
  oerrmsg :: "string option"

definition oerror :: "string \<Rightarrow> 's pb_ostream \<Rightarrow> 's pb_ostream" where
  "oerror msg s = s\<lparr>oerrmsg := PB_SET_ERROR (oerrmsg s) msg\<rparr>"

definition is_sizing :: "'s pb_ostream \<Rightarrow> bool" where
  "is_sizing s = (case osink s of Sizing \<Rightarrow> True | BufWrite bs \<Rightarrow> False | UserWrite cb st \<Rightarrow> False)"

definition PB_OSTREAM_SIZING :: "'s pb_ostream" where
  "PB_OSTREAM_SIZING = \<lparr>osink = Sizing, max_size = 0, bytes_written = 0, oerrmsg = None\<rparr>"

definition pb_ostream_from_buffer :: "size_t \<Rightarrow> 's pb_ostream" where
  "pb_ostream_from_buffer bufsize =
     \<lparr>osink = BufWrite [], max_size = bufsize, bytes_written = 0, oerrmsg = None\<rparr>"

definition buf_write :: "byte list \<Rightarrow> byte list \<Rightarrow> byte list" where
  "buf_write written buf = written @ buf"

text \<open>The call \<open>stream->callback(stream, buf, count)\<close> of a stream that has a callback.\<close>

definition ocallback :: "'s pb_ostream \<Rightarrow> byte list \<Rightarrow> bool \<times> 's pb_ostream" where
  "ocallback s buf =
     (case osink s of
        Sizing \<Rightarrow> (True, s)
      | BufWrite written \<Rightarrow> (True, s\<lparr>osink := BufWrite (buf_write written buf)\<rparr>)
      | UserWrite cb st \<Rightarrow> (case cb st buf of (ok, st') \<Rightarrow> (ok, s\<lparr>osink := UserWrite cb st'\<rparr>)))"

definition pb_write :: "'s pb_ostream \<Rightarrow> byte list \<Rightarrow> size_t \<Rightarrow> bool \<times> 's pb_ostream" where
  "pb_write s buf count =
     (if 0 < count \<and> \<not> is_sizing s then
        if bytes_written s + count < bytes_written s \<or> max_size s < bytes_written s + count
        then (False, oerror ''stream full'' s)
        else case ocallback s (buf_take (unat count) buf) of
               (False, s') \<Rightarrow> (False, oerror ''io error'' s')
             | (True, s') \<Rightarrow> (True, s'\<lparr>bytes_written := bytes_written s' + count\<rparr>)
      else (True, s\<lparr>bytes_written := bytes_written s + count\<rparr>))"

section \<open>Values\<close>

text \<open>The \<open>while (value)\<close> loop of \<open>pb_encode_varint\<close>: the bytes it puts into \<open>buffer\<close>.\<close>

function varint_buffer :: "u64 \<Rightarrow> byte list" where
  "varint_buffer value =
     (if value \<noteq> 0 then (ucast (value AND 0x7F) OR 0x80) # varint_buffer (drop_bit 7 value) else [])"
  by pat_completeness auto

lemma unat_drop_bit_less:
  assumes "value \<noteq> 0" and "0 < n"
  shows "unat (drop_bit n value) < unat (value :: 'a::len word)"
proof -
  have "unat (drop_bit n value) = unat value div 2 ^ n"
    by (simp only: unat_drop_bit_eq drop_bit_eq_div [where 'a = nat])
  also have "\<dots> < unat value"
    using assms one_less_power [of "2 :: nat" n] by (intro div_less_dividend) (auto simp: unat_gt_0)
  finally show ?thesis .
qed

termination varint_buffer
  by (relation "measure unat") (simp_all add: unat_drop_bit_less)

declare varint_buffer.simps [simp del]

definition pb_encode_varint :: "'s pb_ostream \<Rightarrow> u64 \<Rightarrow> bool \<times> 's pb_ostream" where
  "pb_encode_varint s value =
     (if value \<le> 0x7F then pb_write s [ucast value] 1
      else let buffer = varint_buffer value; i = length buffer
           in pb_write s (buffer[i - 1 := buffer ! (i - 1) AND 0x7F]) (of_nat i))"

definition pb_encode_svarint :: "'s pb_ostream \<Rightarrow> u64 \<Rightarrow> bool \<times> 's pb_ostream" where
  "pb_encode_svarint s value =
     pb_encode_varint s (if value <s 0 then NOT (push_bit 1 value) else push_bit 1 value)"

definition pb_encode_fixed32 :: "'s pb_ostream \<Rightarrow> u32 \<Rightarrow> bool \<times> 's pb_ostream" where
  "pb_encode_fixed32 s val =
     pb_write s [ucast (val AND 0xFF), ucast (drop_bit 8 val AND 0xFF),
                 ucast (drop_bit 16 val AND 0xFF), ucast (drop_bit 24 val AND 0xFF)] 4"

definition pb_encode_fixed64 :: "'s pb_ostream \<Rightarrow> u64 \<Rightarrow> bool \<times> 's pb_ostream" where
  "pb_encode_fixed64 s val =
     pb_write s [ucast (val AND 0xFF), ucast (drop_bit 8 val AND 0xFF),
                 ucast (drop_bit 16 val AND 0xFF), ucast (drop_bit 24 val AND 0xFF),
                 ucast (drop_bit 32 val AND 0xFF), ucast (drop_bit 40 val AND 0xFF),
                 ucast (drop_bit 48 val AND 0xFF), ucast (drop_bit 56 val AND 0xFF)] 8"

definition pb_encode_tag :: "'s pb_ostream \<Rightarrow> pb_wire_type_t \<Rightarrow> u32 \<Rightarrow> bool \<times> 's pb_ostream" where
  "pb_encode_tag s wiretype field_number =
     pb_encode_varint s (push_bit 3 (ucast field_number) OR ucast wiretype)"

definition wire_type_of_ltype :: "pb_type_t \<Rightarrow> pb_wire_type_t option" where
  "wire_type_of_ltype lt =
     (if lt = PB_LTYPE_BOOL \<or> lt = PB_LTYPE_VARINT \<or> lt = PB_LTYPE_UVARINT \<or> lt = PB_LTYPE_SVARINT
      then Some PB_WT_VARINT
      else if lt = PB_LTYPE_FIXED32 then Some PB_WT_32BIT
      else if lt = PB_LTYPE_FIXED64 then Some PB_WT_64BIT
      else if lt = PB_LTYPE_BYTES \<or> lt = PB_LTYPE_STRING \<or> lt = PB_LTYPE_SUBMESSAGE \<or>
              lt = PB_LTYPE_FIXED_LENGTH_BYTES then Some PB_WT_STRING
      else None)"

definition pb_encode_tag_for_field :: "'s pb_ostream \<Rightarrow> pb_field \<Rightarrow> bool \<times> 's pb_ostream" where
  "pb_encode_tag_for_field s field =
     (case wire_type_of_ltype (PB_LTYPE (ftype field)) of
        None \<Rightarrow> (False, oerror ''invalid field type'' s)
      | Some wiretype \<Rightarrow> pb_encode_tag s wiretype (tag field))"

definition pb_encode_string :: "'s pb_ostream \<Rightarrow> byte list \<Rightarrow> size_t \<Rightarrow> bool \<times> 's pb_ostream" where
  "pb_encode_string s buffer sz =
     (case pb_encode_varint s sz of
        (False, s') \<Rightarrow> (False, s')
      | (True, s') \<Rightarrow> pb_write s' buffer sz)"

end
