(* ===== verification/Pb_Encode.thy ===== *)
theory Pb_Encode
  imports Pb_OStream Pb_Defaults
begin

text \<open>
  The message encoder of \<open>pb_encode.c\<close>: a structure in memory, described by a descriptor array, is written to
  an output stream.  The functions are in the order of dependency; those that reach \<open>pb_encode\<close> again take
  it as the parameter \<open>rec\<close>, and \<open>pb_encode\<close> ties the knot with fuel for the nesting of messages (and the
  length of extension chains).  \<open>None\<close> is the result when the fuel is used up, or when a null or unknown
  function pointer is called.

  Encoding only reads memory.  User callbacks, known by the address of the function, are parameters of
  the environment and see memory read-only, as the \<open>const\<close> in their types says.
\<close>

section \<open>Environment and layout\<close>

type_synonym 't enc_result = "(bool \<times> 't pb_ostream) option"

record 't enc_env =
  descr :: "addr \<Rightarrow> pb_field list"
  enc_cb :: "addr \<Rightarrow> 't pb_ostream \<Rightarrow> pb_field \<Rightarrow> addr \<Rightarrow> mem \<Rightarrow> 't enc_result"
  ext_enc :: "addr \<Rightarrow> 't pb_ostream \<Rightarrow> addr \<Rightarrow> mem \<Rightarrow> 't enc_result"

text \<open>\<open>if (!f(stream)) return false;\<close> followed by the rest of the function.\<close>

definition and_then :: "'t enc_result \<Rightarrow> ('t pb_ostream \<Rightarrow> 't enc_result) \<Rightarrow> 't enc_result" where
  "and_then r k = (case r of None \<Rightarrow> None | Some (ok, s) \<Rightarrow> if ok then k s else Some (False, s))"

section \<open>Field encoders\<close>

definition safe_read_bool :: "mem \<Rightarrow> addr \<Rightarrow> bool" where
  "safe_read_bool m p = list_ex (\<lambda>b. b \<noteq> 0) (load_bytes m p sizeof_bool)"

definition pb_enc_bool :: "'t pb_ostream \<Rightarrow> pb_field \<Rightarrow> addr \<Rightarrow> mem \<Rightarrow> bool \<times> 't pb_ostream" where
  "pb_enc_bool s field src m = pb_encode_varint s (if safe_read_bool m src then 1 else 0)"

text \<open>The integer of \<open>size\<close> bytes at \<open>src\<close>, sign-extended or zero-extended; \<open>None\<close> for another size.\<close>

definition load_signed :: "mem \<Rightarrow> addr \<Rightarrow> pb_size_t \<Rightarrow> u64 option" where
  "load_signed m src sz =
     (if sz = 1 then Some (scast (ucast (load_int m src 1) :: 8 word))
      else if sz = 2 then Some (scast (ucast (load_int m src 2) :: 16 word))
      else if sz = 4 then Some (scast (ucast (load_int m src 4) :: 32 word))
      else if sz = 8 then Some (load_int m src 8)
      else None)"

definition load_unsigned :: "mem \<Rightarrow> addr \<Rightarrow> pb_size_t \<Rightarrow> u64 option" where
  "load_unsigned m src sz =
     (if sz = 1 \<or> sz = 2 \<or> sz = 4 \<or> sz = 8 then Some (load_int m src (unat sz)) else None)"

definition pb_enc_varint :: "'t pb_ostream \<Rightarrow> pb_field \<Rightarrow> addr \<Rightarrow> mem \<Rightarrow> bool \<times> 't pb_ostream" where
  "pb_enc_varint s field src m =
     (case load_signed m src (data_size field) of
        None \<Rightarrow> (False, oerror ''invalid data_size'' s)
      | Some value \<Rightarrow> pb_encode_varint s value)"

definition pb_enc_uvarint :: "'t pb_ostream \<Rightarrow> pb_field \<Rightarrow> addr \<Rightarrow> mem \<Rightarrow> bool \<times> 't pb_ostream" where
  "pb_enc_uvarint s field src m =
     (case load_unsigned m src (data_size field) of
        None \<Rightarrow> (False, oerror ''invalid data_size'' s)
      | Some value \<Rightarrow> pb_encode_varint s value)"

definition pb_enc_svarint :: "'t pb_ostream \<Rightarrow> pb_field \<Rightarrow> addr \<Rightarrow> mem \<Rightarrow> bool \<times> 't pb_ostream" where
  "pb_enc_svarint s field src m =
     (case load_signed m src (data_size field) of
        None \<Rightarrow> (False, oerror ''invalid data_size'' s)
      | Some value \<Rightarrow> pb_encode_svarint s value)"

definition pb_enc_fixed32 :: "'t pb_ostream \<Rightarrow> pb_field \<Rightarrow> addr \<Rightarrow> mem \<Rightarrow> bool \<times> 't pb_ostream" where
  "pb_enc_fixed32 s field src m = pb_encode_fixed32 s (load32 m src)"

definition pb_enc_fixed64 :: "'t pb_ostream \<Rightarrow> pb_field \<Rightarrow> addr \<Rightarrow> mem \<Rightarrow> bool \<times> 't pb_ostream" where
  "pb_enc_fixed64 s field src m = pb_encode_fixed64 s (load_int m src 8)"

definition pb_enc_bytes :: "'t pb_ostream \<Rightarrow> pb_field \<Rightarrow> addr \<Rightarrow> mem \<Rightarrow> bool \<times> 't pb_ostream" where
  "pb_enc_bytes s field src m =
     (if src = 0 then pb_encode_string s [] 0
      else
        let sz = load32 m src in
        if PB_ATYPE (ftype field) = PB_ATYPE_STATIC \<and> ucast (data_size field) - offsetof_bytes < ucast sz
        then (False, oerror ''bytes size exceeded'' s)
        else pb_encode_string s (load_bytes m (src + offsetof_bytes) (unat sz)) (ucast sz))"

text \<open>The \<open>while (size < max_size && *p != '\0')\<close> loop.\<close>

function pb_strnlen :: "mem \<Rightarrow> addr \<Rightarrow> size_t \<Rightarrow> size_t \<Rightarrow> size_t" where
  "pb_strnlen m p sz max_sz =
     (if sz < max_sz \<and> mbytes m p \<noteq> 0 then pb_strnlen m (p + 1) (sz + 1) max_sz else sz)"
  by pat_completeness auto
termination
proof (relation "measure (\<lambda>(m, p, sz, max_sz). unat (max_sz - sz))", simp)
  fix m :: mem and p :: addr and sz max_sz :: size_t
  assume "sz < max_sz \<and> mbytes m p \<noteq> 0"
  then have "max_sz - sz \<noteq> 0" by auto
  then have "unat (max_sz - sz - 1) < unat (max_sz - sz)" by (simp add: unat_minus_one unat_gt_0)
  then show "((m, p + 1, sz + 1, max_sz), m, p, sz, max_sz) \<in> measure (\<lambda>(m, p, sz, max_sz). unat (max_sz - sz))"
    by (simp add: diff_diff_eq)
qed

declare pb_strnlen.simps [simp del]

definition pb_enc_string :: "'t pb_ostream \<Rightarrow> pb_field \<Rightarrow> addr \<Rightarrow> mem \<Rightarrow> bool \<times> 't pb_ostream" where
  "pb_enc_string s field src m =
     (let max_sz = (if PB_ATYPE (ftype field) = PB_ATYPE_POINTER then - 1 else ucast (data_size field));
          sz = (if src = 0 then 0 else pb_strnlen m src 0 max_sz)
      in pb_encode_string s (load_bytes m src (unat sz)) sz)"

definition pb_enc_fixed_length_bytes ::
  "'t pb_ostream \<Rightarrow> pb_field \<Rightarrow> addr \<Rightarrow> mem \<Rightarrow> bool \<times> 't pb_ostream" where
  "pb_enc_fixed_length_bytes s field src m =
     pb_encode_string s (load_bytes m src (unat (data_size field))) (ucast (data_size field))"

section \<open>Submessages\<close>

type_synonym 't enc_rec = "'t pb_ostream \<Rightarrow> pb_field list \<Rightarrow> addr \<Rightarrow> mem \<Rightarrow> 't enc_result"

definition pb_encode_submessage ::
  "'t enc_rec \<Rightarrow> 't pb_ostream \<Rightarrow> pb_field list \<Rightarrow> addr \<Rightarrow> mem \<Rightarrow> 't enc_result" where
  "pb_encode_submessage rec s fs src m =
     (case rec PB_OSTREAM_SIZING fs src m of
        None \<Rightarrow> None
      | Some (ok, substream) \<Rightarrow>
          if \<not> ok then Some (False, s\<lparr>oerrmsg := oerrmsg substream\<rparr>)
          else
            let sz = bytes_written substream in
            and_then (Some (pb_encode_varint s sz)) (\<lambda>s.
              if is_sizing s then Some (pb_write s [] sz)
              else if max_size s < bytes_written s + sz then Some (False, oerror ''stream full'' s)
              else
                case rec \<lparr>osink = osink s, max_size = sz, bytes_written = 0, oerrmsg = None\<rparr> fs src m of
                  None \<Rightarrow> None
                | Some (status, substream) \<Rightarrow>
                    let s = s\<lparr>bytes_written := bytes_written s + bytes_written substream,
                              osink := osink substream, oerrmsg := oerrmsg substream\<rparr> in
                    if bytes_written substream \<noteq> sz then Some (False, oerror ''submsg size changed'' s)
                    else Some (status, s)))"

definition pb_enc_submessage ::
  "'t enc_env \<Rightarrow> 't enc_rec \<Rightarrow> 't pb_ostream \<Rightarrow> pb_field \<Rightarrow> addr \<Rightarrow> mem \<Rightarrow> 't enc_result" where
  "pb_enc_submessage env rec s field src m =
     (if fptr field = 0 then Some (False, oerror ''invalid field descriptor'' s)
      else pb_encode_submessage rec s (descr env (fptr field)) src m)"

text \<open>The table \<open>PB_ENCODERS\<close>, indexed with the type of the field.\<close>

definition PB_ENCODERS :: "'t enc_env \<Rightarrow> 't enc_rec \<Rightarrow> pb_type_t \<Rightarrow>
    't pb_ostream \<Rightarrow> pb_field \<Rightarrow> addr \<Rightarrow> mem \<Rightarrow> 't enc_result" where
  "PB_ENCODERS env rec lt s field src m =
     (if lt = PB_LTYPE_BOOL then Some (pb_enc_bool s field src m)
      else if lt = PB_LTYPE_VARINT then Some (pb_enc_varint s field src m)
      else if lt = PB_LTYPE_UVARINT then Some (pb_enc_uvarint s field src m)
      else if lt = PB_LTYPE_SVARINT then Some (pb_enc_svarint s field src m)
      else if lt = PB_LTYPE_FIXED32 then Some (pb_enc_fixed32 s field src m)
      else if lt = PB_LTYPE_FIXED64 then Some (pb_enc_fixed64 s field src m)
      else if lt = PB_LTYPE_BYTES then Some (pb_enc_bytes s field src m)
      else if lt = PB_LTYPE_STRING then Some (pb_enc_string s field src m)
      else if lt = PB_LTYPE_SUBMESSAGE then pb_enc_submessage env rec s field src m
      else if lt = PB_LTYPE_FIXED_LENGTH_BYTES then Some (pb_enc_fixed_length_bytes s field src m)
      else None)"


section \<open>Arrays\<close>

text \<open>
  The \<open>for (i = 0; i < count; i++)\<close> loops, as recursion on the number of rounds left: \<open>item s p\<close> encodes the
  array entry at \<open>p\<close>, and \<open>p\<close> advances by \<open>field->data_size\<close>.
\<close>

primrec encode_items :: "('t pb_ostream \<Rightarrow> addr \<Rightarrow> 't enc_result) \<Rightarrow> pb_field \<Rightarrow> nat \<Rightarrow>
    't pb_ostream \<Rightarrow> addr \<Rightarrow> 't enc_result" where
  "encode_items item field 0 s p = Some (True, s)"
| "encode_items item field (Suc k) s p =
     and_then (item s p) (\<lambda>s. encode_items item field k s (p + ucast (data_size field)))"

type_synonym 't enc_func = "'t pb_ostream \<Rightarrow> pb_field \<Rightarrow> addr \<Rightarrow> mem \<Rightarrow> 't enc_result"

text \<open>\<open>None\<close> for the size when an item cannot be sized (or does not return).\<close>

definition packed_size :: "'t enc_func \<Rightarrow> pb_field \<Rightarrow> addr \<Rightarrow> size_t \<Rightarrow> mem \<Rightarrow> (bool \<times> size_t) option" where
  "packed_size func field data count m =
     (if PB_LTYPE (ftype field) = PB_LTYPE_FIXED32 then Some (True, 4 * count)
      else if PB_LTYPE (ftype field) = PB_LTYPE_FIXED64 then Some (True, 8 * count)
      else map_option (\<lambda>(ok, sizestream). (ok, bytes_written sizestream))
             (encode_items (\<lambda>s p. func s field p m) field (unat count) PB_OSTREAM_SIZING data))"

definition encode_array ::
  "'t enc_func \<Rightarrow> 't pb_ostream \<Rightarrow> pb_field \<Rightarrow> addr \<Rightarrow> size_t \<Rightarrow> mem \<Rightarrow> 't enc_result" where
  "encode_array func s field data count m =
     (if count = 0 then Some (True, s)
      else if PB_ATYPE (ftype field) \<noteq> PB_ATYPE_POINTER \<and> ucast (array_size field) < count
      then Some (False, oerror ''array max size exceeded'' s)
      else if PB_LTYPE (ftype field) \<le> PB_LTYPE_LAST_PACKABLE then
        and_then (Some (pb_encode_tag s PB_WT_STRING (tag field))) (\<lambda>s.
          case packed_size func field data count m of
            None \<Rightarrow> None
          | Some (False, sz) \<Rightarrow> Some (False, s)
          | Some (True, sz) \<Rightarrow>
              and_then (Some (pb_encode_varint s sz)) (\<lambda>s.
                if is_sizing s then Some (pb_write s [] sz)
                else encode_items (\<lambda>s p. func s field p m) field (unat count) s data))
      else
        encode_items (\<lambda>s p.
          and_then (Some (pb_encode_tag_for_field s field)) (\<lambda>s.
            if PB_ATYPE (ftype field) = PB_ATYPE_POINTER \<and>
               (PB_LTYPE (ftype field) = PB_LTYPE_STRING \<or> PB_LTYPE (ftype field) = PB_LTYPE_BYTES)
            then func s field (load_ptr m p) m
            else func s field p m)) field (unat count) s data)"

section \<open>The test for a proto3 default value\<close>

text \<open>The \<open>do ... while (pb_field_iter_next(&iter))\<close> loop over a submessage; \<open>check\<close> is the recursive call.\<close>

function check_fields :: "(pb_field \<Rightarrow> addr \<Rightarrow> bool option) \<Rightarrow> pb_field_iter \<Rightarrow> bool option" where
  "check_fields check it =
     (case check (cur it) (pData it) of
        None \<Rightarrow> None
      | Some zero \<Rightarrow>
          if \<not> zero then Some False
          else case pb_field_iter_next it of
                 (again, it') \<Rightarrow> if again then check_fields check it' else Some True)"
  by pat_completeness auto
termination
  by (relation "measure (\<lambda>(check, it). length (start it) - pos it)") (auto dest: next_more [OF sym])

declare check_fields.simps [simp del]

definition check_default_step :: "(addr \<Rightarrow> pb_field list) \<Rightarrow> (pb_field \<Rightarrow> addr \<Rightarrow> bool option) \<Rightarrow> mem \<Rightarrow>
    pb_field \<Rightarrow> addr \<Rightarrow> bool option" where
  "check_default_step d check m field data =
     (let type = ftype field; psize = data + scast (size_offset field) in
      if PB_HTYPE type = PB_HTYPE_REQUIRED then Some False
      else if PB_HTYPE type = PB_HTYPE_REPEATED \<and> size_offset field \<noteq> 0 then Some (load32 m psize = 0)
      else if PB_HTYPE type = PB_HTYPE_REPEATED \<and> PB_ATYPE type = PB_ATYPE_STATIC then Some False
      else if PB_HTYPE type = PB_HTYPE_ONEOF then Some (load32 m psize = 0)
      else if PB_HTYPE type = PB_HTYPE_OPTIONAL \<and> size_offset field \<noteq> 0 then Some (\<not> safe_read_bool m psize)
      else if PB_ATYPE type = PB_ATYPE_STATIC \<and> PB_LTYPE type = PB_LTYPE_BYTES then Some (load32 m data = 0)
      else if PB_ATYPE type = PB_ATYPE_STATIC \<and> PB_LTYPE type = PB_LTYPE_STRING then Some (mbytes m data = 0)
      else if PB_ATYPE type = PB_ATYPE_STATIC \<and> PB_LTYPE type = PB_LTYPE_FIXED_LENGTH_BYTES
      then Some (data_size field = 0)
      else if PB_ATYPE type = PB_ATYPE_STATIC \<and> PB_LTYPE type = PB_LTYPE_SUBMESSAGE then
        (if fptr field = 0 then None
         else case pb_field_iter_begin (d (fptr field)) data 0 of
                (nonempty, it) \<Rightarrow> if nonempty then check_fields check it else Some True)
      else if PB_ATYPE type = PB_ATYPE_POINTER \<and> PB_LTYPE_LAST_PACKABLE < PB_LTYPE type
      then Some (load_ptr m data = 0)
      else Some (list_all (\<lambda>b. b = 0) (load_bytes m data (unat (data_size field)))))"

primrec pb_check_proto3_default_value :: "nat \<Rightarrow> (addr \<Rightarrow> pb_field list) \<Rightarrow> mem \<Rightarrow> pb_field \<Rightarrow> addr \<Rightarrow> bool option" where
  "pb_check_proto3_default_value 0 d m = (\<lambda>field data. None)"
| "pb_check_proto3_default_value (Suc n) d m =
     check_default_step d (pb_check_proto3_default_value n d m) m"

section \<open>Fields\<close>

text \<open>
  \<open>n\<close> is the fuel of the recursions below this call.  \<open>has\<close> is what \<open>pSize\<close> points to when the field has no
  size field: the local variable \<open>implicit_has\<close>.
\<close>

definition encode_basic_field :: "'t enc_env \<Rightarrow> nat \<Rightarrow> 't enc_rec \<Rightarrow>
    't pb_ostream \<Rightarrow> pb_field \<Rightarrow> addr \<Rightarrow> mem \<Rightarrow> 't enc_result" where
  "encode_basic_field env n rec s field data m =
     (let type = ftype field;
          func = PB_ENCODERS env rec (PB_LTYPE type);
          psize = data + scast (size_offset field) in
      case (if size_offset field \<noteq> 0 then Some (safe_read_bool m psize)
            else if PB_HTYPE type = PB_HTYPE_OPTIONAL
            then map_option Not (pb_check_proto3_default_value n (descr env) m field data)
            else Some True) of
        None \<Rightarrow> None
      | Some has \<Rightarrow>
        let has = (if size_offset field = 0 \<and> PB_ATYPE type = PB_ATYPE_POINTER then load_ptr m data \<noteq> 0 else has);
            data = (if PB_ATYPE type = PB_ATYPE_POINTER then load_ptr m data else data)
        in
        if PB_HTYPE type = PB_HTYPE_REQUIRED then
          if data = 0 then Some (False, oerror ''missing required field'' s)
          else and_then (Some (pb_encode_tag_for_field s field)) (\<lambda>s. func s field data m)
        else if PB_HTYPE type = PB_HTYPE_OPTIONAL then
          if has then and_then (Some (pb_encode_tag_for_field s field)) (\<lambda>s. func s field data m)
          else Some (True, s)
        else if PB_HTYPE type = PB_HTYPE_REPEATED then
          encode_array func s field data
            (ucast (if size_offset field \<noteq> 0 then load32 m psize else array_size field)) m
        else
          if size_offset field = 0 then None
          else if load32 m psize = tag field
          then and_then (Some (pb_encode_tag_for_field s field)) (\<lambda>s. func s field data m)
          else Some (True, s))"

definition encode_callback_field :: "'t enc_env \<Rightarrow> 't pb_ostream \<Rightarrow> pb_field \<Rightarrow> addr \<Rightarrow> mem \<Rightarrow> 't enc_result" where
  "encode_callback_field env s field data m =
     (let encode = load_ptr m data in
      if encode = 0 then Some (True, s)
      else case enc_cb env encode s field (data + offsetof_callback_arg) m of
             None \<Rightarrow> None
           | Some (False, s) \<Rightarrow> Some (False, oerror ''callback error'' s)
           | Some (True, s) \<Rightarrow> Some (True, s))"

definition encode_field :: "'t enc_env \<Rightarrow> nat \<Rightarrow> 't enc_rec \<Rightarrow>
    't pb_ostream \<Rightarrow> pb_field \<Rightarrow> addr \<Rightarrow> mem \<Rightarrow> 't enc_result" where
  "encode_field env n rec s field data m =
     (if PB_ATYPE (ftype field) = PB_ATYPE_STATIC \<or> PB_ATYPE (ftype field) = PB_ATYPE_POINTER
      then encode_basic_field env n rec s field data m
      else if PB_ATYPE (ftype field) = PB_ATYPE_CALLBACK then encode_callback_field env s field data m
      else Some (False, oerror ''invalid field type'' s))"

section \<open>Extensions\<close>

text \<open>The field that an extension type points to with \<open>arg\<close>: the first entry of the array there.\<close>

definition extension_field :: "(addr \<Rightarrow> pb_field list) \<Rightarrow> addr \<Rightarrow> mem \<Rightarrow> pb_field" where
  "extension_field d ext m = field_at (extension_fields d ext m) 0"

definition default_extension_encoder :: "'t enc_env \<Rightarrow> nat \<Rightarrow> 't enc_rec \<Rightarrow>
    't pb_ostream \<Rightarrow> addr \<Rightarrow> mem \<Rightarrow> 't enc_result" where
  "default_extension_encoder env n rec s ext m =
     (let field = extension_field (descr env) ext m in
      if PB_ATYPE (ftype field) = PB_ATYPE_POINTER
      then encode_field env n rec s field (ext + offsetof_ext_dest) m
      else encode_field env n rec s field (load_ptr m (ext + offsetof_ext_dest)) m)"

text \<open>The \<open>while (extension)\<close> loop, with fuel for the length of the chain.\<close>

primrec encode_extensions :: "'t enc_env \<Rightarrow> nat \<Rightarrow> 't enc_rec \<Rightarrow> mem \<Rightarrow> nat \<Rightarrow>
    't pb_ostream \<Rightarrow> addr \<Rightarrow> 't enc_result" where
  "encode_extensions env n rec m 0 s ext = (if ext = 0 then Some (True, s) else None)"
| "encode_extensions env n rec m (Suc k) s ext =
     (if ext = 0 then Some (True, s)
      else
        let encode = load_ptr m (load_ptr m (ext + offsetof_ext_type) + offsetof_exttype_encode) in
        and_then (if encode \<noteq> 0 then ext_enc env encode s ext m
                  else default_extension_encoder env n rec s ext m)
          (\<lambda>s. encode_extensions env n rec m k s (load_ptr m (ext + offsetof_ext_next))))"

definition encode_extension_field :: "'t enc_env \<Rightarrow> nat \<Rightarrow> 't enc_rec \<Rightarrow>
    't pb_ostream \<Rightarrow> addr \<Rightarrow> mem \<Rightarrow> 't enc_result" where
  "encode_extension_field env n rec s data m = encode_extensions env n rec m n s (load_ptr m data)"

section \<open>Messages\<close>

function encode_fields :: "'t enc_env \<Rightarrow> nat \<Rightarrow> 't enc_rec \<Rightarrow> mem \<Rightarrow>
    pb_field_iter \<Rightarrow> 't pb_ostream \<Rightarrow> 't enc_result" where
  "encode_fields env n rec m it s =
     (case pb_field_iter_next it of
        (again, it') \<Rightarrow>
          and_then
            (if PB_LTYPE (ftype (cur it)) = PB_LTYPE_EXTENSION
             then encode_extension_field env n rec s (pData it) m
             else encode_field env n rec s (cur it) (pData it) m)
            (\<lambda>s. if again then encode_fields env n rec m it' s else Some (True, s)))"
  by pat_completeness auto
termination
  by (relation "measure (\<lambda>(env, n, rec, m, it, s). length (start it) - pos it)") (auto dest: next_more [OF sym])

declare encode_fields.simps [simp del]

definition encode_message :: "'t enc_env \<Rightarrow> nat \<Rightarrow> 't enc_rec \<Rightarrow> 't enc_rec" where
  "encode_message env n rec s fs src m =
     (case pb_field_iter_begin fs src 0 of
        (False, it) \<Rightarrow> Some (True, s)
      | (True, it) \<Rightarrow> encode_fields env n rec m it s)"

primrec pb_encode :: "nat \<Rightarrow> 't enc_env \<Rightarrow> 't enc_rec" where
  "pb_encode 0 env = (\<lambda>s fs src m. None)"
| "pb_encode (Suc n) env = encode_message env n (pb_encode n env)"

definition pb_encode_delimited :: "nat \<Rightarrow> 't enc_env \<Rightarrow> 't enc_rec" where
  "pb_encode_delimited n env = pb_encode_submessage (pb_encode n env)"

definition pb_encode_nullterminated :: "nat \<Rightarrow> 't enc_env \<Rightarrow> 't enc_rec" where
  "pb_encode_nullterminated n env s fs src m =
     and_then (pb_encode n env s fs src m) (\<lambda>s. Some (pb_write s [0] 1))"

definition pb_get_encoded_size :: "nat \<Rightarrow> 't enc_env \<Rightarrow> pb_field list \<Rightarrow> addr \<Rightarrow> mem \<Rightarrow> size_t option option" where
  "pb_get_encoded_size n env fs src m =
     map_option (\<lambda>(ok, stream). if ok then Some (bytes_written stream) else None)
       (pb_encode n env PB_OSTREAM_SIZING fs src m)"

end
