(* ===== verification/Pb_Reader.thy ===== *)
theory Pb_Reader
  imports Pb_IStream
begin

text \<open>
  The contract of every operation on a memory-buffer input stream.  A stream is well formed
  (\<open>wf_ibuf\<close>) when its buffer holds the \<open>bytes_left\<close> bytes it announces.  An operation at such a stream
  \<^item> consumes: it drops a prefix of at most \<open>bytes_left\<close> bytes and counts exactly these;
  \<^item> is local: bytes behind the end of the stream change neither its result nor its effect.
  The locale \<open>buf_reader\<close> states the contract and derives what the callers use; it is interpreted
  for every stream operation of \<open>pb_decode.c\<close>.
\<close>

section \<open>Well-formed buffer streams\<close>

definition wf_ibuf :: "'s pb_istream \<Rightarrow> bool" where
  "wf_ibuf s = (case isource s of BufRead bs \<Rightarrow> unat (bytes_left s) \<le> length bs | UserRead cb st \<Rightarrow> False)"

definition consumes :: "'s pb_istream \<Rightarrow> 's pb_istream \<Rightarrow> bool" where
  "consumes s s' =
     (case (isource s, isource s') of
        (BufRead bs, BufRead bs') \<Rightarrow>
          unat (bytes_left s') \<le> unat (bytes_left s) \<and>
          bs' = drop (unat (bytes_left s) - unat (bytes_left s')) bs
      | _ \<Rightarrow> False)"

definition extend :: "byte list \<Rightarrow> 's pb_istream \<Rightarrow> 's pb_istream" where
  "extend x s = (case isource s of BufRead bs \<Rightarrow> s\<lparr>isource := BufRead (bs @ x)\<rparr> | UserRead cb st \<Rightarrow> s)"

definition visible :: "'s pb_istream \<Rightarrow> byte list" where
  "visible s = (case isource s of BufRead bs \<Rightarrow> take (unat (bytes_left s)) bs | UserRead cb st \<Rightarrow> [])"

lemma wf_ibufE:
  assumes "wf_ibuf s"
  obtains bs where "isource s = BufRead bs" and "unat (bytes_left s) \<le> length bs"
  using assms by (auto simp: wf_ibuf_def split: pb_isource.splits)

lemma wf_ibuf_extend [simp]: "wf_ibuf s \<Longrightarrow> wf_ibuf (extend x s)"
  by (auto simp: wf_ibuf_def extend_def split: pb_isource.splits)

lemma extend_simps [simp]:
  "bytes_left (extend x s) = bytes_left s"
  "ierrmsg (extend x s) = ierrmsg s"
  "is_buf_read (extend x s) = is_buf_read s"
  "isource s = BufRead bs \<Longrightarrow> isource (extend x s) = BufRead (bs @ x)"
  "ierror msg (extend x s) = extend x (ierror msg s)"
  by (simp_all add: extend_def is_buf_read_def ierror_def split: pb_isource.splits)

lemma extend_bytes_left: "(extend x s)\<lparr>bytes_left := n\<rparr> = extend x (s\<lparr>bytes_left := n\<rparr>)"
  by (simp add: extend_def split: pb_isource.splits)

lemma wf_is_buf_read [simp]: "wf_ibuf s \<Longrightarrow> is_buf_read s"
  by (auto simp: wf_ibuf_def is_buf_read_def split: pb_isource.splits)

lemma visible_extend [simp]: "wf_ibuf s \<Longrightarrow> visible (extend x s) = visible s"
  by (erule wf_ibufE) (simp add: visible_def)

lemma length_visible: "wf_ibuf s \<Longrightarrow> length (visible s) = unat (bytes_left s)"
  by (erule wf_ibufE) (simp add: visible_def)

lemma consumes_refl [simp]: "wf_ibuf s \<Longrightarrow> consumes s s"
  by (erule wf_ibufE) (simp add: consumes_def)

lemma consumes_trans [trans]: "consumes s s' \<Longrightarrow> consumes s' s'' \<Longrightarrow> consumes s s''"
  by (auto simp: consumes_def split: pb_isource.splits)

lemma consumes_wf: "wf_ibuf s \<Longrightarrow> consumes s s' \<Longrightarrow> wf_ibuf s'"
  by (auto simp: consumes_def wf_ibuf_def split: pb_isource.splits)

lemma consumes_bytes_left: "consumes s s' \<Longrightarrow> unat (bytes_left s') \<le> unat (bytes_left s)"
  by (auto simp: consumes_def split: pb_isource.splits)

lemma consumes_ierror [simp]: "consumes s (ierror msg s') = consumes s s'"
  by (simp add: consumes_def split: pb_isource.splits)

lemma consumes_visible:
  assumes "wf_ibuf s" "consumes s s'"
  shows "visible s' = drop (unat (bytes_left s) - unat (bytes_left s')) (visible s)"
  using assms by (auto simp: consumes_def visible_def wf_ibuf_def take_drop split: pb_isource.splits)

section \<open>The contract\<close>

definition reads_at :: "('s pb_istream \<Rightarrow> 'r \<times> 's pb_istream) \<Rightarrow> 's pb_istream \<Rightarrow> bool" where
  "reads_at f s \<longleftrightarrow>
     (wf_ibuf s \<longrightarrow> consumes s (snd (f s)) \<and> (\<forall>x. f (extend x s) = apsnd (extend x) (f s)))"

lemma reads_atI:
  assumes "wf_ibuf s \<Longrightarrow> consumes s (snd (f s))"
    and "\<And>x. wf_ibuf s \<Longrightarrow> f (extend x s) = apsnd (extend x) (f s)"
  shows "reads_at f s"
  using assms by (auto simp: reads_at_def)

lemma reads_at_return [intro]: "reads_at (\<lambda>s. (r, s)) s"
  by (auto simp: reads_at_def)

lemma reads_at_error [intro]: "reads_at (\<lambda>s. (r, ierror msg s)) s"
  by (auto simp: reads_at_def)

lemma reads_at_bind [intro]:
  assumes f: "reads_at f s"
    and g: "\<And>a s'. f s = (a, s') \<Longrightarrow> reads_at (g a) s'"
  shows "reads_at (\<lambda>s. case f s of (a, s') \<Rightarrow> g a s') s"
proof (rule reads_atI)
  assume wf: "wf_ibuf s"
  obtain a s' where fs: "f s = (a, s')" by (cases "f s")
  from f wf fs have "consumes s s'" by (auto simp: reads_at_def)
  moreover from this wf g [OF fs] have "consumes s' (snd (g a s'))"
    by (auto simp: reads_at_def dest: consumes_wf)
  ultimately show "consumes s (snd (case f s of (a, s') \<Rightarrow> g a s'))"
    by (auto simp: fs intro: consumes_trans)
next
  fix x
  assume wf: "wf_ibuf s"
  obtain a s' where fs: "f s = (a, s')" by (cases "f s")
  from f wf fs have "wf_ibuf s'" and "f (extend x s) = (a, extend x s')"
    by (auto simp: reads_at_def dest: consumes_wf)
  with g [OF fs] show "(case f (extend x s) of (a, s') \<Rightarrow> g a s') =
      apsnd (extend x) (case f s of (a, s') \<Rightarrow> g a s')"
    by (simp add: fs reads_at_def)
qed

lemma reads_at_option [intro]:
  assumes "a = None \<Longrightarrow> reads_at f s" and "\<And>y. a = Some y \<Longrightarrow> reads_at (g y) s"
  shows "reads_at (\<lambda>s. case a of None \<Rightarrow> f s | Some y \<Rightarrow> g y s) s"
  using assms by (cases a) auto

lemma reads_at_prod [intro]:
  assumes "\<And>y z. a = (y, z) \<Longrightarrow> reads_at (g y z) s"
  shows "reads_at (\<lambda>s. case a of (y, z) \<Rightarrow> g y z s) s"
  using assms by (cases a) auto

lemma reads_at_if [intro]:
  assumes "\<And>x. wf_ibuf s \<Longrightarrow> P (extend x s) = P s"
    and "P s \<Longrightarrow> reads_at f s" and "\<not> P s \<Longrightarrow> reads_at g s"
  shows "reads_at (\<lambda>s. if P s then f s else g s) s"
  using assms by (auto simp: reads_at_def)

lemma reads_at_if_const [intro]:
  assumes "P \<Longrightarrow> reads_at f s" and "\<not> P \<Longrightarrow> reads_at g s"
  shows "reads_at (\<lambda>s. if P then f s else g s) s"
  using assms by auto

lemma reads_at_cong:
  assumes "\<And>s. f s = g s" and "reads_at g s"
  shows "reads_at f s"
  using assms by (simp add: reads_at_def)

locale buf_reader =
  fixes f :: "'s pb_istream \<Rightarrow> 'r \<times> 's pb_istream"
  assumes reads: "reads_at f s"
begin

lemma consumes: "wf_ibuf s \<Longrightarrow> consumes s (snd (f s))"
  using reads [of s] by (simp add: reads_at_def)

lemma wf: "wf_ibuf s \<Longrightarrow> wf_ibuf (snd (f s))"
  by (blast intro: consumes_wf consumes)

lemma bytes_left_le: "wf_ibuf s \<Longrightarrow> unat (bytes_left (snd (f s))) \<le> unat (bytes_left s)"
  by (blast intro: consumes_bytes_left consumes)

lemma visible_drop:
  "wf_ibuf s \<Longrightarrow> \<exists>k \<le> unat (bytes_left s). visible (snd (f s)) = drop k (visible s)"
  using consumes_visible [OF _ consumes] by (metis diff_le_self)

lemma extend: "wf_ibuf s \<Longrightarrow> f (extend x s) = apsnd (extend x) (f s)"
  using reads [of s] by (simp add: reads_at_def)

text \<open>Two buffers that agree on the announced bytes give the same result: nothing behind the end is read.\<close>

lemma no_overread:
  assumes "isource s = BufRead (bs @ x)" and "isource s' = BufRead (bs @ y)"
    and "bytes_left s = bytes_left s'" and "ierrmsg s = ierrmsg s'"
    and "unat (bytes_left s) \<le> length bs"
  shows "fst (f s) = fst (f s')"
proof -
  define t where "t = s\<lparr>isource := BufRead bs\<rparr>"
  have wf: "wf_ibuf t"
    using assms(5) by (simp add: wf_ibuf_def t_def)
  have "s = extend x t" and "s' = extend y t"
    using assms(1-4) by (simp_all add: extend_def t_def)
  then show ?thesis
    by (simp add: extend [OF wf])
qed

end


section \<open>The stream operations fulfil the contract\<close>

lemma reads_at_checked: "reads_at (\<lambda>s. pb_read_checked s count) s"
proof (rule reads_atI)
  assume "wf_ibuf s"
  then obtain bs where bs: "isource s = BufRead bs" "unat (bytes_left s) \<le> length bs"
    by (rule wf_ibufE)
  then show "consumes s (snd (pb_read_checked s count))"
    by (auto simp: pb_read_checked_def icallback_def buf_read_def consumes_def not_less
        word_le_nat_alt unat_sub)
next
  fix x
  assume "wf_ibuf s"
  then obtain bs where bs: "isource s = BufRead bs" "unat (bytes_left s) \<le> length bs"
    by (rule wf_ibufE)
  then show "pb_read_checked (extend x s) count = apsnd (extend x) (pb_read_checked s count)"
    by (auto simp: pb_read_checked_def icallback_def buf_read_def word_le_nat_alt word_less_nat_alt extend_def)
qed

lemma reads_at_readbyte: "reads_at pb_readbyte s"
proof (rule reads_atI)
  assume "wf_ibuf s"
  then obtain bs where bs: "isource s = BufRead bs" "unat (bytes_left s) \<le> length bs"
    by (rule wf_ibufE)
  then show "consumes s (snd (pb_readbyte s))"
    by (auto simp: pb_readbyte_def icallback_def buf_read_def consumes_def unat_minus_one unat_gt_0
        Suc_leI)
next
  fix x
  assume "wf_ibuf s"
  then obtain bs where bs: "isource s = BufRead bs" "unat (bytes_left s) \<le> length bs"
    by (rule wf_ibufE)
  moreover have "Suc 0 \<le> length bs" if "bytes_left s \<noteq> 0"
    using that bs by (metis Suc_leI le_trans unat_gt_0)
  ultimately show "pb_readbyte (extend x s) = apsnd (extend x) (pb_readbyte s)"
    by (auto simp: pb_readbyte_def icallback_def buf_read_def extend_def)
qed

lemma reads_at_read: "reads_at (\<lambda>s. pb_read s null count) s"
  unfolding pb_read_def
  by (auto simp: reads_at_def dest: reads_at_checked [unfolded reads_at_def, rule_format])

lemma reads_at_skip_result: "reads_at (\<lambda>s. case pb_read s null n of (r, s') \<Rightarrow> (r \<noteq> None, s')) s"
  by (rule reads_at_bind [OF reads_at_read]) auto

lemmas reader_step = reads_at_bind [OF reads_at_readbyte] reads_at_bind [OF reads_at_read]
  reads_at_option reads_at_if_const

lemma reads_at_varint32_loop: "reads_at (\<lambda>s. varint32_loop s bitpos result) s"
proof (induction s bitpos result rule: varint32_loop.induct)
  case (1 s bitpos result)
  show ?case
    by (rule reads_at_cong [OF varint32_loop.simps [unfolded Let_def]])
      (auto intro!: reader_step 1 [OF _ _ refl _ refl refl])
qed

lemma reads_at_varint64_loop: "reads_at (\<lambda>s. varint64_loop s bitpos result) s"
proof (induction s bitpos result rule: varint64_loop.induct)
  case (1 s bitpos result)
  show ?case
    by (rule reads_at_cong [OF varint64_loop.simps [unfolded Let_def]])
      (auto intro!: reader_step 1)
qed

lemma reads_at_skip_varint: "reads_at pb_skip_varint s"
proof (induction s rule: pb_skip_varint.induct)
  case (1 s)
  show ?case
    by (rule reads_at_cong [OF pb_skip_varint.simps]) (auto intro!: reader_step 1)
qed

lemma reads_at_raw_varint: "reads_at (\<lambda>s. read_raw_varint s room) s"
  by (induction room arbitrary: s) (auto intro!: reader_step reads_at_bind)

lemma reads_at_varint32_eof: "reads_at pb_decode_varint32_eof s"
  unfolding pb_decode_varint32_eof_def
  apply (rule reads_at_bind [OF reads_at_readbyte])
  apply (rule reads_at_option)
   apply (auto simp: reads_at_def)[1]
  apply (rule reads_at_if_const)
   apply blast
  apply (rule reads_at_bind [OF reads_at_varint32_loop])
  apply (auto intro!: reader_step)
  done

interpretation readbyte: buf_reader pb_readbyte
  by unfold_locales (rule reads_at_readbyte)

interpretation read: buf_reader "\<lambda>s. pb_read s null count" for null count
  by unfold_locales (rule reads_at_read)

interpretation varint32_eof: buf_reader pb_decode_varint32_eof
  by unfold_locales (rule reads_at_varint32_eof)

interpretation varint32: buf_reader pb_decode_varint32
  by unfold_locales
    (auto simp: pb_decode_varint32_def [abs_def] intro!: reads_at_bind [OF reads_at_varint32_eof])

interpretation varint: buf_reader pb_decode_varint
  by unfold_locales (simp add: pb_decode_varint_def [abs_def] reads_at_varint64_loop)

interpretation skip_varint: buf_reader pb_skip_varint
  by unfold_locales (rule reads_at_skip_varint)

interpretation skip_string: buf_reader pb_skip_string
  by unfold_locales
    (auto simp: pb_skip_string_def [abs_def]
      intro!: reads_at_bind [OF varint32.reads] reader_step)

interpretation decode_tag: buf_reader pb_decode_tag
  by unfold_locales
    (auto simp: pb_decode_tag_def [abs_def] intro!: reads_at_bind [OF reads_at_varint32_eof] reader_step)

interpretation skip_field: buf_reader "\<lambda>s. pb_skip_field s wt" for wt
  by unfold_locales
    (auto simp: pb_skip_field_def intro!: reader_step reads_at_skip_varint skip_string.reads)

interpretation read_raw: buf_reader "\<lambda>s. read_raw_value s wt max_size" for wt max_size
  by unfold_locales
    (auto simp: read_raw_value_def intro!: reader_step reads_at_read reads_at_raw_varint)

interpretation svarint: buf_reader pb_decode_svarint
  by unfold_locales
    (auto simp: pb_decode_svarint_def [abs_def] intro!: reads_at_bind [OF varint.reads] reader_step)

interpretation fixed32: buf_reader pb_decode_fixed32
  by unfold_locales (auto simp: pb_decode_fixed32_def [abs_def] intro!: reader_step)

interpretation fixed64: buf_reader pb_decode_fixed64
  by unfold_locales (auto simp: pb_decode_fixed64_def [abs_def] intro!: reader_step)

interpretation decode_bool: buf_reader pb_decode_bool
  by unfold_locales
    (auto simp: pb_decode_bool_def [abs_def] intro!: reads_at_bind [OF varint32.reads] reader_step)

end
