(* ===== verification/Pb_Writer.thy ===== *)
theory Pb_Writer
  imports Pb_OStream "HOL-Library.Sublist"
begin

text \<open>
  The contract of the encoding operations.  \<open>emits f out\<close>: on a sizing stream \<open>f\<close> counts the bytes of
  \<open>out\<close>; on a memory buffer with room it appends exactly \<open>out\<close>; without room it fails, having
  appended a prefix of \<open>out\<close> that fits.  The locale \<open>buf_writer\<close> derives what the callers use: the sizing
  pass announces the length of what the writing pass stores, and no write passes the end of the buffer.
\<close>

definition obuf :: "'s pb_ostream \<Rightarrow> byte list \<Rightarrow> 's pb_ostream" where
  "obuf s out =
     (case osink s of
        Sizing \<Rightarrow> s\<lparr>bytes_written := bytes_written s + of_nat (length out)\<rparr>
      | BufWrite w \<Rightarrow> s\<lparr>osink := BufWrite (w @ out), bytes_written := bytes_written s + of_nat (length out)\<rparr>
      | UserWrite cb st \<Rightarrow> s)"

definition is_buf_write :: "'s pb_ostream \<Rightarrow> bool" where
  "is_buf_write s = (case osink s of BufWrite w \<Rightarrow> True | Sizing \<Rightarrow> False | UserWrite cb st \<Rightarrow> False)"

definition wf_obuf :: "'s pb_ostream \<Rightarrow> bool" where
  "wf_obuf s \<longleftrightarrow> is_buf_write s \<and> bytes_written s \<le> max_size s"

definition has_room :: "'s pb_ostream \<Rightarrow> nat \<Rightarrow> bool" where
  "has_room s n \<longleftrightarrow> unat (bytes_written s) + n \<le> unat (max_size s)"

text \<open>What a failed run leaves: a prefix of the output that fits, and possibly an error message.\<close>

definition partial_write :: "'s pb_ostream \<Rightarrow> byte list \<Rightarrow> 's pb_ostream \<Rightarrow> bool" where
  "partial_write s out s' \<longleftrightarrow>
     (\<exists>p. prefix p out \<and> has_room s (length p) \<and>
          osink s' = osink (obuf s p) \<and> bytes_written s' = bytes_written (obuf s p) \<and>
          max_size s' = max_size s \<and> oerrmsg s' \<noteq> None)"

definition emits :: "('s pb_ostream \<Rightarrow> bool \<times> 's pb_ostream) \<Rightarrow> byte list \<Rightarrow> bool" where
  "emits f out \<longleftrightarrow>
     (\<forall>s. (is_sizing s \<longrightarrow> f s = (True, obuf s out)) \<and>
          (wf_obuf s \<longrightarrow>
             (if has_room s (length out) then f s = (True, obuf s out)
              else fst (f s) = False \<and> partial_write s out (snd (f s)))))"

lemma emitsI:
  assumes "\<And>s. is_sizing s \<Longrightarrow> f s = (True, obuf s out)"
    and "\<And>s. wf_obuf s \<Longrightarrow> has_room s (length out) \<Longrightarrow> f s = (True, obuf s out)"
    and "\<And>s. wf_obuf s \<Longrightarrow> \<not> has_room s (length out) \<Longrightarrow> fst (f s) = False \<and> partial_write s out (snd (f s))"
  shows "emits f out"
  using assms by (auto simp: emits_def)

section \<open>Facts about buffers\<close>

lemma is_sizing_iff: "is_sizing s \<longleftrightarrow> osink s = Sizing"
  by (simp add: is_sizing_def split: pb_osink.splits)

lemma is_buf_write_iff: "is_buf_write s \<longleftrightarrow> (\<exists>w. osink s = BufWrite w)"
  by (simp add: is_buf_write_def split: pb_osink.splits)

lemma is_sizing_obuf [simp]: "is_sizing (obuf s out) = is_sizing s"
  by (simp add: is_sizing_def obuf_def split: pb_osink.splits)

lemma is_buf_write_obuf [simp]: "is_buf_write (obuf s out) = is_buf_write s"
  by (simp add: is_buf_write_def obuf_def split: pb_osink.splits)

lemma max_size_obuf [simp]: "max_size (obuf s out) = max_size s"
  and oerrmsg_obuf [simp]: "oerrmsg (obuf s out) = oerrmsg s"
  by (simp_all add: obuf_def split: pb_osink.splits)

lemma obuf_Nil [simp]: "obuf s [] = s"
  by (simp add: obuf_def split: pb_osink.splits)

lemma obuf_append: "obuf (obuf s a) b = obuf s (a @ b)"
  by (simp add: obuf_def add.assoc split: pb_osink.splits)

lemma bytes_written_obuf:
  "is_sizing s \<or> is_buf_write s \<Longrightarrow> bytes_written (obuf s out) = bytes_written s + of_nat (length out)"
  by (auto simp: is_sizing_def is_buf_write_def obuf_def split: pb_osink.splits)

lemma unat_bytes_written_obuf:
  assumes "is_buf_write s" and "has_room s (length out)"
  shows "unat (bytes_written (obuf s out)) = unat (bytes_written s) + length out"
proof -
  have lt: "unat (bytes_written s) + length out < 2 ^ 64"
    using assms(2) unat_lt64 [of "max_size s"] by (simp add: has_room_def)
  then have "unat (of_nat (length out) :: size_t) = length out"
    by (intro unat_of_nat64) simp
  with lt show ?thesis
    by (simp add: bytes_written_obuf assms(1) unat_word_ariths)
qed

lemma wf_obuf_obuf: "wf_obuf s \<Longrightarrow> has_room s (length out) \<Longrightarrow> wf_obuf (obuf s out)"
  by (auto simp: wf_obuf_def word_le_nat_alt unat_bytes_written_obuf has_room_def)

lemma has_room_obuf:
  "is_buf_write s \<Longrightarrow> has_room s (length a) \<Longrightarrow> has_room (obuf s a) n = has_room s (length a + n)"
  by (simp add: has_room_def unat_bytes_written_obuf add.assoc)

lemma has_room_mono: "has_room s n \<Longrightarrow> m \<le> n \<Longrightarrow> has_room s m"
  by (simp add: has_room_def)

lemma has_room_0: "wf_obuf s \<Longrightarrow> has_room s 0"
  by (simp add: wf_obuf_def has_room_def word_le_nat_alt)

section \<open>Combining writers\<close>

lemma emits_return [intro]: "emits (\<lambda>s. (True, s)) []"
  by (rule emitsI) (auto simp: has_room_0)

lemma partial_write_mono:
  "partial_write s a s' \<Longrightarrow> partial_write s (a @ b) s'"
  unfolding partial_write_def by (meson prefix_prefix)

lemma partial_write_obuf:
  assumes "is_buf_write s" and "has_room s (length a)" and "partial_write (obuf s a) b s'"
  shows "partial_write s (a @ b) s'"
proof -
  obtain p where p: "prefix p b" "has_room (obuf s a) (length p)"
    "osink s' = osink (obuf (obuf s a) p)" "bytes_written s' = bytes_written (obuf (obuf s a) p)"
    "max_size s' = max_size s" "oerrmsg s' \<noteq> None"
    using assms(3) by (auto simp: partial_write_def)
  then have "prefix (a @ p) (a @ b)" "has_room s (length (a @ p))"
    using assms(1,2) by (simp_all add: has_room_obuf)
  with p show ?thesis
    unfolding partial_write_def by (intro exI [of _ "a @ p"]) (simp add: obuf_append)
qed

lemma emits_bind [intro]:
  fixes f g :: "'s pb_ostream \<Rightarrow> bool \<times> 's pb_ostream"
  assumes f: "emits f a" and g: "emits g b"
  shows "emits (\<lambda>s. case f s of (False, s') \<Rightarrow> (False, s') | (True, s') \<Rightarrow> g s') (a @ b)"
proof (rule emitsI)
  fix s :: "'s pb_ostream" assume "is_sizing s"
  with f g show "(case f s of (False, s') \<Rightarrow> (False, s') | (True, s') \<Rightarrow> g s') = (True, obuf s (a @ b))"
    by (simp add: emits_def obuf_append)
next
  fix s :: "'s pb_ostream" assume wf: "wf_obuf s" and room: "has_room s (length (a @ b))"
  from room have a: "has_room s (length a)" by (rule has_room_mono) simp
  from wf have buf: "is_buf_write s" by (simp add: wf_obuf_def)
  have "f s = (True, obuf s a)" using f wf a by (simp add: emits_def)
  moreover have "g (obuf s a) = (True, obuf (obuf s a) b)"
    using g wf_obuf_obuf [OF wf a] room by (simp add: emits_def has_room_obuf buf a)
  ultimately show "(case f s of (False, s') \<Rightarrow> (False, s') | (True, s') \<Rightarrow> g s') = (True, obuf s (a @ b))"
    by (simp add: obuf_append)
next
  fix s :: "'s pb_ostream" assume wf: "wf_obuf s" and room: "\<not> has_room s (length (a @ b))"
  from wf have buf: "is_buf_write s" by (simp add: wf_obuf_def)
  let ?h = "\<lambda>s. case f s of (False, s') \<Rightarrow> (False, s') | (True, s') \<Rightarrow> g s'"
  show "fst (?h s) = False \<and> partial_write s (a @ b) (snd (?h s))"
  proof (cases "has_room s (length a)")
    case True
    then have fs: "f s = (True, obuf s a)" using f wf by (simp add: emits_def)
    have "fst (g (obuf s a)) = False \<and> partial_write (obuf s a) b (snd (g (obuf s a)))"
      using g wf_obuf_obuf [OF wf True] room by (simp add: emits_def has_room_obuf buf True)
    then show ?thesis
      using partial_write_obuf [OF buf True] by (simp add: fs)
  next
    case False
    then have "fst (f s) = False" "partial_write s a (snd (f s))"
      using f wf by (auto simp: emits_def)
    then show ?thesis
      by (cases "f s") (simp add: partial_write_mono)
  qed
qed

locale buf_writer =
  fixes f :: "'s pb_ostream \<Rightarrow> bool \<times> 's pb_ostream" and out :: "byte list"
  assumes emits: "emits f out"
begin

lemma sizing: "is_sizing s \<Longrightarrow> f s = (True, obuf s out)"
  using emits by (simp add: emits_def)

lemma room: "wf_obuf s \<Longrightarrow> has_room s (length out) \<Longrightarrow> f s = (True, obuf s out)"
  using emits by (simp add: emits_def)

lemma full: "wf_obuf s \<Longrightarrow> \<not> has_room s (length out) \<Longrightarrow> fst (f s) = False \<and> partial_write s out (snd (f s))"
  using emits by (simp add: emits_def)

text \<open>Whether it succeeds or fails, a write stays inside the buffer and only appends.\<close>

lemma in_bounds:
  assumes "wf_obuf s"
  shows "\<exists>p. prefix p out \<and> osink (snd (f s)) = osink (obuf s p) \<and> has_room s (length p) \<and>
             wf_obuf (snd (f s))"
proof (cases "has_room s (length out)")
  case True
  then show ?thesis
    using assms by (intro exI [of _ out]) (simp add: room wf_obuf_obuf)
next
  case False
  then obtain p where p: "prefix p out" "has_room s (length p)"
    "osink (snd (f s)) = osink (obuf s p)" "bytes_written (snd (f s)) = bytes_written (obuf s p)"
    "max_size (snd (f s)) = max_size s"
    using full [OF assms] by (auto simp: partial_write_def)
  moreover have "wf_obuf (snd (f s))"
    using wf_obuf_obuf [OF assms p(2)] p(3-5) by (simp add: wf_obuf_def is_buf_write_def)
  ultimately show ?thesis by blast
qed

text \<open>The sizing pass announces the room that the writing pass needs and uses.\<close>

lemma size_pass:
  assumes "length out < 2 ^ 64"
  shows "unat (bytes_written (snd (f PB_OSTREAM_SIZING))) = length out"
  using assms
  by (simp add: sizing is_sizing_def PB_OSTREAM_SIZING_def obuf_def unat_of_nat64)

end

text \<open>\<open>written n bs\<close>: the state of a stream on a fresh buffer of \<open>n\<close> bytes after \<open>bs\<close> was written into it.\<close>

definition written :: "size_t \<Rightarrow> byte list \<Rightarrow> 's pb_ostream" where
  "written n bs = (pb_ostream_from_buffer n)\<lparr>osink := BufWrite bs, bytes_written := of_nat (length bs)\<rparr>"

context buf_writer begin

lemma fresh:
  assumes "length out \<le> unat n"
  shows "f (pb_ostream_from_buffer n) = (True, written n out)"
proof -
  have "wf_obuf (pb_ostream_from_buffer n :: 's pb_ostream)" "has_room (pb_ostream_from_buffer n :: 's pb_ostream) (length out)"
    using assms by (simp_all add: wf_obuf_def is_buf_write_def has_room_def pb_ostream_from_buffer_def)
  then show ?thesis
    by (simp add: room) (simp add: obuf_def pb_ostream_from_buffer_def written_def)
qed

lemma fresh_full:
  assumes "unat n < length out"
  shows "fst (f (pb_ostream_from_buffer n)) = False \<and>
    (\<exists>p. prefix p out \<and> length p \<le> unat n \<and> osink (snd (f (pb_ostream_from_buffer n))) = BufWrite p)"
proof -
  have "wf_obuf (pb_ostream_from_buffer n :: 's pb_ostream)" "\<not> has_room (pb_ostream_from_buffer n :: 's pb_ostream) (length out)"
    using assms by (simp_all add: wf_obuf_def is_buf_write_def has_room_def pb_ostream_from_buffer_def)
  from full [OF this] show ?thesis
    by (auto simp: partial_write_def has_room_def obuf_def pb_ostream_from_buffer_def)
qed

end

section \<open>The stream operations fulfil the contract\<close>

lemma count_wraps:
  "\<not> (bytes_written s + count < bytes_written s \<or> max_size s < bytes_written s + count) \<longleftrightarrow>
     has_room s (unat count)" if "wf_obuf s"
proof -
  have le: "unat (bytes_written s) \<le> unat (max_size s)"
    using that by (simp add: wf_obuf_def word_le_nat_alt)
  show ?thesis
  proof (cases "unat (bytes_written s) + unat count < 2 ^ 64")
    case True
    then have "unat (bytes_written s + count) = unat (bytes_written s) + unat count"
      by (simp add: unat_word_ariths)
    then show ?thesis
      by (simp add: has_room_def word_less_nat_alt not_less)
  next
    case False
    then have "\<not> has_room s (unat count)"
      using unat_lt64 [of "max_size s"] by (simp add: has_room_def)
    moreover have "bytes_written s + count < bytes_written s"
    proof -
      have "unat (bytes_written s + count) = unat (bytes_written s) + unat count - 2 ^ 64"
        using False unat_lt64 [of count] unat_lt64 [of "bytes_written s"]
        by (simp add: unat_word_ariths mod_if)
      then show ?thesis
        using False unat_lt64 [of count] by (simp add: word_less_nat_alt)
    qed
    ultimately show ?thesis by blast
  qed
qed

lemma emits_write: "emits (\<lambda>s. pb_write s buf count) (buf_take (unat count) buf)"
proof (rule emitsI)
  fix s :: "'s pb_ostream" assume "is_sizing s"
  then show "pb_write s buf count = (True, obuf s (buf_take (unat count) buf))"
    by (simp add: pb_write_def obuf_def is_sizing_iff)
next
  fix s :: "'s pb_ostream"
  assume wf: "wf_obuf s" and room: "has_room s (length (buf_take (unat count) buf))"
  then obtain w where w: "osink s = BufWrite w" by (auto simp: wf_obuf_def is_buf_write_iff)
  show "pb_write s buf count = (True, obuf s (buf_take (unat count) buf))"
  proof (cases "count = 0")
    case False
    then have "0 < count" by (simp add: word_gt_0)
    with room w show ?thesis
      using count_wraps [OF wf, of count]
      by (simp add: pb_write_def is_sizing_iff ocallback_def buf_write_def obuf_def)
  qed (use w in \<open>simp add: pb_write_def\<close>)
next
  fix s :: "'s pb_ostream"
  assume wf: "wf_obuf s" and full: "\<not> has_room s (length (buf_take (unat count) buf))"
  then obtain w where w: "osink s = BufWrite w" by (auto simp: wf_obuf_def is_buf_write_iff)
  have "count \<noteq> 0" using full wf by (auto simp: has_room_0)
  then have "0 < count" by (simp add: word_gt_0)
  then have "pb_write s buf count = (False, oerror ''stream full'' s)"
    using full w count_wraps [OF wf, of count] by (auto simp: pb_write_def is_sizing_iff)
  moreover have "partial_write s (buf_take (unat count) buf) (oerror ''stream full'' s)"
    unfolding partial_write_def
    by (intro exI [of _ "[]"]) (simp add: has_room_0 wf oerror_def)
  ultimately show "fst (pb_write s buf count) = False \<and>
      partial_write s (buf_take (unat count) buf) (snd (pb_write s buf count))"
    by simp
qed

lemma emits_write_list: "length buf < 2 ^ 64 \<Longrightarrow> emits (\<lambda>s. pb_write s buf (of_nat (length buf))) buf"
  using emits_write [of buf "of_nat (length buf)"] by (simp add: unat_of_nat64)

end
