(* ===== verification/Pb_Varint.thy ===== *)
theory Pb_Varint
  imports Pb_Reader Pb_Writer
begin

text \<open>
  Base-128 varints: the abstract encoding \<open>varint_enc\<close> (groups of seven bits, least significant first,
  the top bit of a byte set when another byte follows), the proof that \<open>pb_encode_varint\<close> emits it, and
  the proofs that the 32-bit and 64-bit decoders read it back.
\<close>

section \<open>The abstract encoding\<close>

function varint_enc :: "u64 \<Rightarrow> byte list" where
  "varint_enc v = (if v \<le> 0x7F then [ucast v]
                   else (ucast (v AND 0x7F) OR 0x80) # varint_enc (drop_bit 7 v))"
  by pat_completeness auto
termination
  by (relation "measure unat") (auto intro: unat_drop_bit_less)

declare varint_enc.simps [simp del]

text \<open>One byte of the encoding, with and without the continuation bit.\<close>

definition more_byte :: "u64 \<Rightarrow> byte" where
  "more_byte v = ucast (v AND 0x7F) OR 0x80"

lemma le_0x7F_bits: "(v :: u64) \<le> 0x7F \<longleftrightarrow> drop_bit 7 v = 0"
proof -
  have "unat (drop_bit 7 v) = unat v div 128"
    by (simp only: unat_drop_bit_eq drop_bit_eq_div [where 'a = nat]) simp
  then have "drop_bit 7 v = 0 \<longleftrightarrow> unat v div 128 = 0"
    by (metis unat_eq_zero)
  also have "\<dots> \<longleftrightarrow> v \<le> 0x7F"
    by (simp add: word_le_nat_alt) arith
  finally show ?thesis by simp
qed

lemma le_0x7F_bit: "(v :: u64) \<le> 0x7F \<Longrightarrow> bit v n \<Longrightarrow> n < 7"
proof (rule ccontr)
  assume "v \<le> 0x7F" and b: "bit v n" and "\<not> n < 7"
  then have "bit (drop_bit 7 v) (n - 7)"
    by (simp add: bit_drop_bit_eq)
  with \<open>v \<le> 0x7F\<close> show False by (simp add: le_0x7F_bits)
qed

lemma varint_enc_small: "v \<le> 0x7F \<Longrightarrow> varint_enc v = [ucast v]"
  and varint_enc_more: "\<not> v \<le> 0x7F \<Longrightarrow> varint_enc v = more_byte v # varint_enc (drop_bit 7 v)"
  by (simp_all add: varint_enc.simps [of v] more_byte_def)

lemma bit_0x80': "bit (0x80 :: byte) n \<longleftrightarrow> n = 7"
  by (rule bit_0x80_byte)

lemma bit_more_byte: "bit (more_byte v) n \<longleftrightarrow> n = 7 \<or> (n < 7 \<and> bit v n)"
  unfolding more_byte_def bit_or_iff bit_0x80_byte and_0x7F
  by (auto simp: bit_simps)

lemma more_byte_and [simp]:
  "ucast (more_byte v AND 0x7F) = take_bit 7 v"
  "more_byte v AND 0x80 \<noteq> 0"
  "more_byte v AND 0x80 = 0 \<longleftrightarrow> False"
proof -
  show "ucast (more_byte v AND 0x7F) = take_bit 7 v"
    by (rule bit_eqI) (auto simp: and_0x7F bit_simps bit_more_byte)
  show "more_byte v AND 0x80 \<noteq> 0" "more_byte v AND 0x80 = 0 \<longleftrightarrow> False"
    by (simp_all add: and_0x80_eq_0 bit_more_byte)
qed

lemma last_byte_and:
  fixes v :: u64
  assumes "v \<le> 0x7F"
  shows "(ucast v :: byte) AND 0x80 = 0" and "ucast ((ucast v :: byte) AND 0x7F) = v"
proof -
  show "(ucast v :: byte) AND 0x80 = 0"
    using le_0x7F_bit [OF assms, of 7] by (auto simp: and_0x80_eq_0 bit_simps)
  show "ucast ((ucast v :: byte) AND 0x7F) = v"
  proof (rule bit_eqI)
    fix n
    show "bit (ucast ((ucast v :: byte) AND 0x7F) :: u64) n = bit v n"
      using le_0x7F_bit [OF assms, of n] by (auto simp: and_0x7F bit_simps)
  qed
qed

lemma varint_enc_nonempty [simp]: "varint_enc v \<noteq> []"
  by (cases "v \<le> 0x7F") (simp_all add: varint_enc_small varint_enc_more)

lemma length_varint_enc: "drop_bit (7 * n) v = 0 \<Longrightarrow> 0 < n \<Longrightarrow> length (varint_enc v) \<le> n"
proof (induction n arbitrary: v)
  case (Suc n)
  show ?case
  proof (cases "v \<le> 0x7F")
    case False
    then have n: "0 < n" using Suc.prems by (cases n) (auto simp: le_0x7F_bits)
    have "drop_bit (7 * n) (drop_bit 7 v) = 0" using Suc.prems by (simp add: add.commute)
    from Suc.IH [OF this n] False show ?thesis by (simp add: varint_enc_more)
  qed (simp add: varint_enc_small)
qed simp

lemma drop_bit_beyond: "64 \<le> n \<Longrightarrow> drop_bit n (v :: u64) = 0"
  by (rule bit_eqI) (auto simp: bit_simps)

lemma length_varint_enc_le10: "length (varint_enc v) \<le> 10"
  by (rule length_varint_enc) (simp_all add: drop_bit_beyond)

section \<open>The encoder emits it\<close>

lemma varint_buffer_last:
  "v \<noteq> 0 \<Longrightarrow> varint_buffer v \<noteq> [] \<and>
     (varint_buffer v)[length (varint_buffer v) - 1 := varint_buffer v ! (length (varint_buffer v) - 1) AND 0x7F]
       = varint_enc v"
proof (induction v rule: varint_buffer.induct)
  case (1 v)
  have unfold: "varint_buffer v = more_byte v # varint_buffer (drop_bit 7 v)"
    using "1.prems" by (simp add: varint_buffer.simps [of v] more_byte_def)
  show ?case
  proof (cases "v \<le> 0x7F")
    case True
    then have 0: "drop_bit 7 v = 0" by (simp add: le_0x7F_bits)
    have "more_byte v AND 0x7F = ucast v"
      using le_0x7F_bit [OF True]
      by (intro bit_eqI) (auto simp: and_0x7F bit_take_bit_iff bit_more_byte bit_ucast_iff)
    with True 0 show ?thesis
      by (simp add: unfold varint_enc_small varint_buffer.simps [of 0])
  next
    case False
    then have nz: "drop_bit 7 v \<noteq> 0" by (simp add: le_0x7F_bits)
    from "1.IH" [OF "1.prems" nz] have IH: "varint_buffer (drop_bit 7 v) \<noteq> []"
      "(varint_buffer (drop_bit 7 v))[length (varint_buffer (drop_bit 7 v)) - 1 :=
          varint_buffer (drop_bit 7 v) ! (length (varint_buffer (drop_bit 7 v)) - 1) AND 0x7F]
        = varint_enc (drop_bit 7 v)"
      by auto
    then obtain k where k: "length (varint_buffer (drop_bit 7 v)) = Suc k"
      by (cases "varint_buffer (drop_bit 7 v)") auto
    with IH(2) False show ?thesis
      by (simp add: unfold varint_enc_more)
  qed
qed


theorem emits_varint: "emits (\<lambda>s. pb_encode_varint s v) (varint_enc v)"
proof (cases "v \<le> 0x7F")
  case True
  then show ?thesis
    using emits_write_list [of "[ucast v]"] by (simp add: pb_encode_varint_def varint_enc_small)
next
  case False
  then have "v \<noteq> 0" by auto
  from varint_buffer_last [OF this]
  have last: "(varint_buffer v)[length (varint_buffer v) - 1 :=
      varint_buffer v ! (length (varint_buffer v) - 1) AND 0x7F] = varint_enc v"
    by blast
  then have len: "length (varint_buffer v) = length (varint_enc v)"
    by (metis length_list_update)
  then have "length (varint_enc v) < 2 ^ 64"
    using length_varint_enc_le10 [of v] by simp
  from emits_write_list [OF this] False show ?thesis
    by (simp add: pb_encode_varint_def Let_def last [unfolded len One_nat_def] len)
qed

section \<open>Reading a byte of a buffer\<close>

text \<open>\<open>buf_skip k s\<close>: the buffer stream after its next \<open>k\<close> bytes.\<close>

definition buf_skip :: "nat \<Rightarrow> 's pb_istream \<Rightarrow> 's pb_istream" where
  "buf_skip k s = (case isource s of
      BufRead bs \<Rightarrow> s\<lparr>isource := BufRead (drop k bs), bytes_left := bytes_left s - of_nat k\<rparr>
    | UserRead cb st \<Rightarrow> s)"

lemma buf_skip_0 [simp]: "buf_skip 0 s = s"
  by (simp add: buf_skip_def split: pb_isource.splits)

lemma buf_skip_add: "buf_skip k (buf_skip n s) = buf_skip (n + k) s"
  by (simp add: buf_skip_def diff_diff_eq add.commute split: pb_isource.splits)

lemma ierrmsg_buf_skip [simp]: "ierrmsg (buf_skip k s) = ierrmsg s"
  by (simp add: buf_skip_def split: pb_isource.splits)

lemma visible_buf_skip:
  assumes "wf_ibuf s" and "k \<le> unat (bytes_left s)"
  shows "visible (buf_skip k s) = drop k (visible s)"
    and "unat (bytes_left (buf_skip k s)) = unat (bytes_left s) - k"
    and "wf_ibuf (buf_skip k s)"
proof -
  obtain bs where bs: "isource s = BufRead bs" "unat (bytes_left s) \<le> length bs"
    using assms(1) by (rule wf_ibufE)
  have k: "unat (of_nat k :: size_t) = k"
    using assms(2) unat_lt64 [of "bytes_left s"] by (simp add: unat_of_nat64)
  then have "of_nat k \<le> bytes_left s"
    using assms(2) by (simp add: word_le_nat_alt)
  then show left: "unat (bytes_left (buf_skip k s)) = unat (bytes_left s) - k"
    using bs k by (simp add: buf_skip_def unat_sub)
  show "visible (buf_skip k s) = drop k (visible s)"
    using left bs by (simp add: visible_def buf_skip_def drop_take)
  show "wf_ibuf (buf_skip k s)"
    using left bs by (simp add: wf_ibuf_def buf_skip_def)
qed

lemma visible_nonempty:
  assumes "visible s = b # bs" and "wf_ibuf s"
  shows "bytes_left s \<noteq> 0"
  using assms by (auto simp: length_visible [symmetric] unat_eq_zero [symmetric])

lemma pb_readbyte_visible:
  assumes "wf_ibuf s" and "visible s = b # bs"
  shows "pb_readbyte s = (Some b, buf_skip 1 s)"
proof -
  obtain ds where ds: "isource s = BufRead ds" "unat (bytes_left s) \<le> length ds"
    using assms(1) by (rule wf_ibufE)
  moreover from this assms(2) obtain ds' where "ds = b # ds'"
    by (cases ds) (auto simp: visible_def take_Cons' split: if_splits)
  ultimately show ?thesis
    using visible_nonempty [OF assms(2,1)]
    by (simp add: pb_readbyte_def icallback_def buf_read_def buf_skip_def)
qed

lemma pb_readbyte_end:
  "wf_ibuf s \<Longrightarrow> visible s = [] \<Longrightarrow> pb_readbyte s = (None, ierror ''end-of-stream'' s)"
  using length_visible [of s] by (simp add: pb_readbyte_def unat_eq_zero)

section \<open>The 64-bit decoder reads it back\<close>

lemma u8_of_nat: "n < 256 \<Longrightarrow> unat (of_nat n :: u8) = n"
  by (simp add: unat_of_nat take_bit_nat_eq_self)

lemma u8_le_of_nat: "n < 256 \<Longrightarrow> numeral k \<le> (of_nat n :: u8) \<longleftrightarrow> unat (numeral k :: u8) \<le> n"
  by (simp only: word_le_nat_alt u8_of_nat)

lemma take_bit_group:
  "take_bit p (v :: u64) OR push_bit p (take_bit 7 (drop_bit p v)) = take_bit (p + 7) v"
  by (rule bit_eqI) (auto simp: bit_simps)

lemma take_bit_last_group:
  "take_bit p (v :: u64) OR push_bit p (drop_bit p v) = v"
proof (rule bit_eqI)
  fix n
  show "bit (take_bit p v OR push_bit p (drop_bit p v)) n = bit v n"
    by (cases "n < p") (auto simp: bit_simps dest: bit_imp_le_length)
qed

lemma varint64_loop_enc:
  assumes "wf_ibuf s" and "visible s = varint_enc (drop_bit p v) @ rest" and "p < 64"
  shows "varint64_loop s (of_nat p) (take_bit p v) =
    (Some v, buf_skip (length (varint_enc (drop_bit p v))) s)"
  using assms
proof (induction "drop_bit p v" arbitrary: p s rule: varint_enc.induct)
  case 1
  have p: "unat (of_nat p :: u8) = p" "\<not> (64 :: u8) \<le> of_nat p"
    using 1(4) by (simp_all add: u8_of_nat u8_le_of_nat)
  show ?case
  proof (cases "drop_bit p v \<le> 0x7F")
    case True
    then have "visible s = ucast (drop_bit p v) # rest"
      using 1(3) by (simp add: varint_enc_small)
    from pb_readbyte_visible [OF 1(2) this] True p show ?thesis
      by (subst varint64_loop.simps)
        (simp add: last_byte_and varint_enc_small take_bit_last_group Let_def)
  next
    case False
    then have nz: "drop_bit 7 (drop_bit p v) \<noteq> 0" by (simp add: le_0x7F_bits)
    have lt: "p + 7 < 64"
    proof (rule ccontr)
      assume "\<not> p + 7 < 64"
      then have "drop_bit (7 + p) v = 0" by (intro drop_bit_beyond) simp
      with nz show False by simp
    qed
    have vis: "visible s = more_byte (drop_bit p v) # varint_enc (drop_bit 7 (drop_bit p v)) @ rest"
      using 1(3) False by (simp add: varint_enc_more)
    have left: "1 \<le> unat (bytes_left s)"
      using visible_nonempty [OF vis 1(2)] by (simp add: Suc_leI unat_gt_0)
    note sk = visible_buf_skip [OF 1(2) left]
    have "varint64_loop (buf_skip 1 s) (of_nat (p + 7)) (take_bit (p + 7) v) =
        (Some v, buf_skip (length (varint_enc (drop_bit (p + 7) v))) (buf_skip 1 s))"
      using 1(1) [OF False _ sk(3) _ lt] sk(1) vis by (simp add: add.commute)
    then show ?thesis
      using pb_readbyte_visible [OF 1(2) vis] p False
      by (subst varint64_loop.simps)
        (simp add: Let_def take_bit_group varint_enc_more buf_skip_add add.commute)
  qed
qed

theorem pb_decode_varint_enc:
  assumes "wf_ibuf s" and "visible s = varint_enc v @ rest"
  shows "pb_decode_varint s = (Some v, buf_skip (length (varint_enc v)) s)"
  using varint64_loop_enc [of s 0 v rest] assms by (simp add: pb_decode_varint_def)

end
