(* ===== verification/Pb_Varint32.thy ===== *)
theory Pb_Varint32
  imports Pb_Varint
begin

text \<open>
  What \<open>pb_decode_varint32\<close> makes of the encoding of a 64-bit value: the bytes up to bit 28 are collected
  into the result, the fifth byte is checked when it is the last one, and every later byte must be empty
  or continue the sign of a negative 32-bit value (\<open>sign_tail\<close>).
\<close>

section \<open>The bytes from bit 35 on\<close>

function sign_tail :: "nat \<Rightarrow> bool \<Rightarrow> u64 \<Rightarrow> bool" where
  "sign_tail p neg u =
     ((take_bit 7 u = 0 \<or> neg \<and> (if p < 63 then take_bit 7 u = 0x7F \<and> \<not> u \<le> 0x7F else u = 1)) \<and>
      (if u \<le> 0x7F then True else sign_tail (p + 7) neg (drop_bit 7 u)))"
  by pat_completeness auto
termination
  by (relation "measure (\<lambda>(p, neg, u). unat u)") (auto intro: unat_drop_bit_less)

declare sign_tail.simps [simp del]

definition varint32_accepts :: "u64 \<Rightarrow> bool" where
  "varint32_accepts v =
     (if drop_bit 35 v = 0 then drop_bit 32 v = 0 else sign_tail 35 (bit v 31) (drop_bit 35 v))"

lemma more_byte_eq_0xFF: "more_byte u = 0xFF \<longleftrightarrow> take_bit 7 u = 0x7F"
proof
  assume "more_byte u = 0xFF"
  then have "take_bit 7 u = ucast ((0xFF :: byte) AND 0x7F)"
    by (metis more_byte_and(1))
  then show "take_bit 7 u = 0x7F" by simp
next
  assume "take_bit 7 u = 0x7F"
  then show "more_byte u = 0xFF" by (simp add: more_byte_def and_0x7F)
qed

lemma last_byte_eq_1: "u \<le> 0x7F \<Longrightarrow> (ucast (u :: u64) :: byte) = 1 \<longleftrightarrow> u = 1"
proof
  assume u: "u \<le> 0x7F" "(ucast u :: byte) = 1"
  then have "u = ucast ((1 :: byte) AND 0x7F)"
    using last_byte_and(2) [OF u(1)] by simp
  then show "u = 1" by simp
qed simp

lemma last_byte_neq_0xFF: "u \<le> 0x7F \<Longrightarrow> (ucast (u :: u64) :: byte) \<noteq> 0xFF"
  using last_byte_and(1) [of u] by auto

lemma more_byte_neq_1: "more_byte u \<noteq> 1"
proof
  assume eq: "more_byte u = 1"
  have "more_byte u AND 0x80 = 0" unfolding eq by simp
  then show False by simp
qed

lemma drop_bit_31_eq_0: "drop_bit 31 (r :: u32) = 0 \<longleftrightarrow> \<not> bit r 31"
proof
  assume "drop_bit 31 r = 0"
  then have "\<not> bit (drop_bit 31 r) 0" by simp
  then show "\<not> bit r 31" by (simp add: bit_drop_bit_eq)
next
  assume r: "\<not> bit r 31"
  show "drop_bit 31 r = 0"
  proof (rule bit_eqI)
    fix n
    show "bit (drop_bit 31 r) n = bit (0 :: u32) n"
      using r bit_imp_le_length [of r "31 + n"] by (cases n) (auto simp: bit_drop_bit_eq)
  qed
qed

lemma more_byte_empty: "more_byte u AND 0x7F = 0 \<longleftrightarrow> take_bit 7 u = 0"
proof
  assume "more_byte u AND 0x7F = 0"
  then show "take_bit 7 u = 0" using more_byte_and(1) [of u] by simp
next
  assume "take_bit 7 u = 0"
  then show "more_byte u AND 0x7F = 0" by (simp add: more_byte_def and_0x7F [of u])
qed

lemma last_byte_empty: "u \<le> 0x7F \<Longrightarrow> (ucast (u :: u64) :: byte) AND 0x7F = 0 \<longleftrightarrow> u = 0"
  using last_byte_and(2) [of u] by (metis and_zero_eq bit.conj_zero_left unsigned_0)

lemma small_take_bit: "u \<le> 0x7F \<Longrightarrow> take_bit 7 (u :: u64) = u"
proof -
  assume "u \<le> 0x7F"
  then have "drop_bit 7 u = 0" by (simp add: le_0x7F_bits)
  then show ?thesis using bits_ident [of 7 u] by simp
qed

lemma varint32_loop_tail:
  assumes "wf_ibuf s" and "visible s = varint_enc (drop_bit p v) @ rest"
    and "35 \<le> p" and "p < 64" and "7 dvd p"
  shows "if sign_tail p (bit r 31) (drop_bit p v)
     then \<exists>b p'. p' \<noteq> 35 \<and> varint32_loop s (of_nat p) r =
            (Some (r, p', b), buf_skip (length (varint_enc (drop_bit p v))) s)
     else \<exists>k. varint32_loop s (of_nat p) r = (None, ierror ''varint overflow'' (buf_skip k s))"
  using assms
proof (induction "drop_bit p v" arbitrary: p s rule: varint_enc.induct)
  case 1
  define u where "u = drop_bit p v"
  have p: "unat (of_nat p :: u8) = p" "(32 :: u8) \<le> of_nat p" "(of_nat p :: u8) < 63 \<longleftrightarrow> p < 63"
    using 1(4,5) by (simp_all add: u8_of_nat u8_le_of_nat word_less_nat_alt)
  have p7: "(of_nat p :: u8) + 7 = of_nat (p + 7)" by simp
  show ?case
  proof (cases "u \<le> 0x7F")
    case True
    have "visible s = ucast u # rest"
      using 1(3) True by (simp add: varint_enc_small u_def)
    note rb = pb_readbyte_visible [OF 1(2) this]
    have "unat (of_nat (p + 7) :: u8) = p + 7"
      using 1(5) by (intro u8_of_nat) simp
    then have p': "(of_nat (p + 7) :: u8) \<noteq> 35"
      using 1(4) by auto
    have "varint32_loop s (of_nat p) r =
        (if u = 0 \<or> bit r 31 \<and> \<not> p < 63 \<and> u = 1
         then (Some (r, of_nat (p + 7), ucast u), buf_skip 1 s)
         else (None, ierror ''varint overflow'' (buf_skip 1 s)))"
      using rb True p
      by (simp add: varint32_loop.simps [of s "of_nat p" r] Let_def last_byte_and last_byte_empty
          last_byte_eq_1 last_byte_neq_0xFF drop_bit_31_eq_0)
    with True p' show ?thesis
      unfolding u_def [symmetric]
      by (auto simp: sign_tail.simps [of p _ u] varint_enc_small small_take_bit)
  next
    case False
    have nz: "drop_bit 7 u \<noteq> 0" using False by (simp add: le_0x7F_bits)
    have lt: "p + 7 < 64"
    proof (rule ccontr)
      assume "\<not> p + 7 < 64"
      then have "drop_bit (7 + p) v = 0" by (intro drop_bit_beyond) simp
      with nz show False by (simp add: u_def)
    qed
    have vis: "visible s = more_byte u # varint_enc (drop_bit (p + 7) v) @ rest"
      using 1(3) False by (simp add: varint_enc_more u_def add.commute)
    have left: "1 \<le> unat (bytes_left s)"
      using visible_nonempty [OF vis 1(2)] by (simp add: Suc_leI unat_gt_0)
    note sk = visible_buf_skip [OF 1(2) left]
    have visk: "visible (buf_skip 1 s) = varint_enc (drop_bit (p + 7) v) @ rest"
      using sk(1) vis by simp
    have 63: "p < 63" using lt by simp
    have step: "varint32_loop s (of_nat p) r =
        (if take_bit 7 u = 0 \<or> bit r 31 \<and> take_bit 7 u = 0x7F
         then varint32_loop (buf_skip 1 s) (of_nat (p + 7)) r
         else (None, ierror ''varint overflow'' (buf_skip 1 s)))"
      using pb_readbyte_visible [OF 1(2) vis] p 63
      by (simp add: varint32_loop.simps [of s "of_nat p" r] Let_def more_byte_empty more_byte_eq_0xFF
          drop_bit_31_eq_0)
    have IH: "if sign_tail (p + 7) (bit r 31) (drop_bit 7 u)
       then \<exists>b p'. p' \<noteq> 35 \<and> varint32_loop (buf_skip 1 s) (of_nat (p + 7)) r =
              (Some (r, p', b), buf_skip (length (varint_enc (drop_bit 7 u))) (buf_skip 1 s))
       else \<exists>k. varint32_loop (buf_skip 1 s) (of_nat (p + 7)) r =
              (None, ierror ''varint overflow'' (buf_skip k (buf_skip 1 s)))"
      using 1(1) [OF False [unfolded u_def], of "p + 7" "buf_skip 1 s"] visk sk(3) lt 1(4,6)
      by (simp add: u_def add.commute del: of_nat_add One_nat_def)
    have tail: "sign_tail p (bit r 31) u \<longleftrightarrow>
        (take_bit 7 u = 0 \<or> bit r 31 \<and> take_bit 7 u = 0x7F) \<and> sign_tail (p + 7) (bit r 31) (drop_bit 7 u)"
      using 63 False by (simp add: sign_tail.simps [of p _ u])
    show ?thesis
      unfolding u_def [symmetric]
    proof (cases "take_bit 7 u = 0 \<or> bit r 31 \<and> take_bit 7 u = 0x7F")
      case True
      with IH False show "if sign_tail p (bit r 31) u
        then \<exists>b p'. p' \<noteq> 35 \<and> varint32_loop s (of_nat p) r =
               (Some (r, p', b), buf_skip (length (varint_enc u)) s)
        else \<exists>k. varint32_loop s (of_nat p) r = (None, ierror ''varint overflow'' (buf_skip k s))"
        unfolding tail step by (auto simp only: buf_skip_add varint_enc_more list.size if_True if_False
            simp_thms add.commute [of 1] Suc_eq_plus1 add_0 prod.inject option.inject split: if_split_asm)
    next
      case False
      then show "if sign_tail p (bit r 31) u
        then \<exists>b p'. p' \<noteq> 35 \<and> varint32_loop s (of_nat p) r =
               (Some (r, p', b), buf_skip (length (varint_enc u)) s)
        else \<exists>k. varint32_loop s (of_nat p) r = (None, ierror ''varint overflow'' (buf_skip k s))"
        unfolding tail step by auto
    qed
  qed
qed

section \<open>The bytes below bit 35\<close>

lemma ucast_more_byte: "(ucast (more_byte u AND 0x7F) :: u32) = ucast (take_bit 7 u)"
  by (rule bit_eqI) (auto simp: and_0x7F bit_simps bit_more_byte)

lemma ucast_last_byte: "u \<le> 0x7F \<Longrightarrow> (ucast ((ucast (u :: u64) :: byte) AND 0x7F) :: u32) = ucast u"
proof -
  assume u: "u \<le> 0x7F"
  show ?thesis
  proof (rule bit_eqI)
    fix n
    show "bit (ucast ((ucast u :: byte) AND 0x7F) :: u32) n = bit (ucast u :: u32) n"
      using le_0x7F_bit [OF u, of n] by (auto simp: and_0x7F bit_simps)
  qed
qed

lemma u32_group:
  "ucast (take_bit p (v :: u64)) OR push_bit p (ucast (take_bit 7 (drop_bit p v))) = (ucast (take_bit (p + 7) v) :: u32)"
  by (rule bit_eqI) (auto simp: bit_simps)

lemma u32_last_group:
  "ucast (take_bit p (v :: u64)) OR push_bit p (ucast (drop_bit p v)) = (ucast v :: u32)"
proof (rule bit_eqI)
  fix n
  show "bit (ucast (take_bit p v) OR push_bit p (ucast (drop_bit p v)) :: u32) n = bit (ucast v :: u32) n"
    by (cases "n < p") (auto simp: bit_simps dest: bit_imp_le_length)
qed

lemma bit_0x70_byte: "bit (0x70 :: byte) n \<longleftrightarrow> 4 \<le> n \<and> n < 7"
proof -
  have eq: "(0x70 :: byte) = push_bit 4 (mask 3)" by (simp add: mask_eq_exp_minus_1)
  show ?thesis unfolding eq bit_push_bit_iff bit_mask_iff by auto
qed

lemma fifth_byte:
  assumes "u \<le> 0x7F"
  shows "(ucast (u :: u64) :: byte) AND 0x70 = 0 \<longleftrightarrow> drop_bit 4 u = 0"
proof
  assume 0: "(ucast u :: byte) AND 0x70 = 0"
  show "drop_bit 4 u = 0"
  proof (rule bit_eqI)
    fix n
    have "\<not> bit ((ucast u :: byte) AND 0x70) (4 + n)" using 0 by simp
    then show "bit (drop_bit 4 u) n = bit (0 :: u64) n"
      using le_0x7F_bit [OF assms, of "4 + n"]
      unfolding bit_and_iff bit_0x70_byte by (auto simp: bit_simps)
  qed
next
  assume "drop_bit 4 u = 0"
  then have "\<not> bit u (4 + n)" for n by (metis bit_drop_bit_eq comp_apply bit_0_eq bot_apply bot_bool_def)
  then have "\<not> bit u n" if "4 \<le> n" for n using that le_Suc_ex by blast
  then show "(ucast u :: byte) AND 0x70 = 0"
    by (intro bit_eqI) (auto simp only: bit_and_iff bit_0x70_byte bit_ucast_iff bit_0_eq bot_apply bot_bool_def)
qed

definition low_result :: "'s pb_istream \<Rightarrow> nat \<Rightarrow> u64 \<Rightarrow> (u32 \<times> u8 \<times> byte) option \<times> 's pb_istream \<Rightarrow> bool" where
  "low_result s n v res \<longleftrightarrow>
     (if varint32_accepts v
      then \<exists>p b. res = (Some (ucast v, p, b), buf_skip n s) \<and> \<not> (p = 35 \<and> b AND 0x70 \<noteq> 0)
      else (\<exists>k. res = (None, ierror ''varint overflow'' (buf_skip k s))) \<or>
           (\<exists>b k r. res = (Some (r, 35, b), buf_skip k s) \<and> b AND 0x70 \<noteq> 0))"

lemma low_result_skip: "low_result (buf_skip 1 s) n v res \<Longrightarrow> low_result s (Suc n) v res"
  unfolding low_result_def by (auto simp: buf_skip_add split: if_splits)

lemma varint32_loop_at_35:
  assumes "wf_ibuf s" and "visible s = varint_enc (drop_bit 35 v) @ rest" and "drop_bit 35 v \<noteq> 0"
  shows "low_result s (length (varint_enc (drop_bit 35 v))) v (varint32_loop s (of_nat 35) (ucast (take_bit 35 v)))"
proof -
  have r: "(ucast (take_bit 35 v) :: u32) = ucast v"
    by (rule bit_eqI) (auto simp: bit_simps)
  have "bit (ucast v :: u32) 31 = bit v 31"
    by (simp add: bit_simps)
  with varint32_loop_tail [OF assms(1,2), of "ucast v"] assms(3) show ?thesis
    unfolding low_result_def r varint32_accepts_def by (auto split: if_splits)
qed

lemma varint32_loop_low:
  fixes s :: "'s pb_istream"
  assumes next_p: "\<And>s :: 's pb_istream. wf_ibuf s \<Longrightarrow> visible s = varint_enc (drop_bit (p + 7) v) @ rest \<Longrightarrow>
      drop_bit (p + 7) v \<noteq> 0 \<Longrightarrow>
      low_result s (length (varint_enc (drop_bit (p + 7) v))) v
        (varint32_loop s (of_nat (p + 7)) (ucast (take_bit (p + 7) v)))"
    and p: "p \<le> 28" "7 dvd p"
    and s: "wf_ibuf s" "visible s = varint_enc (drop_bit p v) @ rest"
  shows "low_result s (length (varint_enc (drop_bit p v))) v
      (varint32_loop s (of_nat p) (ucast (take_bit p v)))"
proof -
  define u where "u = drop_bit p v"
  have pw: "unat (of_nat p :: u8) = p" "\<not> (32 :: u8) \<le> of_nat p"
    using p by (simp_all add: u8_of_nat u8_le_of_nat)
  show ?thesis
  proof (cases "u \<le> 0x7F")
    case True
    have vis: "visible s = ucast u # rest"
      using s True by (simp add: u_def varint_enc_small)
    have loop: "varint32_loop s (of_nat p) (ucast (take_bit p v)) =
        (Some (ucast v, of_nat (p + 7), ucast u), buf_skip 1 s)"
      using pb_readbyte_visible [OF s(1) vis] pw True u32_last_group [of p v]
      by (simp add: varint32_loop.simps [of s "of_nat p" "ucast (take_bit p v)"] Let_def last_byte_and
          ucast_last_byte u_def [symmetric])
    have "drop_bit (p + 7) v = 0"
      using True by (simp add: u_def le_0x7F_bits add.commute)
    then have 0: "drop_bit n v = 0" if "p + 7 \<le> n" for n
      using that by (rule drop_bit_0_mono)
    have v35: "drop_bit 35 v = 0" using p by (intro 0) simp
    have v32: "p = 28 \<or> drop_bit 32 v = 0"
    proof (cases "p = 28")
      case False
      with p have "p + 7 \<le> 32" by (auto simp: dvd_def)
      then show ?thesis by (simp add: 0)
    qed simp
    have "unat (of_nat (p + 7) :: u8) = p + 7"
      using p by (intro u8_of_nat) simp
    then have p35: "(of_nat (p + 7) :: u8) = 35 \<longleftrightarrow> p = 28"
      by auto
    have five: "p = 28 \<Longrightarrow> (ucast u :: byte) AND 0x70 = 0 \<longleftrightarrow> drop_bit 32 v = 0"
      using True by (simp add: fifth_byte u_def)
    show ?thesis
      using True v32 five
      by (auto simp: low_result_def varint32_accepts_def v35 loop p35 u_def [symmetric]
          varint_enc_small simp del: of_nat_add)
  next
    case False
    have vis: "visible s = more_byte u # varint_enc (drop_bit (p + 7) v) @ rest"
      using s False by (simp add: varint_enc_more u_def add.commute)
    have left: "1 \<le> unat (bytes_left s)"
      using visible_nonempty [OF vis s(1)] by (simp add: Suc_leI unat_gt_0)
    note sk = visible_buf_skip [OF s(1) left]
    have "varint32_loop s (of_nat p) (ucast (take_bit p v)) =
        varint32_loop (buf_skip 1 s) (of_nat (p + 7)) (ucast (take_bit (p + 7) v))"
      using pb_readbyte_visible [OF s(1) vis] pw u32_group [of p v]
      by (simp add: varint32_loop.simps [of s "of_nat p" "ucast (take_bit p v)"] Let_def
          ucast_more_byte u_def [symmetric])
    moreover have "drop_bit (p + 7) v \<noteq> 0"
      using False by (simp add: u_def le_0x7F_bits add.commute)
    moreover have "drop_bit 7 u = drop_bit (p + 7) v"
      by (simp add: u_def add.commute)
    ultimately show ?thesis
      using low_result_skip [OF next_p [of "buf_skip 1 s"]] sk vis False
      by (simp add: varint_enc_more u_def [symmetric])
  qed
qed


lemma varint32_loop_7:
  assumes "wf_ibuf s" and "visible s = varint_enc (drop_bit 7 v) @ rest"
  shows "low_result s (length (varint_enc (drop_bit 7 v))) v
           (varint32_loop s (of_nat 7) (ucast (take_bit 7 v)))"
proof -
  have "low_result s (length (varint_enc (drop_bit (7 + 7 + 7 + 7) v))) v
      (varint32_loop s (of_nat (7 + 7 + 7 + 7)) (ucast (take_bit (7 + 7 + 7 + 7) v)))"
    if "wf_ibuf s" and "visible s = varint_enc (drop_bit (7 + 7 + 7 + 7) v) @ rest" for s :: "'a pb_istream"
    by (rule varint32_loop_low [OF _ _ _ that]) (simp_all add: varint32_loop_at_35 [simplified])
  then have "low_result s (length (varint_enc (drop_bit (7 + 7 + 7) v))) v
      (varint32_loop s (of_nat (7 + 7 + 7)) (ucast (take_bit (7 + 7 + 7) v)))"
    if "wf_ibuf s" and "visible s = varint_enc (drop_bit (7 + 7 + 7) v) @ rest" for s :: "'a pb_istream"
    by (rule varint32_loop_low [OF _ _ _ that]) simp_all
  then have "low_result s (length (varint_enc (drop_bit (7 + 7) v))) v
      (varint32_loop s (of_nat (7 + 7)) (ucast (take_bit (7 + 7) v)))"
    if "wf_ibuf s" and "visible s = varint_enc (drop_bit (7 + 7) v) @ rest" for s :: "'a pb_istream"
    by (rule varint32_loop_low [OF _ _ _ that]) simp_all
  then show ?thesis
    by (rule varint32_loop_low [OF _ _ _ assms]) simp_all
qed

section \<open>The whole decoder\<close>

lemma pb_decode_varint32_eof_enc:
  assumes "wf_ibuf s" and "visible s = varint_enc v @ rest"
  shows "if varint32_accepts v
         then pb_decode_varint32_eof s = ((Some (ucast v), False), buf_skip (length (varint_enc v)) s)
         else \<exists>k. pb_decode_varint32_eof s = ((None, False), ierror ''varint overflow'' (buf_skip k s))"
proof (cases "v \<le> 0x7F")
  case True
  then have "drop_bit 7 v = 0" by (simp add: le_0x7F_bits)
  then have acc: "varint32_accepts v"
    by (simp add: varint32_accepts_def drop_bit_0_mono [of 7])
  have "(ucast (ucast v :: byte) :: u32) = ucast v"
  proof (rule bit_eqI)
    fix n
    show "bit (ucast (ucast v :: byte) :: u32) n = bit (ucast v :: u32) n"
      using le_0x7F_bit [OF True, of n] by (auto simp: bit_simps)
  qed
  with acc show ?thesis
    using pb_readbyte_visible [OF assms(1), of "ucast v" rest] assms(2) True
    by (simp add: pb_decode_varint32_eof_def varint_enc_small last_byte_and)
next
  case False
  have vis: "visible s = more_byte v # varint_enc (drop_bit 7 v) @ rest"
    using assms(2) False by (simp add: varint_enc_more)
  have left: "1 \<le> unat (bytes_left s)"
    using visible_nonempty [OF vis assms(1)] by (simp add: Suc_leI unat_gt_0)
  note sk = visible_buf_skip [OF assms(1) left]
  have visk: "visible (buf_skip 1 s) = varint_enc (drop_bit 7 v) @ rest"
    using sk(1) vis by simp
  have "low_result s (length (varint_enc v)) v
      (varint32_loop (buf_skip 1 s) 7 (ucast (take_bit 7 v)))"
    using low_result_skip [OF varint32_loop_7 [OF sk(3) visk]] False by (simp add: varint_enc_more)
  then show ?thesis
    using pb_readbyte_visible [OF assms(1) vis]
    by (auto simp: pb_decode_varint32_eof_def ucast_more_byte low_result_def split: if_splits)
qed

end
