(* ===== verification/Pb_Wire.thy ===== *)
theory Pb_Wire
  imports Pb_Varint32
begin

text \<open>
  The wire format above varints: the bytes emitted for zigzag integers, fixed-width integers, tags and
  length-prefixed strings, and what the readers make of them.  The collection \<open>wire_read\<close> gathers the
  reading equations, \<open>wire_emit\<close> the emitted bytes.
\<close>

named_theorems wire_emit \<open>the bytes an encoding operation emits\<close>

declare emits_varint [wire_emit]

section \<open>Varints of 32 bits\<close>

lemma varint32_accepts_unsigned: "varint32_accepts (ucast (w :: u32))"
proof -
  have "drop_bit 32 (ucast w :: u64) = 0"
    by (rule bit_eqI) (auto simp: bit_simps dest: bit_imp_le_length)
  then show ?thesis
    by (simp add: varint32_accepts_def drop_bit_0_mono [of 32])
qed

lemma pb_decode_varint32_enc:
  assumes "wf_ibuf s" and "visible s = varint_enc v @ rest" and "varint32_accepts v"
  shows "pb_decode_varint32 s = (Some (ucast v), buf_skip (length (varint_enc v)) s)"
  using pb_decode_varint32_eof_enc [OF assms(1,2)] assms(3) by (simp add: pb_decode_varint32_def)

lemma ucast_ucast32 [simp]: "ucast (ucast (w :: u32) :: u64) = w"
  by (rule bit_eqI) (auto simp: bit_simps)

lemma pb_decode_varint32_small:
  assumes "wf_ibuf s" and "visible s = varint_enc (ucast w) @ rest"
  shows "pb_decode_varint32 s = (Some w, buf_skip (length (varint_enc (ucast w))) s)"
  using pb_decode_varint32_enc [OF assms varint32_accepts_unsigned] by simp

lemma bit_scast32: "bit (scast (w :: u32) :: u64) n \<longleftrightarrow> n < 64 \<and> bit w (min 31 n)"
  by (auto simp: bit_simps min.commute)

lemma sign_tail_ones: "p \<le> 63 \<Longrightarrow> 7 dvd p \<Longrightarrow> sign_tail p True (mask (64 - p))"
proof (induction "63 - p" arbitrary: p rule: less_induct)
  case less
  show ?case
  proof (cases "p = 63")
    case True
    then show ?thesis by (simp add: sign_tail.simps)
  next
    case False
    then have p: "p + 7 \<le> 63" using less.prems by (auto simp: dvd_def)
    then have "drop_bit 7 (mask (64 - p) :: u64) = mask (64 - (p + 7))"
      by (intro bit_eqI) (auto simp: bit_simps)
    moreover have "(mask (64 - (p + 7)) :: u64) \<noteq> 0"
    proof
      assume "(mask (64 - (p + 7)) :: u64) = 0"
      then have "\<not> bit (mask (64 - (p + 7)) :: u64) 0" by simp
      with p show False by (simp add: bit_mask_iff)
    qed
    moreover have "take_bit 7 (mask (64 - p) :: u64) = 0x7F"
    proof -
      have "take_bit 7 (mask (64 - p) :: u64) = mask 7"
        using p by (intro bit_eqI) (auto simp: bit_simps)
      then show ?thesis by (simp add: mask_eq_exp_minus_1)
    qed
    moreover have "sign_tail (p + 7) True (mask (64 - (p + 7)))"
      using less.hyps [of "p + 7"] p less.prems by simp
    ultimately show ?thesis
      using p by (simp add: sign_tail.simps [of p] le_0x7F_bits)
  qed
qed

lemma varint32_accepts_signed: "varint32_accepts (scast (w :: u32))"
proof (cases "bit w 31")
  case True
  have 35: "drop_bit 35 (scast w :: u64) = mask 29"
    using True by (intro bit_eqI) (auto simp: bit_drop_bit_eq bit_mask_iff bit_scast32)
  moreover have "(mask 29 :: u64) \<noteq> 0" by (simp add: mask_eq_exp_minus_1)
  moreover have "bit (scast w :: u64) 31" using True by (simp add: bit_scast32)
  ultimately show ?thesis
    using sign_tail_ones [of 35] by (simp add: varint32_accepts_def)
next
  case False
  then have "drop_bit 32 (scast w :: u64) = 0"
    by (intro bit_eqI) (auto simp: bit_drop_bit_eq bit_scast32)
  then show ?thesis
    by (simp add: varint32_accepts_def drop_bit_0_mono [of 32])
qed

lemma ucast_scast32: "ucast (scast (w :: u32) :: u64) = w"
proof (rule bit_word_eqI)
  fix n
  assume "n < LENGTH(32)"
  then have "min 31 n = n" by simp
  with \<open>n < LENGTH(32)\<close> show "bit (ucast (scast w :: u64) :: u32) n = bit w n"
    by (simp add: bit_ucast_iff bit_scast32)
qed

section \<open>Zigzag\<close>

definition zigzag :: "u64 \<Rightarrow> u64" where
  "zigzag value = (if value <s 0 then NOT (push_bit 1 value) else push_bit 1 value)"

definition unzigzag :: "u64 \<Rightarrow> u64" where
  "unzigzag value = (if value AND 1 \<noteq> 0 then NOT (drop_bit 1 value) else drop_bit 1 value)"

lemma and_1_bit: "(v :: u64) AND 1 \<noteq> 0 \<longleftrightarrow> bit v 0"
  by (simp add: and_one_eq odd_iff_mod_2_eq_one bit_0)

lemma sless_0_bit: "(v :: u64) <s 0 \<longleftrightarrow> bit v 63"
  using bit_last_iff [of v] by (simp add: word_sless_alt)

lemma bit_zigzag: "bit (zigzag v) n \<longleftrightarrow> n < 64 \<and> (bit v 63 \<noteq> (0 < n \<and> bit v (n - 1)))"
  unfolding zigzag_def sless_0_bit
  by (cases "bit v 63"; simp only: if_True if_False bit_not_iff bit_push_bit_iff possible_bit_word; auto)

lemma bit_unzigzag: "bit (unzigzag v) n \<longleftrightarrow> n < 64 \<and> (bit v 0 \<noteq> bit v (Suc n))"
  unfolding unzigzag_def and_1_bit
  by (auto simp: bit_simps dest: bit_imp_le_length)

lemma unzigzag_zigzag: "unzigzag (zigzag v) = v"
proof (rule bit_word_eqI)
  fix n
  assume "n < LENGTH(64)"
  then show "bit (unzigzag (zigzag v)) n = bit v n"
    by (cases "n = 63") (auto simp: bit_unzigzag bit_zigzag)
qed

lemma emits_svarint [wire_emit]: "emits (\<lambda>s. pb_encode_svarint s v) (varint_enc (zigzag v))"
  using emits_varint [of "zigzag v"] by (simp add: pb_encode_svarint_def zigzag_def)

lemma pb_decode_svarint_enc:
  assumes "wf_ibuf s" and "visible s = varint_enc v @ rest"
  shows "pb_decode_svarint s = (Some (unzigzag v), buf_skip (length (varint_enc v)) s)"
  using pb_decode_varint_enc [OF assms] by (simp add: pb_decode_svarint_def unzigzag_def)

section \<open>Reading a run of bytes\<close>

lemma pb_read_visible:
  assumes "wf_ibuf s" and "visible s = bs @ rest" and "unat n = length bs"
  shows "\<exists>r. pb_read s null n = (Some r, buf_skip (length bs) s) \<and> (\<not> null \<longrightarrow> r = bs)"
proof (cases "n = 0")
  case True
  with assms(3) show ?thesis by (auto simp: pb_read_def)
next
  case False
  obtain ds where ds: "isource s = BufRead ds" "unat (bytes_left s) \<le> length ds"
    using assms(1) by (rule wf_ibufE)
  have "length bs \<le> unat (bytes_left s)"
    using length_visible [OF assms(1)] assms(2) by simp
  then have le: "\<not> bytes_left s < n" using assms(3) by (simp add: word_less_nat_alt)
  have "take (length bs) ds = bs"
    using assms(2) ds \<open>length bs \<le> unat (bytes_left s)\<close>
    by (metis append_eq_conv_conj take_take min.absorb1 visible_def pb_isource.simps(5))
  moreover have "length bs \<le> length ds"
    using \<open>length bs \<le> unat (bytes_left s)\<close> ds(2) by simp
  moreover have "of_nat (length bs) = n" using arg_cong [OF assms(3), of "of_nat :: nat \<Rightarrow> size_t"] by simp
  moreover have "is_buf_read s" using assms(1) by simp
  ultimately show ?thesis
    using False le ds(1) assms(3)
    by (auto simp: pb_read_def pb_read_checked_def icallback_def buf_read_def buf_skip_def)
qed

section \<open>Fixed-width values\<close>

definition fixed32_bytes :: "u32 \<Rightarrow> byte list" where
  "fixed32_bytes v = map (\<lambda>k. ucast (drop_bit (8 * k) v)) [0, 1, 2, 3]"

definition fixed64_bytes :: "u64 \<Rightarrow> byte list" where
  "fixed64_bytes v = map (\<lambda>k. ucast (drop_bit (8 * k) v)) [0, 1, 2, 3, 4, 5, 6, 7]"

lemma length_fixed_bytes [simp]: "length (fixed32_bytes v) = 4" "length (fixed64_bytes w) = 8"
  by (simp_all add: fixed32_bytes_def fixed64_bytes_def)

lemma ucast_and_0xFF: "(ucast ((v :: 'a::len word) AND 0xFF) :: byte) = ucast v"
  by (rule bit_eqI) (auto simp: and_0xFF bit_simps)

lemma emits_fixed32 [wire_emit]: "emits (\<lambda>s. pb_encode_fixed32 s v) (fixed32_bytes v)"
  using emits_write [of "fixed32_bytes v" 4]
  by (simp add: pb_encode_fixed32_def ucast_and_0xFF fixed32_bytes_def)

lemma emits_fixed64 [wire_emit]: "emits (\<lambda>s. pb_encode_fixed64 s v) (fixed64_bytes v)"
  using emits_write [of "fixed64_bytes v" 8]
  by (simp add: pb_encode_fixed64_def ucast_and_0xFF fixed64_bytes_def)

lemma fixed32_join:
  "push_bit 0 (ucast (ucast (drop_bit 0 v) :: byte)) OR push_bit 8 (ucast (ucast (drop_bit 8 v) :: byte)) OR push_bit 16 (ucast (ucast (drop_bit 16 v) :: byte)) OR push_bit 24 (ucast (ucast (drop_bit 24 v) :: byte))
     = (v :: u32)"
  using join_byte [of 16 v] join_byte [of 8 v] join_byte [of 0 v]
  by (simp only: last_byte_32 numeral_plus_numeral add_num_simps add_0 push_bit_0_id drop_bit_0 id_apply)

lemma pb_decode_fixed32_bytes:
  assumes "wf_ibuf s" and "visible s = fixed32_bytes v @ rest"
  shows "pb_decode_fixed32 s = (Some v, buf_skip 4 s)"
proof -
  have "pb_read s False 4 = (Some (fixed32_bytes v), buf_skip 4 s)"
    using pb_read_visible [OF assms, of 4 False] by simp
  then show ?thesis
    using fixed32_join [of v] by (simp add: pb_decode_fixed32_def fixed32_bytes_def)
qed

lemma fixed64_join:
  "push_bit 0 (ucast (ucast (drop_bit 0 v) :: byte)) OR push_bit 8 (ucast (ucast (drop_bit 8 v) :: byte)) OR push_bit 16 (ucast (ucast (drop_bit 16 v) :: byte)) OR push_bit 24 (ucast (ucast (drop_bit 24 v) :: byte)) OR push_bit 32 (ucast (ucast (drop_bit 32 v) :: byte)) OR push_bit 40 (ucast (ucast (drop_bit 40 v) :: byte)) OR push_bit 48 (ucast (ucast (drop_bit 48 v) :: byte)) OR push_bit 56 (ucast (ucast (drop_bit 56 v) :: byte))
     = (v :: u64)"
  using join_byte [of 48 v] join_byte [of 40 v] join_byte [of 32 v] join_byte [of 24 v]
    join_byte [of 16 v] join_byte [of 8 v] join_byte [of 0 v]
  by (simp only: last_byte_64 numeral_plus_numeral add_num_simps add_0 push_bit_0_id drop_bit_0 id_apply)

lemma pb_decode_fixed64_bytes:
  assumes "wf_ibuf s" and "visible s = fixed64_bytes v @ rest"
  shows "pb_decode_fixed64 s = (Some v, buf_skip 8 s)"
proof -
  have "pb_read s False 8 = (Some (fixed64_bytes v), buf_skip 8 s)"
    using pb_read_visible [OF assms, of 8 False] by simp
  then show ?thesis
    using fixed64_join [of v] by (simp add: pb_decode_fixed64_def fixed64_bytes_def)
qed

section \<open>Tags\<close>

definition tag_value :: "pb_wire_type_t \<Rightarrow> u32 \<Rightarrow> u64" where
  "tag_value wiretype field_number = push_bit 3 (ucast field_number) OR ucast wiretype"

lemma emits_tag [wire_emit]: "emits (\<lambda>s. pb_encode_tag s wt n) (varint_enc (tag_value wt n))"
  by (simp add: pb_encode_tag_def tag_value_def emits_varint)

lemma bit_tag_value:
  assumes "take_bit 3 wt = wt"
  shows "bit (tag_value wt n) i \<longleftrightarrow> (if i < 3 then bit wt i else i < 64 \<and> bit n (i - 3))"
  using take_bit_self_bit [OF assms, of i]
  by (auto simp: tag_value_def bit_simps dest: bit_imp_le_length)

lemma pb_decode_tag_enc:
  assumes s: "wf_ibuf s" "visible s = varint_enc (tag_value wt n) @ rest"
    and wt: "take_bit 3 wt = wt" and n: "drop_bit 29 n = 0" and nz: "n \<noteq> 0 \<or> wt \<noteq> 0"
  shows "pb_decode_tag s = ((Some (wt, n), False), buf_skip (length (varint_enc (tag_value wt n))) s)"
proof -
  note hi = drop_bit_0_bit [OF n]
  have "drop_bit 32 (tag_value wt n) = 0"
    using hi by (intro bit_word_eqI) (auto simp: bit_drop_bit_eq bit_tag_value [OF wt])
  then have acc: "varint32_accepts (tag_value wt n)"
    by (simp add: varint32_accepts_def drop_bit_0_mono [of 32])
  let ?t = "ucast (tag_value wt n) :: u32"
  have bt: "bit ?t i \<longleftrightarrow> i < 32 \<and> (if i < 3 then bit wt i else bit n (i - 3))" for i
    by (auto simp: bit_ucast_iff bit_tag_value [OF wt])
  have d: "drop_bit 3 ?t = n"
  proof (rule bit_word_eqI)
    fix i
    show "bit (drop_bit 3 ?t) i = bit n i"
      using hi [of i] by (cases "29 \<le> i") (auto simp: bit_drop_bit_eq bt)
  qed
  have m: "?t AND 7 = wt"
  proof (rule bit_word_eqI)
    fix i
    show "bit (?t AND 7) i = bit wt i"
      using take_bit_self_bit [OF wt, of i] by (auto simp: and_7 bit_take_bit_iff bt)
  qed
  from d m nz have "?t \<noteq> 0" by auto
  with pb_decode_varint32_eof_enc [OF s] acc d m show ?thesis
    by (simp add: pb_decode_tag_def)
qed

end
