(* ===== verification/Pb_Substream.thy ===== *)
theory Pb_Substream
  imports Pb_Wire
begin

text \<open>
  Length-delimited data: the encoding of a string, substreams limited to its payload and what closing
  one leaves in the parent stream, and the skipping of a field that the message does not know.
\<close>

section \<open>Length-prefixed strings\<close>

lemma emits_string [wire_emit]:
  "emits (\<lambda>s. pb_encode_string s buffer sz) (varint_enc sz @ buf_take (unat sz) buffer)"
  unfolding pb_encode_string_def by (rule emits_bind [OF emits_varint emits_write])

section \<open>Substreams\<close>

text \<open>
  The substream sees exactly the payload.  Whatever a reader consumed of it, closing it puts the parent
  right behind the payload.
\<close>

lemma visible_take:
  assumes "visible s = p @ rest" and "isource s = BufRead bs" and "unat m = length p"
  shows "visible (s\<lparr>bytes_left := m\<rparr>) = p"
proof -
  have bs: "take (unat (bytes_left s)) bs = p @ rest"
    using assms by (simp add: visible_def)
  have "length p \<le> unat (bytes_left s)"
    using arg_cong [OF bs, of length] by simp
  moreover have "take (length p) (take (unat (bytes_left s)) bs) = p"
    by (simp add: bs)
  ultimately show ?thesis
    using assms by (simp add: visible_def min_def)
qed

lemma pb_read_rest:
  assumes "wf_ibuf s"
  shows "\<exists>r. pb_read s True (bytes_left s) = (Some r, buf_skip (unat (bytes_left s)) s)"
  using pb_read_visible [OF assms, of "visible s" "[]" "bytes_left s" True] length_visible [OF assms]
  by auto

lemma close_substream:
  assumes "wf_ibuf sub"
  shows "pb_close_string_substream s sub =
    (True, s\<lparr>isource := isource (buf_skip (unat (bytes_left sub)) sub), ierrmsg := ierrmsg sub\<rparr>)"
  using pb_read_rest [OF assms] by (auto simp: pb_close_string_substream_def)

lemma make_substream:
  fixes n :: u32
  assumes s: "wf_ibuf s" "visible s = varint_enc (ucast n) @ payload @ rest" and n: "unat n = length payload"
  obtains sub s' where "pb_make_string_substream s = (Some sub, s')"
    and "wf_ibuf sub" and "visible sub = payload" and "ierrmsg sub = ierrmsg s"
    and "\<And>sub'. consumes sub sub' \<Longrightarrow>
      pb_close_string_substream s' sub' =
        (True, (buf_skip (length (varint_enc (ucast n)) + length payload) s)\<lparr>ierrmsg := ierrmsg sub'\<rparr>)"
proof -
  let ?k = "length (varint_enc (ucast n))"
  let ?s1 = "buf_skip ?k s"
  have k: "?k \<le> unat (bytes_left s)"
    using length_visible [OF s(1)] s(2) by simp
  note sk = visible_buf_skip [OF s(1) k]
  have vis: "visible ?s1 = payload @ rest"
    using sk(1) s(2) by simp
  obtain bs where bs: "isource ?s1 = BufRead bs" "unat (bytes_left ?s1) \<le> length bs"
    using sk(3) by (rule wf_ibufE)
  have left: "length payload \<le> unat (bytes_left ?s1)"
    using length_visible [OF sk(3)] vis by simp
  define sub where "sub = ?s1\<lparr>bytes_left := ucast n\<rparr>"
  define s' where "s' = ?s1\<lparr>bytes_left := bytes_left ?s1 - ucast n\<rparr>"
  show thesis
  proof (rule that)
    show "pb_make_string_substream s = (Some sub, s')"
      using pb_decode_varint32_small [OF s] left n
      by (simp add: pb_make_string_substream_def sub_def s'_def word_less_nat_alt)
    show "wf_ibuf sub"
      using bs left n by (simp add: wf_ibuf_def sub_def)
    show "visible sub = payload"
      using visible_take [OF vis bs(1), of "ucast n"] n by (simp add: sub_def)
    show "ierrmsg sub = ierrmsg s"
      by (simp add: sub_def)
    fix sub'
    assume c: "consumes sub sub'"
    have wf: "wf_ibuf sub'" by (rule consumes_wf [OF \<open>wf_ibuf sub\<close> c])
    then obtain ds where ds: "isource sub' = BufRead ds" by (rule wf_ibufE)
    have "isource (buf_skip (unat (bytes_left sub')) sub') = BufRead (drop (length payload) bs)"
      using c bs(1) ds n by (auto simp: consumes_def sub_def buf_skip_def)
    moreover have "(of_nat (length payload) :: size_t) = ucast n"
      by (simp flip: n)
    ultimately show "pb_close_string_substream s' sub' =
        (True, (buf_skip (?k + length payload) s)\<lparr>ierrmsg := ierrmsg sub'\<rparr>)"
      unfolding close_substream [OF wf] buf_skip_add [symmetric]
      using bs(1) by (simp add: buf_skip_def [of "length payload"] s'_def)
  qed
qed

section \<open>Skipping\<close>

lemma pb_skip_varint_enc:
  assumes "wf_ibuf s" and "visible s = varint_enc v @ rest"
  shows "pb_skip_varint s = (True, buf_skip (length (varint_enc v)) s)"
  using assms
proof (induction v arbitrary: s rule: varint_enc.induct)
  case (1 v)
  show ?case
  proof (cases "v \<le> 0x7F")
    case True
    then have vis: "visible s = [ucast v] @ rest"
      using 1(3) by (simp add: varint_enc_small)
    have "pb_read s False 1 = (Some [ucast v], buf_skip 1 s)"
      using pb_read_visible [OF 1(2) vis, of 1 False] by simp
    with True show ?thesis
      by (simp add: pb_skip_varint.simps [of s] last_byte_and varint_enc_small)
  next
    case False
    then have vis: "visible s = [more_byte v] @ (varint_enc (drop_bit 7 v) @ rest)"
      using 1(3) by (simp add: varint_enc_more)
    have rd: "pb_read s False 1 = (Some [more_byte v], buf_skip 1 s)"
      using pb_read_visible [OF 1(2) vis, of 1 False] by simp
    have "1 \<le> unat (bytes_left s)"
      using length_visible [OF 1(2)] vis by simp
    note sk = visible_buf_skip [OF 1(2) this]
    have "pb_skip_varint (buf_skip 1 s) = (True, buf_skip (length (varint_enc (drop_bit 7 v))) (buf_skip 1 s))"
      using 1(1) [OF False sk(3)] sk(1) vis by simp
    with rd False show ?thesis
      by (simp add: pb_skip_varint.simps [of s] varint_enc_more buf_skip_add)
  qed
qed

text \<open>The payloads of the four wire types.\<close>

definition wire_payload :: "pb_wire_type_t \<Rightarrow> byte list \<Rightarrow> bool" where
  "wire_payload wt bs \<longleftrightarrow>
     wt = PB_WT_VARINT \<and> (\<exists>v. bs = varint_enc v) \<or>
     wt = PB_WT_64BIT \<and> length bs = 8 \<or>
     wt = PB_WT_32BIT \<and> length bs = 4 \<or>
     wt = PB_WT_STRING \<and> (\<exists>n p. bs = varint_enc (ucast (n :: u32)) @ p \<and> length p = unat n)"

lemma skip_field_payload:
  assumes s: "wf_ibuf s" "visible s = bs @ rest" and p: "wire_payload wt bs"
  shows "pb_skip_field s wt = (True, buf_skip (length bs) s)"
proof -
  consider v where "wt = PB_WT_VARINT" "bs = varint_enc v" | "wt = PB_WT_64BIT" "length bs = 8"
    | "wt = PB_WT_32BIT" "length bs = 4"
    | n q where "wt = PB_WT_STRING" "bs = varint_enc (ucast (n :: u32)) @ q" "length q = unat n"
    using p by (auto simp: wire_payload_def)
  then show ?thesis
  proof cases
    case 1
    then show ?thesis
      using pb_skip_varint_enc [OF s(1)] s(2) by (simp add: pb_skip_field_def)
  next
    case 2
    then show ?thesis
      using pb_read_visible [OF s, of 8 True] by (auto simp: pb_skip_field_def pb_consts)
  next
    case 3
    then show ?thesis
      using pb_read_visible [OF s, of 4 True] by (auto simp: pb_skip_field_def pb_consts)
  next
    case 4
    let ?k = "length (varint_enc (ucast n))"
    have vis: "visible s = varint_enc (ucast n) @ (q @ rest)" using s 4 by simp
    have "?k \<le> unat (bytes_left s)" using length_visible [OF s(1)] vis by simp
    note sk = visible_buf_skip [OF s(1) this]
    have v2: "visible (buf_skip ?k s) = q @ rest" using sk(1) vis by simp
    obtain r where "pb_read (buf_skip ?k s) True (ucast n) = (Some r, buf_skip (length q) (buf_skip ?k s))"
      using pb_read_visible [OF sk(3) v2, of "ucast n" True] 4(3) by auto
    then show ?thesis
      using pb_decode_varint32_small [OF s(1) vis] 4
      by (simp add: pb_skip_field_def pb_skip_string_def pb_consts buf_skip_add)
  qed
qed

end
