(* ===== verification/Pb_Stream_Props.thy ===== *)
theory Pb_Stream_Props
  imports Pb_Substream Pb_Stream_Rel
begin

text \<open>
  The properties of the stream layer of \<open>pb_encode.c\<close> and \<open>pb_decode.c\<close>: every wire-level encoder is
  inverted by its decoder, fields are skipped exactly, substreams end where their payload ends, and no
  operation leaves its buffer.  The locale \<open>buf_writer\<close> is interpreted here for the encoders.
\<close>

section \<open>Streams on fresh buffers\<close>

text \<open>\<open>stream_of bs\<close>: a stream that reads exactly \<open>bs\<close>.\<close>

definition stream_of :: "byte list \<Rightarrow> 's pb_istream" where
  "stream_of bs = pb_istream_from_buffer bs (of_nat (length bs))"

lemma stream_of_wf:
  assumes "length bs < 2 ^ 64"
  shows "wf_ibuf (stream_of bs)" and "visible (stream_of bs) = bs"
  using assms by (simp_all add: stream_of_def pb_istream_from_buffer_def wf_ibuf_def visible_def unat_of_nat64)

lemma buf_skip_stream_of: "buf_skip (length bs) (stream_of (bs @ rest)) = stream_of rest"
  by (simp add: buf_skip_def stream_of_def pb_istream_from_buffer_def)

section \<open>Codecs\<close>

text \<open>An encoder that emits \<open>out\<close> and a decoder that turns \<open>out\<close>, followed by anything, into \<open>r\<close>.\<close>

locale wire_codec = buf_writer enc out
  for enc :: "'t pb_ostream \<Rightarrow> bool \<times> 't pb_ostream" and out :: "byte list" +
  fixes dec :: "'s pb_istream \<Rightarrow> 'r \<times> 's pb_istream" and r :: 'r
  assumes dec: "wf_ibuf s \<Longrightarrow> visible s = out @ rest \<Longrightarrow> dec s = (r, buf_skip (length out) s)"
    and short: "length out \<le> 10"
begin

lemma read_back:
  assumes "length rest < 2 ^ 63"
  shows "dec (stream_of (out @ rest)) = (r, stream_of rest)"
  using dec [of "stream_of (out @ rest)" rest] stream_of_wf [of "out @ rest"] short assms
  by (simp add: buf_skip_stream_of)

lemma round_trip:
  assumes "10 \<le> unat n" and "length rest < 2 ^ 63"
  shows "enc (pb_ostream_from_buffer n) = (True, written n out) \<and> length out \<le> 10 \<and>
    dec (stream_of (out @ rest)) = (r, stream_of rest)"
  using fresh [of n] read_back [OF assms(2)] short assms(1) by simp

end

interpretation varint64: wire_codec "\<lambda>s. pb_encode_varint s v" "varint_enc v" pb_decode_varint "Some v" for v
  by unfold_locales (simp_all add: emits_varint pb_decode_varint_enc length_varint_enc_le10)

interpretation uint32: wire_codec "\<lambda>s. pb_encode_varint s (ucast w)" "varint_enc (ucast w)" pb_decode_varint32 "Some w"
  for w :: u32
  by unfold_locales (simp_all add: emits_varint pb_decode_varint32_small length_varint_enc_le10)

interpretation int32: wire_codec "\<lambda>s. pb_encode_varint s (scast w)" "varint_enc (scast w)" pb_decode_varint32 "Some w"
  for w :: u32
  by unfold_locales
    (simp_all add: emits_varint pb_decode_varint32_enc varint32_accepts_signed ucast_scast32 length_varint_enc_le10)

interpretation svarint64: wire_codec "\<lambda>s. pb_encode_svarint s v" "varint_enc (zigzag v)" pb_decode_svarint "Some v" for v
  by unfold_locales (simp_all add: emits_svarint pb_decode_svarint_enc unzigzag_zigzag length_varint_enc_le10)

interpretation fix32: wire_codec "\<lambda>s. pb_encode_fixed32 s v" "fixed32_bytes v" pb_decode_fixed32 "Some v" for v
  by unfold_locales (simp_all add: emits_fixed32 pb_decode_fixed32_bytes fixed32_bytes_def [THEN arg_cong, of length])

interpretation fix64: wire_codec "\<lambda>s. pb_encode_fixed64 s v" "fixed64_bytes v" pb_decode_fixed64 "Some v" for v
  by unfold_locales (simp_all add: emits_fixed64 pb_decode_fixed64_bytes fixed64_bytes_def [THEN arg_cong, of length])

lemma tag_codec:
  assumes "take_bit 3 wt = wt" "drop_bit 29 n = 0" "n \<noteq> 0 \<or> wt \<noteq> 0"
  shows "wire_codec (\<lambda>s. pb_encode_tag s wt n) (varint_enc (tag_value wt n)) pb_decode_tag (Some (wt, n), False)"
  by unfold_locales (simp_all add: emits_tag pb_decode_tag_enc [OF _ _ assms] length_varint_enc_le10)

interpretation enc_string: buf_writer "\<lambda>s. pb_encode_string s buffer sz"
    "varint_enc sz @ buf_take (unat sz) buffer" for buffer sz
  by unfold_locales (rule emits_string)

section \<open>Round trips\<close>

text \<open>C1: \<open>pb_encode_varint\<close> writes at most 10 bytes for any 64-bit value, and \<open>pb_decode_varint\<close> reads the same value
  back from them and stops right behind them, whatever follows.\<close>

theorem varint_round_trip:
  assumes "10 \<le> unat n" and "length rest < 2 ^ 63"
  shows "\<exists>bs. pb_encode_varint (pb_ostream_from_buffer n) v = (True, written n bs) \<and> length bs \<le> 10 \<and>
    pb_decode_varint (stream_of (bs @ rest)) = (Some v, stream_of rest)"
  using varint64.round_trip [OF assms] by blast

theorem varint_round_trip_witness:
  "\<exists>bs. pb_encode_varint (pb_ostream_from_buffer 16) 300 = (True, written 16 bs) \<and> length bs \<le> 10 \<and>
    pb_decode_varint (stream_of (bs @ [7])) = (Some 300, stream_of [7])"
  by (rule varint_round_trip) simp_all

text \<open>C2: every 32-bit value survives \<open>pb_encode_varint\<close> and \<open>pb_decode_varint32\<close>, both as an unsigned value and as a
  negative \<open>int32\<close> that the sender extended to 64 bits.\<close>

theorem varint32_round_trip:
  assumes "10 \<le> unat n" and "length rest < 2 ^ 63" and "v = ucast w \<or> v = scast (w :: u32)"
  shows "\<exists>bs. pb_encode_varint (pb_ostream_from_buffer n) v = (True, written n bs) \<and>
    pb_decode_varint32 (stream_of (bs @ rest)) = (Some w, stream_of rest)"
  using assms(3) uint32.round_trip [OF assms(1,2)] int32.round_trip [OF assms(1,2)] by blast

theorem varint32_round_trip_witness:
  "\<exists>bs. pb_encode_varint (pb_ostream_from_buffer 16) (scast (0xFFFFFFFB :: u32)) = (True, written 16 bs) \<and>
    pb_decode_varint32 (stream_of (bs @ [7])) = (Some 0xFFFFFFFB, stream_of [7])"
  by (rule varint32_round_trip) simp_all

text \<open>C3: exactly which 64-bit values \<open>pb_decode_varint32\<close> accepts from their encoding: a value below \<open>2^35\<close> only when
  it is below \<open>2^32\<close>; a larger one only when every group of seven bits from bit 35 on is empty or continues
  the sign bit 31.  An accepted value yields its low 32 bits, any other one yields no value.\<close>

theorem varint32_accepted_values:
  assumes "length rest < 2 ^ 63"
  shows "fst (pb_decode_varint32 (stream_of (varint_enc v @ rest) :: 's pb_istream)) =
    (if varint32_accepts v then Some (ucast v) else None)"
proof -
  let ?s = "stream_of (varint_enc v @ rest) :: 's pb_istream"
  have "length (varint_enc v @ rest) < 2 ^ 64"
    using length_varint_enc_le10 [of v] assms by simp
  then have "wf_ibuf ?s" "visible ?s = varint_enc v @ rest"
    by (rule stream_of_wf)+
  then show ?thesis
    using pb_decode_varint32_eof_enc [of ?s v rest] by (auto simp: pb_decode_varint32_def split: prod.splits)
qed

theorem varint32_accepted_values_witness:
  "fst (pb_decode_varint32 (stream_of (varint_enc 0x100000000 @ [7]) :: unit pb_istream)) = None"
proof -
  have "\<not> varint32_accepts 0x100000000" by code_simp
  then show ?thesis
    using varint32_accepted_values [of "[7]" "0x100000000", where 's = unit] by simp
qed

text \<open>C4: \<open>pb_encode_svarint\<close> and \<open>pb_decode_svarint\<close> are inverse on all 64-bit integers.\<close>

theorem svarint_round_trip:
  assumes "10 \<le> unat n" and "length rest < 2 ^ 63"
  shows "\<exists>bs. pb_encode_svarint (pb_ostream_from_buffer n) v = (True, written n bs) \<and>
    pb_decode_svarint (stream_of (bs @ rest)) = (Some v, stream_of rest)"
  using svarint64.round_trip [OF assms] by blast

theorem svarint_round_trip_witness:
  "\<exists>bs. pb_encode_svarint (pb_ostream_from_buffer 16) (- 5) = (True, written 16 bs) \<and>
    pb_decode_svarint (stream_of (bs @ [7])) = (Some (- 5), stream_of [7])"
  by (rule svarint_round_trip) simp_all

text \<open>C5: the fixed-width encoders write exactly 4 and 8 bytes, and the decoders read the same value back.\<close>

theorem fixed_round_trip:
  assumes "10 \<le> unat n" and "length rest < 2 ^ 63"
  shows "\<exists>b4 b8. length b4 = 4 \<and> length b8 = 8 \<and>
    pb_encode_fixed32 (pb_ostream_from_buffer n) v = (True, written n b4) \<and>
    pb_decode_fixed32 (stream_of (b4 @ rest)) = (Some v, stream_of rest) \<and>
    pb_encode_fixed64 (pb_ostream_from_buffer n) w = (True, written n b8) \<and>
    pb_decode_fixed64 (stream_of (b8 @ rest)) = (Some w, stream_of rest)"
proof -
  have "length (fixed32_bytes v) = 4" "length (fixed64_bytes w) = 8"
    by (simp_all add: fixed32_bytes_def fixed64_bytes_def)
  then show ?thesis
    using fix32.round_trip [OF assms, of v] fix64.round_trip [OF assms, of w] by blast
qed

theorem fixed_round_trip_witness:
  "\<exists>b4 b8. length b4 = 4 \<and> length b8 = 8 \<and>
    pb_encode_fixed32 (pb_ostream_from_buffer 16) 0x12345678 = (True, written 16 b4) \<and>
    pb_decode_fixed32 (stream_of (b4 @ [7])) = (Some 0x12345678, stream_of [7]) \<and>
    pb_encode_fixed64 (pb_ostream_from_buffer 16) 0x1234567890 = (True, written 16 b8) \<and>
    pb_decode_fixed64 (stream_of (b8 @ [7])) = (Some 0x1234567890, stream_of [7])"
  by (rule fixed_round_trip) simp_all

text \<open>C6: \<open>pb_encode_tag\<close> and \<open>pb_decode_tag\<close> are inverse for every field number below \<open>2^29\<close> (the numbers protobuf
  allows) and every wire type, except the pair 0, 0 that marks the end of a message.\<close>

theorem tag_round_trip:
  assumes "10 \<le> unat n" and "length rest < 2 ^ 63"
    and "field_number < 2 ^ 29" and "wiretype < 8" and "field_number \<noteq> 0 \<or> wiretype \<noteq> 0"
  shows "\<exists>bs. pb_encode_tag (pb_ostream_from_buffer n) wiretype field_number = (True, written n bs) \<and>
    pb_decode_tag (stream_of (bs @ rest)) = ((Some (wiretype, field_number), False), stream_of rest)"
proof -
  have "take_bit 3 wiretype = wiretype" "take_bit 29 field_number = field_number"
    using assms(3,4)
    by (simp_all add: word_less_nat_alt word_unat_eq_iff unsigned_take_bit_eq take_bit_nat_eq_self)
  then have codec: "wire_codec (\<lambda>s. pb_encode_tag s wiretype field_number) (varint_enc (tag_value wiretype field_number))
      pb_decode_tag (Some (wiretype, field_number), False)"
    using assms(5) by (intro tag_codec) (simp_all add: take_bit_eq_self_iff_drop_bit_eq_0)
  show ?thesis
    using wire_codec.round_trip [OF codec assms(1,2)] by blast
qed

theorem tag_round_trip_witness:
  "\<exists>bs. pb_encode_tag (pb_ostream_from_buffer 16) 2 1000 = (True, written 16 bs) \<and>
    pb_decode_tag (stream_of (bs @ [7])) = ((Some (2, 1000), False), stream_of [7])"
  by (rule tag_round_trip) simp_all

section \<open>Substreams and skipping\<close>

text \<open>C7: a substream sees exactly the payload of a length-prefixed field, and after any consumption of it
  \<open>pb_close_string_substream\<close> leaves the parent right behind the payload.\<close>

theorem substream_exact:
  fixes n :: u32
  assumes "unat n = length payload" and "length payload + length rest < 2 ^ 63"
  shows "\<exists>sub s'. pb_make_string_substream (stream_of (varint_enc (ucast n) @ payload @ rest) :: 's pb_istream) =
      (Some sub, s') \<and>
    visible sub = payload \<and>
    (\<forall>sub'. consumes sub sub' \<longrightarrow>
      (\<exists>s''. pb_close_string_substream s' sub' = (True, s'') \<and> visible s'' = rest \<and> wf_ibuf s''))"
proof -
  let ?h = "varint_enc (ucast n)"
  let ?s = "stream_of (?h @ payload @ rest) :: 's pb_istream"
  have b: "length (?h @ payload @ rest) < 2 ^ 64"
    using length_varint_enc_le10 [of "ucast n"] assms(2) by simp
  then have wf: "wf_ibuf ?s" "visible ?s = ?h @ payload @ rest"
    by (rule stream_of_wf)+
  obtain sub s' where sub: "pb_make_string_substream ?s = (Some sub, s')" "visible sub = payload"
    and close: "\<And>sub'. consumes sub sub' \<Longrightarrow> pb_close_string_substream s' sub' =
      (True, (buf_skip (length ?h + length payload) ?s)\<lparr>ierrmsg := ierrmsg sub'\<rparr>)"
    using make_substream [OF wf assms(1)] by metis
  have left: "length ?h + length payload \<le> unat (bytes_left ?s)"
    using length_visible [OF wf(1)] wf(2) by simp
  have "visible ((buf_skip (length ?h + length payload) ?s)\<lparr>ierrmsg := e\<rparr>) = rest \<and>
      wf_ibuf ((buf_skip (length ?h + length payload) ?s)\<lparr>ierrmsg := e\<rparr>)" for e
    using visible_buf_skip [OF wf(1) left] wf(2) by (simp add: visible_def wf_ibuf_def split: pb_isource.splits)
  with sub close show ?thesis by blast
qed

theorem substream_exact_witness:
  "\<exists>sub s'. pb_make_string_substream (stream_of (varint_enc (ucast (2 :: u32)) @ [8, 9] @ [7]) :: unit pb_istream) =
      (Some sub, s') \<and>
    visible sub = [8, 9] \<and>
    (\<forall>sub'. consumes sub sub' \<longrightarrow>
      (\<exists>s''. pb_close_string_substream s' sub' = (True, s'') \<and> visible s'' = [7] \<and> wf_ibuf s''))"
  by (rule substream_exact) simp_all

text \<open>C8: \<open>pb_skip_field\<close> on an unknown field skips exactly its payload, for each of the four wire types, and
  reports any other wire type as an error without moving.\<close>

theorem skip_field_exact:
  fixes s :: "'s pb_istream"
  assumes "length payload + length rest < 2 ^ 64" and "s = stream_of (payload @ rest)"
  shows "if wire_payload wt payload
    then pb_skip_field s wt = (True, stream_of rest)
    else wt \<in> {PB_WT_VARINT, PB_WT_64BIT, PB_WT_STRING, PB_WT_32BIT} \<or>
         pb_skip_field s wt = (False, ierror ''invalid wire_type'' s)"
proof (cases "wire_payload wt payload")
  case True
  have "wf_ibuf s" "visible s = payload @ rest"
    unfolding assms(2) by (rule stream_of_wf, use assms(1) in simp)+
  with True show ?thesis
    using skip_field_payload [of s payload rest wt] by (simp add: assms(2) buf_skip_stream_of)
qed (auto simp: pb_skip_field_def)

theorem skip_field_exact_witness:
  "pb_skip_field (stream_of ([2, 8, 9] @ [7])) PB_WT_STRING = (True, stream_of [7])"
proof -
  have "wire_payload PB_WT_STRING [2, 8, 9]"
    unfolding wire_payload_def
    by (intro disjI2 conjI refl exI [of _ "2 :: u32"] exI [of _ "[8, 9]"]) (simp_all add: varint_enc_small)
  then show ?thesis
    using skip_field_exact [of "[2, 8, 9]" "[7]" _ PB_WT_STRING, OF _ refl] by simp
qed

section \<open>Bounds\<close>

text \<open>C9: no reader looks behind the end of its stream: two buffers that agree on the announced bytes give the
  same results, whatever lies behind.\<close>

theorem readers_no_overread:
  fixes s s' :: "'s pb_istream"
  assumes "isource s = BufRead (bs @ x)" and "isource s' = BufRead (bs @ y)"
    and "bytes_left s = bytes_left s'" and "ierrmsg s = ierrmsg s'" and "unat (bytes_left s) \<le> length bs"
  shows "fst (pb_read s null count) = fst (pb_read s' null count) \<and>
    fst (pb_decode_tag s) = fst (pb_decode_tag s') \<and>
    fst (pb_skip_field s wt) = fst (pb_skip_field s' wt) \<and>
    fst (read_raw_value s wt max_sz) = fst (read_raw_value s' wt max_sz) \<and>
    fst (pb_decode_varint s) = fst (pb_decode_varint s') \<and>
    fst (pb_decode_varint32 s) = fst (pb_decode_varint32 s') \<and>
    fst (pb_decode_svarint s) = fst (pb_decode_svarint s') \<and>
    fst (pb_decode_fixed32 s) = fst (pb_decode_fixed32 s') \<and>
    fst (pb_decode_fixed64 s) = fst (pb_decode_fixed64 s') \<and>
    fst (pb_decode_bool s) = fst (pb_decode_bool s')"
  using read.no_overread [OF assms] decode_tag.no_overread [OF assms] skip_field.no_overread [OF assms]
    read_raw.no_overread [OF assms] varint.no_overread [OF assms] varint32.no_overread [OF assms]
    svarint.no_overread [OF assms] fixed32.no_overread [OF assms] fixed64.no_overread [OF assms]
    decode_bool.no_overread [OF assms] by blast

theorem readers_no_overread_witness:
  "fst (pb_decode_varint (\<lparr>isource = BufRead ([0x80] @ [1]), bytes_left = 1, ierrmsg = None\<rparr> :: unit pb_istream)) =
   fst (pb_decode_varint (\<lparr>isource = BufRead ([0x80] @ [2]), bytes_left = 1, ierrmsg = None\<rparr> :: unit pb_istream))"
  by (rule readers_no_overread [where bs = "[0x80]" and x = "[1]" and y = "[2]",
        THEN conjunct2, THEN conjunct2, THEN conjunct2, THEN conjunct2, THEN conjunct1]) simp_all

text \<open>C10: the sizing stream announces exactly what \<open>pb_encode_string\<close> needs: a buffer of that size takes the whole
  output, and a smaller one makes it fail with a prefix of the output that fits.\<close>

theorem encode_string_sizing:
  assumes "sz < 2 ^ 63"
  shows "case pb_encode_string (PB_OSTREAM_SIZING :: 't pb_ostream) buffer sz of (ok, sizing) \<Rightarrow>
    ok \<and>
    (if bytes_written sizing \<le> n
     then \<exists>out. pb_encode_string (pb_ostream_from_buffer n :: 't pb_ostream) buffer sz = (True, written n out) \<and>
            length out = unat (bytes_written sizing)
     else case pb_encode_string (pb_ostream_from_buffer n :: 't pb_ostream) buffer sz of (ok', s) \<Rightarrow>
            \<not> ok' \<and> (\<exists>p. osink s = BufWrite p \<and> length p \<le> unat n))"
proof -
  let ?out = "varint_enc sz @ buf_take (unat sz) buffer"
  have "unat sz < 2 ^ 63"
    using assms by (simp add: word_less_nat_alt)
  then have len: "length ?out < 2 ^ 64"
    using length_varint_enc_le10 [of sz] by simp
  obtain s1 where s1: "pb_encode_string (PB_OSTREAM_SIZING :: 't pb_ostream) buffer sz = (True, s1)"
    using enc_string.sizing [of "PB_OSTREAM_SIZING :: 't pb_ostream" buffer sz] by (simp add: is_sizing_def PB_OSTREAM_SIZING_def)
  then have size1: "unat (bytes_written s1) = length ?out"
    using enc_string.size_pass [OF len, where 'a = 't] by simp
  then have cmp: "bytes_written s1 \<le> n \<longleftrightarrow> length ?out \<le> unat n"
    by (simp add: word_le_nat_alt)
  show ?thesis
  proof (cases "length ?out \<le> unat n")
    case True
    then show ?thesis
      using enc_string.fresh [OF True] s1 size1 cmp by auto
  next
    case False
    then show ?thesis
      using enc_string.fresh_full [of n sz buffer, where 'a = 't] s1 cmp by (auto split: prod.splits)
  qed
qed

theorem encode_string_sizing_witness:
  "case pb_encode_string (PB_OSTREAM_SIZING :: unit pb_ostream) [8, 9] 2 of (ok, sizing) \<Rightarrow>
    ok \<and>
    (if bytes_written sizing \<le> 2
     then \<exists>out. pb_encode_string (pb_ostream_from_buffer 2 :: unit pb_ostream) [8, 9] 2 = (True, written 2 out) \<and>
            length out = unat (bytes_written sizing)
     else case pb_encode_string (pb_ostream_from_buffer 2 :: unit pb_ostream) [8, 9] 2 of (ok', s) \<Rightarrow>
            \<not> ok' \<and> (\<exists>p. osink s = BufWrite p \<and> length p \<le> unat (2 :: size_t)))"
  by (rule encode_string_sizing) simp

text \<open>How many bytes a varint takes.\<close>

lemma pb_readbyte_one:
  "pb_readbyte s = (Some b, s') \<Longrightarrow> unat (bytes_left s) = Suc (unat (bytes_left s'))"
  by (auto simp: pb_readbyte_def unat_minus_one split: if_splits prod.splits option.splits
      dest!: icallback_bytes_left) (metis Suc_pred unat_gt_0)

lemma varint64_loop_length:
  assumes "varint64_loop s (of_nat p) r = (Some v, s')" and "p < 72"
  shows "\<exists>k. unat (bytes_left s) = unat (bytes_left s') + Suc k \<and> 7 * k + p < 64"
  using assms
proof (induction s "of_nat p :: u8" r arbitrary: p rule: varint64_loop.induct)
  case (1 s r)
  have p: "p < 64"
  proof (rule ccontr)
    assume "\<not> p < 64"
    then have "(64 :: u8) \<le> of_nat p" using 1(3) by (simp add: u8_le_of_nat)
    then show False using 1(2) by (simp add: varint64_loop.simps [of s])
  qed
  then have p': "\<not> (64 :: u8) \<le> of_nat p" by (simp add: u8_le_of_nat)
  then obtain b t where b: "pb_readbyte s = (Some b, t)"
    using 1(2) by (subst (asm) varint64_loop.simps) (auto split: prod.splits option.splits)
  note one = pb_readbyte_one [OF b]
  show ?case
  proof (cases "b AND 0x80 \<noteq> 0")
    case True
    then have "varint64_loop t (of_nat (p + 7)) (r OR push_bit (unat (of_nat p :: u8)) (ucast (b AND 0x7F))) = (Some v, s')"
      using 1(2) p' b by (subst (asm) varint64_loop.simps) (simp add: Let_def)
    note lp = this
    have "\<exists>k. unat (bytes_left t) = unat (bytes_left s') + Suc k \<and> 7 * k + (p + 7) < 64"
      by (rule 1(1) [OF p' b [symmetric] refl refl _ True lp]) (use p in simp_all)
    then obtain k where "unat (bytes_left t) = unat (bytes_left s') + Suc k" "7 * k + (p + 7) < 64" by blast
    then show ?thesis using one by (intro exI [of _ "Suc k"]) simp
  next
    case False
    then have "t = s'"
      using 1(2) p' b by (subst (asm) varint64_loop.simps) (simp add: Let_def)
    then show ?thesis using one p by (intro exI [of _ 0]) simp
  qed
qed

text \<open>C11: on every stream, also one with a user callback, a successful \<open>pb_decode_varint\<close> takes at least 1 and at
  most 10 bytes.\<close>

theorem decode_varint_bounded:
  assumes "pb_decode_varint s = (Some v, s')"
  shows "\<exists>k. 1 \<le> k \<and> k \<le> 10 \<and> unat (bytes_left s) = unat (bytes_left s') + k"
proof -
  obtain k where "unat (bytes_left s) = unat (bytes_left s') + Suc k" "7 * k < 64"
    using varint64_loop_length [of s 0 0 v s'] assms by (auto simp: pb_decode_varint_def)
  then show ?thesis by (intro exI [of _ "Suc k"]) simp
qed

theorem decode_varint_bounded_witness:
  "\<exists>k. 1 \<le> k \<and> k \<le> 10 \<and> unat (bytes_left (stream_of (varint_enc 300 @ [7]) :: unit pb_istream)) =
     unat (bytes_left (stream_of [7] :: unit pb_istream)) + k"
  by (rule decode_varint_bounded [OF varint64.read_back]) simp

text \<open>\<open>pb_decode_varint32\<close> has no such bound: \<open>bitpos\<close> is eight bits wide and wraps after 37 bytes, so a varint of 38
  bytes is accepted and its last byte is merged into the low bits.  It also accepts values between
  \<open>2^35\<close> and \<open>2^64\<close> that are no sign extension, and \<open>pb_decode_varint\<close> drops the bits above 64 of a tenth byte.\<close>

lemma varint32_bitpos_wraps:
  "fst (pb_decode_varint32 (stream_of (replicate 37 0x80 @ [1]) :: unit pb_istream)) = Some 8"
  by code_simp

lemma varint32_sign_gap:
  "fst (pb_decode_varint32 (stream_of (varint_enc 0xFFFFFFF880000000) :: unit pb_istream)) = Some 0x80000000"
  by code_simp

lemma varint64_truncates:
  "fst (pb_decode_varint (stream_of (replicate 9 0x80 @ [0x7E]) :: unit pb_istream)) = Some 0"
  by code_simp

section \<open>The first error message is kept\<close>

lemmas kept [unfolded moves_def, rule_format] =
  err.read err.readbyte err.varint err.varint32_eof err.varint32 err.svarint err.fixed32 err.fixed64 err.bool
  err.decode_tag err.skip_varint err.skip_string err.skip_field err.raw_value err.open_substream

text \<open>A read that succeeds leaves the message alone, also when there is none.\<close>

lemma icallback_errmsg: "ierrmsg (snd (icallback s n)) = ierrmsg s"
  by (auto simp: icallback_def buf_read_def split: pb_isource.splits read_result.splits)

lemma pb_read_checked_errmsg:
  "pb_read_checked s n = (Some bs, s') \<Longrightarrow> ierrmsg s' = ierrmsg s"
  using icallback_errmsg [of s "unat n"]
  by (auto simp: pb_read_checked_def split: if_splits prod.splits option.splits)

lemma pb_read_skip_errmsg:
  "pb_read_skip s n = (Some bs, s') \<Longrightarrow> ierrmsg s' = ierrmsg s"
proof (induction s n rule: pb_read_skip.induct)
  case (1 s n)
  then show ?case
    by (subst (asm) (2) pb_read_skip.simps)
      (auto split: if_splits prod.splits option.splits dest: pb_read_checked_errmsg)
qed

lemma pb_read_errmsg: "pb_read s null n = (Some bs, s') \<Longrightarrow> ierrmsg s' = ierrmsg s"
  by (auto simp: pb_read_def split: if_splits dest: pb_read_skip_errmsg pb_read_checked_errmsg)

lemma open_substream_errmsg:
  "pb_make_string_substream s = (Some sub, s') \<Longrightarrow> ierrmsg sub = ierrmsg s'"
  by (auto simp: pb_make_string_substream_def split: prod.splits option.splits if_splits)

lemma close_substream_errmsg:
  assumes "pb_close_string_substream s sub = (ok, s')"
  shows "if ok then ierrmsg s' = ierrmsg sub else s' = s"
  using assms
  by (auto simp: pb_close_string_substream_def Let_def split: prod.splits if_splits dest: pb_read_errmsg)

text \<open>C12: an error message, once set, is kept by every later call of a reader on the same stream, and a substream
  opened on the stream carries it.  \<open>pb_close_string_substream\<close> is no such reader, and what it does is stated
  exactly: when draining the substream fails it leaves the parent as it was; when it succeeds the parent's message
  is the one of the substream.  So the message is kept across the life of a substream (opened with the message
  already set, read by any of the readers, closed), but a message set on the parent while the substream is open is
  replaced by the substream's, also by none (\<open>close_drops_parent_error\<close> below).\<close>

theorem first_error_kept:
  fixes s :: "'s pb_istream"
  assumes "ierrmsg s = Some e"
  shows "ierrmsg (snd (pb_read s null n)) = Some e \<and> ierrmsg (snd (pb_readbyte s)) = Some e \<and>
    ierrmsg (snd (pb_decode_varint s)) = Some e \<and> ierrmsg (snd (pb_decode_varint32_eof s)) = Some e \<and>
    ierrmsg (snd (pb_decode_varint32 s)) = Some e \<and> ierrmsg (snd (pb_decode_svarint s)) = Some e \<and>
    ierrmsg (snd (pb_decode_fixed32 s)) = Some e \<and> ierrmsg (snd (pb_decode_fixed64 s)) = Some e \<and>
    ierrmsg (snd (pb_decode_bool s)) = Some e \<and> ierrmsg (snd (pb_decode_tag s)) = Some e \<and>
    ierrmsg (snd (pb_skip_varint s)) = Some e \<and> ierrmsg (snd (pb_skip_string s)) = Some e \<and>
    ierrmsg (snd (pb_skip_field s wt)) = Some e \<and> ierrmsg (snd (read_raw_value s wt m)) = Some e \<and>
    ierrmsg (snd (pb_make_string_substream s)) = Some e \<and>
    (\<forall>sub s'. pb_make_string_substream s = (Some sub, s') \<longrightarrow> ierrmsg sub = Some e) \<and>
    (\<forall>parent :: 's pb_istream. case pb_close_string_substream parent s of
       (ok, parent') \<Rightarrow> if ok then ierrmsg parent' = Some e else parent' = parent) \<and>
    (\<forall>sub :: 's pb_istream. case pb_close_string_substream s sub of
       (ok, s') \<Rightarrow> if ok then ierrmsg s' = ierrmsg sub else ierrmsg s' = Some e)"
  (is "?readers1 \<and> ?readers2 \<and> ?readers3 \<and> ?readers4 \<and> ?readers5 \<and> ?readers6 \<and> ?readers7 \<and> ?readers8 \<and>
    ?readers9 \<and> ?readers10 \<and> ?readers11 \<and> ?readers12 \<and> ?readers13 \<and> ?readers14 \<and> ?open \<and> ?carried \<and>
    ?closed \<and> ?parent")
proof -
  have ?carried
  proof (intro allI impI)
    fix sub s' assume "pb_make_string_substream s = (Some sub, s')"
    then show "ierrmsg sub = Some e" using kept(15) [OF assms] by (simp add: open_substream_errmsg)
  qed
  moreover have ?closed using assms by (auto split: prod.splits dest!: close_substream_errmsg)
  moreover have ?parent using assms by (auto split: prod.splits dest!: close_substream_errmsg)
  ultimately show ?thesis by (simp add: kept assms)
qed

theorem first_error_kept_witness:
  "ierrmsg (snd (pb_decode_svarint (ierror ''invalid wire_type'' (stream_of [] :: unit pb_istream)))) = Some ''invalid wire_type'' \<and>
   (case pb_close_string_substream (stream_of [] :: unit pb_istream) (ierror ''io error'' (stream_of [7])) of
      (ok, parent) \<Rightarrow> if ok then ierrmsg parent = Some ''io error'' else parent = stream_of [])"
proof
  let ?s = "ierror ''invalid wire_type'' (stream_of [] :: unit pb_istream)"
  have "ierrmsg ?s = Some ''invalid wire_type''" by (simp add: stream_of_def pb_istream_from_buffer_def)
  from first_error_kept [OF this] show "ierrmsg (snd (pb_decode_svarint ?s)) = Some ''invalid wire_type''" by blast
next
  let ?s = "ierror ''io error'' (stream_of [7] :: unit pb_istream)"
  have "ierrmsg ?s = Some ''io error''" by (simp add: stream_of_def pb_istream_from_buffer_def)
  from first_error_kept [OF this, of True 1 0 0] show "case pb_close_string_substream (stream_of [] :: unit pb_istream) ?s of
    (ok, parent) \<Rightarrow> if ok then ierrmsg parent = Some ''io error'' else parent = stream_of []" by - (elim conjE, erule spec)
qed

text \<open>The message that is lost: reading a packed array with more entries than its member has room for sets it on
  the stream (\<open>pb_decode_pointer_field\<close>) and then closes the substream, which succeeds.\<close>

lemma close_drops_parent_error:
  "pb_close_string_substream (ierror ''too many array entries'' (stream_of []) :: unit pb_istream) (stream_of []) =
     (True, stream_of [])"
  by (simp add: pb_close_string_substream_def stream_of_def pb_istream_from_buffer_def)

end
