(* ===== verification/Pb_Encode_Spec.thy ===== *)
theory Pb_Encode_Spec
  imports Pb_Encode Pb_Stream_Props Pb_Iter_Props
begin

text \<open>
  What the message encoder promises.  \<open>message_bytes\<close> is a reference encoder: a function from a structure in
  memory to the bytes of its encoding, with no streams, sizing passes or buffers.  The contract
  \<open>implements f r\<close> says that a streaming encoder \<open>f\<close> counts, stores or fails as the result \<open>r\<close> of the
  reference demands; the combinators below carry it through the control flow of \<open>pb_encode.c\<close>.
\<close>

section \<open>The contract\<close>

text \<open>Bytes put out, and whether the encoder got to its end; \<open>None\<close> when it does not return.\<close>

type_synonym enc_bytes = "(bool \<times> byte list) option"

definition then_bytes :: "enc_bytes \<Rightarrow> enc_bytes \<Rightarrow> enc_bytes" where
  "then_bytes r q = (case r of None \<Rightarrow> None | Some (ok, a) \<Rightarrow>
     if ok then map_option (\<lambda>(ok, b). (ok, a @ b)) q else Some (False, a))"

definition emit :: "byte list \<Rightarrow> enc_bytes" where "emit out = Some (True, out)"
definition fail :: enc_bytes where "fail = Some (False, [])"

definition partial_out :: "'t pb_ostream \<Rightarrow> byte list \<Rightarrow> 't pb_ostream \<Rightarrow> bool" where
  "partial_out s out s' \<longleftrightarrow>
     (\<exists>p. prefix p out \<and> has_room s (length p) \<and> osink s' = osink (obuf s p) \<and>
          bytes_written s' = bytes_written (obuf s p) \<and> max_size s' = max_size s)"

definition ready :: "'t pb_ostream \<Rightarrow> bool" where
  "ready s \<longleftrightarrow> wf_obuf s \<and> unat (max_size s) < 2 ^ 63 \<and> oerrmsg s = None"

definition sizes :: "('t pb_ostream \<Rightarrow> 't enc_result) \<Rightarrow> bool \<Rightarrow> byte list \<Rightarrow> bool" where
  "sizes f ok out \<longleftrightarrow> (\<forall>s. is_sizing s \<longrightarrow> oerrmsg s = None \<longrightarrow>
     (\<exists>s'. f s = Some (ok, s') \<and> (if ok then s' = obuf s out else is_sizing s')))"

definition stores :: "('t pb_ostream \<Rightarrow> 't enc_result) \<Rightarrow> bool \<Rightarrow> byte list \<Rightarrow> bool" where
  "stores f ok out \<longleftrightarrow> (\<forall>s. ready s \<longrightarrow>
     (if ok \<and> has_room s (length out) then f s = Some (True, obuf s out)
      else \<exists>s'. f s = Some (False, s') \<and> partial_out s out s'))"

text \<open>Buffers are bounded by half of the address space, so that no sum of two lengths wraps.\<close>

definition implements :: "('t pb_ostream \<Rightarrow> 't enc_result) \<Rightarrow> enc_bytes \<Rightarrow> bool" where
  "implements f r \<longleftrightarrow> (case r of None \<Rightarrow> True | Some (ok, out) \<Rightarrow>
     sizes f ok out \<and> (length out < 2 ^ 63 \<longrightarrow> stores f ok out))"

lemma implements_None [simp]: "implements f None"
  by (simp add: implements_def)

lemma implementsI:
  "sizes f ok out \<Longrightarrow> (length out < 2 ^ 63 \<Longrightarrow> stores f ok out) \<Longrightarrow> implements f (Some (ok, out))"
  by (simp add: implements_def)

lemma then_bytes_simps [simp]:
  "then_bytes None q = None"
  "then_bytes (Some (False, a)) q = Some (False, a)"
  "then_bytes (Some (True, a)) None = None"
  "then_bytes (Some (True, a)) (Some (ok, b)) = Some (ok, a @ b)"
  by (simp_all add: then_bytes_def)

lemma and_then_simps [simp]:
  "and_then None k = None"
  "and_then (Some (False, s)) k = Some (False, s)"
  "and_then (Some (True, s)) k = k s"
  by (simp_all add: and_then_def)

lemma ready_obuf: "ready s \<Longrightarrow> has_room s (length out) \<Longrightarrow> ready (obuf s out)"
  by (simp add: ready_def wf_obuf_obuf)

lemma ready_wf: "ready s \<Longrightarrow> wf_obuf s \<and> is_buf_write s \<and> oerrmsg s = None"
  by (simp add: ready_def wf_obuf_def)

lemma partial_out_refl: "ready s \<Longrightarrow> partial_out s out s"
  unfolding partial_out_def by (intro exI [of _ "[]"]) (simp add: has_room_0 ready_wf)

lemma partial_out_error: "partial_out s out (oerror msg s') = partial_out s out s'"
  by (simp add: partial_out_def oerror_def)

lemma partial_out_append: "partial_out s a s' \<Longrightarrow> partial_out s (a @ b) s'"
  unfolding partial_out_def by (meson prefix_prefix)

lemma partial_out_obuf:
  assumes "ready s" and "has_room s (length a)" and "partial_out (obuf s a) b s'"
  shows "partial_out s (a @ b) s'"
proof -
  obtain p where p: "prefix p b" "has_room (obuf s a) (length p)" "osink s' = osink (obuf (obuf s a) p)"
    "bytes_written s' = bytes_written (obuf (obuf s a) p)" "max_size s' = max_size s"
    using assms(3) by (auto simp: partial_out_def)
  then have "prefix (a @ p) (a @ b)" "has_room s (length (a @ p))"
    using assms(1,2) ready_wf [of s] by (simp_all add: has_room_obuf)
  with p show ?thesis
    unfolding partial_out_def by (intro exI [of _ "a @ p"]) (simp add: obuf_append)
qed

lemma implements_emits:
  assumes "emits f out"
  shows "implements (\<lambda>s. Some (f s)) (emit out)"
  unfolding emit_def
proof (rule implementsI)
  show "sizes (\<lambda>s. Some (f s)) True out"
    using assms by (simp add: sizes_def emits_def)
  have "\<exists>s'. Some (f s) = Some (False, s') \<and> partial_out s out s'"
    if "ready s" and "\<not> has_room s (length out)" for s
  proof -
    have "fst (f s) = False" "partial_write s out (snd (f s))"
      using assms that ready_wf [of s] by (auto simp: emits_def)
    then show ?thesis
      by (cases "f s") (auto simp: partial_write_def partial_out_def)
  qed
  then show "stores (\<lambda>s. Some (f s)) True out"
    using assms by (simp add: stores_def emits_def ready_wf)
qed

lemma implements_fail: "implements (\<lambda>s. Some (False, oerror msg s)) fail"
  by (auto simp: fail_def sizes_def stores_def is_sizing_def oerror_def partial_out_refl
      intro!: implementsI partial_out_refl [THEN partial_out_error [THEN iffD2], unfolded oerror_def])

lemma implements_fail_silent: "implements (\<lambda>s. Some (False, s)) fail"
  by (auto simp: fail_def sizes_def stores_def partial_out_refl intro!: implementsI)

lemma implements_done: "implements (\<lambda>s. Some (True, s)) (emit [])"
  by (auto simp: emit_def sizes_def stores_def has_room_0 ready_wf intro!: implementsI)

lemma implements_then:
  assumes f: "implements f r" and g: "implements g q"
  shows "implements (\<lambda>s. and_then (f s) g) (then_bytes r q)"
proof (cases r)
  case (Some p)
  obtain ok a where p: "p = (ok, a)" by (cases p)
  note f = f [unfolded Some p implements_def, simplified]
  show ?thesis
  proof (cases ok)
    case False
    then show ?thesis
      using f Some p by (auto simp: implements_def sizes_def stores_def)
  next
    case True
    show ?thesis
    proof (cases q)
      case (Some z)
      obtain ok' b where z: "z = (ok', b)" by (cases z)
      note g = g [unfolded Some z implements_def, simplified]
      have "implements (\<lambda>s. and_then (f s) g) (Some (ok', a @ b))"
      proof (rule implementsI)
        show "sizes (\<lambda>s. and_then (f s) g) ok' (a @ b)"
          unfolding sizes_def
        proof (intro allI impI)
          fix s :: "'a pb_ostream" assume s: "is_sizing s" "oerrmsg s = None"
          then have "f s = Some (True, obuf s a)"
            using f True by (auto simp: sizes_def)
          moreover have "is_sizing (obuf s a)" "oerrmsg (obuf s a) = None" using s by simp_all
          then obtain s' where "g (obuf s a) = Some (ok', s')" "if ok' then s' = obuf (obuf s a) b else is_sizing s'"
            using g s unfolding sizes_def by blast
          ultimately show "\<exists>s'. and_then (f s) g = Some (ok', s') \<and> (if ok' then s' = obuf s (a @ b) else is_sizing s')"
            by (simp add: obuf_append)
        qed
        assume "length (a @ b) < 2 ^ 63"
        then have f': "stores f True a" and g': "stores g ok' b" using f g True by auto
        show "stores (\<lambda>s. and_then (f s) g) ok' (a @ b)"
          unfolding stores_def
        proof (intro allI impI)
          fix s :: "'a pb_ostream" assume s: "ready s"
          show "if ok' \<and> has_room s (length (a @ b)) then and_then (f s) g = Some (True, obuf s (a @ b))
              else \<exists>s'. and_then (f s) g = Some (False, s') \<and> partial_out s (a @ b) s'"
          proof (cases "has_room s (length a)")
            case False
            then have "\<not> has_room s (length (a @ b))" using has_room_mono [of s "length (a @ b)"] by auto
            with False f' s show ?thesis
              by (auto simp: stores_def dest!: spec [of _ s]) (auto intro: partial_out_append)
          next
            case room: True
            then have fs: "f s = Some (True, obuf s a)" using f' s by (simp add: stores_def)
            have "has_room (obuf s a) (length b) = has_room s (length (a @ b))"
              using room s ready_wf [of s] by (simp add: has_room_obuf)
            then show ?thesis
              using g' ready_obuf [OF s room] partial_out_obuf [OF s room]
              by (auto simp: stores_def fs obuf_append split: if_splits)
          qed
        qed
      qed
      then show ?thesis using Some z \<open>r = Some p\<close> p True by simp
    qed (use Some p True in simp)
  qed
qed simp

lemma implements_cong: "implements g r \<Longrightarrow> (\<And>s. f s = g s) \<Longrightarrow> implements f r"
proof -
  assume "implements g r" and "\<And>s. f s = g s"
  moreover from this have "f = g" by auto
  ultimately show ?thesis by simp
qed


section \<open>The reference encoder\<close>

text \<open>
  \<open>cb\<close> and \<open>ext\<close> give the bytes that user callbacks put out; \<open>d\<close> is the descriptor array at an address.
\<close>

record ref_env =
  rdescr :: "addr \<Rightarrow> pb_field list"
  cb_bytes :: "addr \<Rightarrow> pb_field \<Rightarrow> addr \<Rightarrow> mem \<Rightarrow> enc_bytes"
  ext_bytes :: "addr \<Rightarrow> addr \<Rightarrow> mem \<Rightarrow> enc_bytes"

type_synonym ref_rec = "pb_field list \<Rightarrow> addr \<Rightarrow> mem \<Rightarrow> enc_bytes"

text \<open>A length prefix in front of an encoding; nothing at all when that fails.\<close>

definition delimit :: "enc_bytes \<Rightarrow> enc_bytes" where
  "delimit r = (case r of None \<Rightarrow> None | Some (ok, b) \<Rightarrow>
     if ok then emit (varint_enc (of_nat (length b)) @ b) else fail)"

definition varint_bytes :: "u64 option \<Rightarrow> enc_bytes" where
  "varint_bytes v = (case v of None \<Rightarrow> fail | Some v \<Rightarrow> emit (varint_enc v))"

definition value_bytes :: "ref_env \<Rightarrow> ref_rec \<Rightarrow> pb_field \<Rightarrow> addr \<Rightarrow> mem \<Rightarrow> enc_bytes" where
  "value_bytes env rec field src m =
     (let lt = PB_LTYPE (ftype field) in
      if lt = PB_LTYPE_BOOL then emit (varint_enc (if safe_read_bool m src then 1 else 0))
      else if lt = PB_LTYPE_VARINT then varint_bytes (load_signed m src (data_size field))
      else if lt = PB_LTYPE_UVARINT then varint_bytes (load_unsigned m src (data_size field))
      else if lt = PB_LTYPE_SVARINT then varint_bytes (map_option zigzag (load_signed m src (data_size field)))
      else if lt = PB_LTYPE_FIXED32 then emit (fixed32_bytes (load32 m src))
      else if lt = PB_LTYPE_FIXED64 then emit (fixed64_bytes (load_int m src 8))
      else if lt = PB_LTYPE_BYTES then
        if src = 0 then delimit (emit [])
        else if PB_ATYPE (ftype field) = PB_ATYPE_STATIC \<and>
                ucast (data_size field) - offsetof_bytes < ucast (load32 m src) then fail
        else delimit (emit (load_bytes m (src + offsetof_bytes) (unat (load32 m src))))
      else if lt = PB_LTYPE_STRING then
        if src = 0 then delimit (emit [])
        else delimit (emit (load_bytes m src (unat (pb_strnlen m src 0
               (if PB_ATYPE (ftype field) = PB_ATYPE_POINTER then - 1 else ucast (data_size field))))))
      else if lt = PB_LTYPE_SUBMESSAGE then
        if fptr field = 0 then fail else delimit (rec (rdescr env (fptr field)) src m)
      else if lt = PB_LTYPE_FIXED_LENGTH_BYTES then delimit (emit (load_bytes m src (unat (data_size field))))
      else None)"

definition tag_bytes :: "pb_field \<Rightarrow> enc_bytes" where
  "tag_bytes field = (case wire_type_of_ltype (PB_LTYPE (ftype field)) of
     None \<Rightarrow> fail | Some wt \<Rightarrow> emit (varint_enc (tag_value wt (tag field))))"

primrec items_bytes :: "(addr \<Rightarrow> enc_bytes) \<Rightarrow> pb_field \<Rightarrow> nat \<Rightarrow> addr \<Rightarrow> enc_bytes" where
  "items_bytes item field 0 p = emit []"
| "items_bytes item field (Suc k) p =
     then_bytes (item p) (items_bytes item field k (p + ucast (data_size field)))"

definition array_bytes :: "ref_env \<Rightarrow> ref_rec \<Rightarrow> pb_field \<Rightarrow> addr \<Rightarrow> size_t \<Rightarrow> mem \<Rightarrow> enc_bytes" where
  "array_bytes env rec field data count m =
     (if count = 0 then emit []
      else if PB_ATYPE (ftype field) \<noteq> PB_ATYPE_POINTER \<and> ucast (array_size field) < count then fail
      else if PB_LTYPE (ftype field) \<le> PB_LTYPE_LAST_PACKABLE then
        then_bytes (emit (varint_enc (tag_value PB_WT_STRING (tag field))))
          (delimit (items_bytes (\<lambda>p. value_bytes env rec field p m) field (unat count) data))
      else
        items_bytes (\<lambda>p. then_bytes (tag_bytes field)
          (value_bytes env rec field
            (if PB_ATYPE (ftype field) = PB_ATYPE_POINTER \<and>
                (PB_LTYPE (ftype field) = PB_LTYPE_STRING \<or> PB_LTYPE (ftype field) = PB_LTYPE_BYTES)
             then load_ptr m p else p) m)) field (unat count) data)"

text \<open>Whether a field is present, and where its value is.\<close>

definition has_value :: "ref_env \<Rightarrow> nat \<Rightarrow> pb_field \<Rightarrow> addr \<Rightarrow> mem \<Rightarrow> bool option" where
  "has_value env n field data m =
     map_option (\<lambda>has. if size_offset field = 0 \<and> PB_ATYPE (ftype field) = PB_ATYPE_POINTER
                      then load_ptr m data \<noteq> 0 else has)
       (if size_offset field \<noteq> 0 then Some (safe_read_bool m (data + scast (size_offset field)))
        else if PB_HTYPE (ftype field) = PB_HTYPE_OPTIONAL
        then map_option Not (pb_check_proto3_default_value n (rdescr env) m field data)
        else Some True)"

definition value_addr :: "pb_field \<Rightarrow> addr \<Rightarrow> mem \<Rightarrow> addr" where
  "value_addr field data m = (if PB_ATYPE (ftype field) = PB_ATYPE_POINTER then load_ptr m data else data)"

definition basic_bytes :: "ref_env \<Rightarrow> nat \<Rightarrow> ref_rec \<Rightarrow> pb_field \<Rightarrow> addr \<Rightarrow> mem \<Rightarrow> enc_bytes" where
  "basic_bytes env n rec field data m =
     (let src = value_addr field data m; h = PB_HTYPE (ftype field);
          psize = data + scast (size_offset field);
          one = then_bytes (tag_bytes field) (value_bytes env rec field src m) in
      case has_value env n field data m of
        None \<Rightarrow> None
      | Some has \<Rightarrow>
          if h = PB_HTYPE_REQUIRED then if src = 0 then fail else one
          else if h = PB_HTYPE_OPTIONAL then if has then one else emit []
          else if h = PB_HTYPE_REPEATED then
            array_bytes env rec field src (ucast (if size_offset field \<noteq> 0 then load32 m psize else array_size field)) m
          else if size_offset field = 0 then None
          else if load32 m psize = tag field then one else emit [])"

definition field_bytes :: "ref_env \<Rightarrow> nat \<Rightarrow> ref_rec \<Rightarrow> pb_field \<Rightarrow> addr \<Rightarrow> mem \<Rightarrow> enc_bytes" where
  "field_bytes env n rec field data m =
     (if PB_ATYPE (ftype field) = PB_ATYPE_STATIC \<or> PB_ATYPE (ftype field) = PB_ATYPE_POINTER
      then basic_bytes env n rec field data m
      else if PB_ATYPE (ftype field) = PB_ATYPE_CALLBACK then
        if load_ptr m data = 0 then emit []
        else cb_bytes env (load_ptr m data) field (data + offsetof_callback_arg) m
      else fail)"

primrec extensions_bytes :: "ref_env \<Rightarrow> nat \<Rightarrow> ref_rec \<Rightarrow> mem \<Rightarrow> nat \<Rightarrow> addr \<Rightarrow> enc_bytes" where
  "extensions_bytes env n rec m 0 ext = (if ext = 0 then emit [] else None)"
| "extensions_bytes env n rec m (Suc k) ext =
     (if ext = 0 then emit []
      else
        let encode = load_ptr m (load_ptr m (ext + offsetof_ext_type) + offsetof_exttype_encode);
            field = extension_field (rdescr env) ext m in
        then_bytes (if encode \<noteq> 0 then ext_bytes env encode ext m
                    else field_bytes env n rec field
                      (if PB_ATYPE (ftype field) = PB_ATYPE_POINTER then ext + offsetof_ext_dest
                       else load_ptr m (ext + offsetof_ext_dest)) m)
          (extensions_bytes env n rec m k (load_ptr m (ext + offsetof_ext_next))))"

definition entry_bytes :: "ref_env \<Rightarrow> nat \<Rightarrow> ref_rec \<Rightarrow> pb_field \<Rightarrow> addr \<Rightarrow> mem \<Rightarrow> enc_bytes" where
  "entry_bytes env n rec field data m =
     (if PB_LTYPE (ftype field) = PB_LTYPE_EXTENSION
      then extensions_bytes env n rec m n (load_ptr m data)
      else field_bytes env n rec field data m)"

text \<open>One result after the other, up to the first that fails.\<close>

primrec sequence_bytes :: "enc_bytes list \<Rightarrow> enc_bytes" where
  "sequence_bytes [] = emit []"
| "sequence_bytes (r # rs) = then_bytes r (sequence_bytes rs)"

primrec message_bytes :: "nat \<Rightarrow> ref_env \<Rightarrow> ref_rec" where
  "message_bytes 0 env = (\<lambda>fs src m. None)"
| "message_bytes (Suc n) env = (\<lambda>fs src m.
     sequence_bytes (map (\<lambda>i. entry_bytes env n (message_bytes n env) (fs ! i) (pData (iter_at fs src i)) m)
       [0..<length fs]))"

end
