(* ===== verification/Pb_Encode_Correct.thy ===== *)
theory Pb_Encode_Correct
  imports Pb_Encode_Spec
begin

text \<open>
  The message encoder implements the reference encoder.  The locale \<open>encoder\<close> holds what it relies on: callbacks
  that put out the same bytes in every pass, and descriptor arrays without a zero tag.
\<close>

section \<open>Two passes\<close>

lemma oerror_simps [simp]:
  "osink (oerror msg s) = osink s" "max_size (oerror msg s) = max_size s"
  "bytes_written (oerror msg s) = bytes_written s" "is_sizing (oerror msg s) = is_sizing s"
  by (simp_all add: oerror_def is_sizing_def)

lemma sizing_stream [simp]: "is_sizing PB_OSTREAM_SIZING" "oerrmsg PB_OSTREAM_SIZING = None"
  by (simp_all add: PB_OSTREAM_SIZING_def is_sizing_def)

lemma bytes_written_sizing: "bytes_written (obuf PB_OSTREAM_SIZING out) = of_nat (length out)"
  by (simp add: PB_OSTREAM_SIZING_def obuf_def)

lemma sizing_result:
  assumes "sizes f ok out"
  obtains s' where "f PB_OSTREAM_SIZING = Some (ok, s')" and "ok \<longrightarrow> bytes_written s' = of_nat (length out)"
  using assms unfolding sizes_def by (metis sizing_stream bytes_written_sizing)

lemma sizing_write: "is_sizing s \<Longrightarrow> pb_write s [] (of_nat (length out)) = (True, obuf s out)"
  by (simp add: pb_write_def obuf_def is_sizing_iff)

text \<open>What \<open>encode_array\<close> does after the length: counts, or writes with the stream itself.\<close>

lemma implements_shortcut:
  assumes "implements f (Some (True, out))"
  shows "implements (\<lambda>s. if is_sizing s then Some (pb_write s [] (of_nat (length out))) else f s) (emit out)"
  using assms
  by (auto simp: emit_def implements_def sizes_def stores_def sizing_write is_sizing_iff dest!: ready_wf)
     (auto simp: is_buf_write_def)

text \<open>What \<open>pb_encode_submessage\<close> does: counts, or writes with a substream of exactly that length.\<close>

definition through_substream :: "('t pb_ostream \<Rightarrow> 't enc_result) \<Rightarrow> size_t \<Rightarrow> 't pb_ostream \<Rightarrow> 't enc_result" where
  "through_substream f sz s =
     (if is_sizing s then Some (pb_write s [] sz)
      else if max_size s < bytes_written s + sz then Some (False, oerror ''stream full'' s)
      else case f \<lparr>osink = osink s, max_size = sz, bytes_written = 0, oerrmsg = None\<rparr> of
             None \<Rightarrow> None
           | Some (status, substream) \<Rightarrow>
               let s = s\<lparr>bytes_written := bytes_written s + bytes_written substream,
                         osink := osink substream, oerrmsg := oerrmsg substream\<rparr> in
               if bytes_written substream \<noteq> sz then Some (False, oerror ''submsg size changed'' s)
               else Some (status, s))"

lemma room_no_wrap:
  assumes "ready s" and "n < 2 ^ 63"
  shows "max_size s < bytes_written s + of_nat n \<longleftrightarrow> \<not> has_room s n"
proof -
  have "unat (bytes_written s) < 2 ^ 63" "unat (of_nat n :: size_t) = n"
    using assms by (auto simp: ready_def wf_obuf_def word_le_nat_alt unat_of_nat64)
  then have "unat (bytes_written s + of_nat n) = unat (bytes_written s) + n"
    using assms(2) by (simp add: unat_word_ariths)
  then show ?thesis by (simp add: has_room_def word_less_nat_alt not_le)
qed

lemma implements_substream:
  assumes f: "implements f (Some (True, out))"
  shows "implements (through_substream f (of_nat (length out))) (emit out)"
  unfolding emit_def
proof (rule implementsI)
  show "sizes (through_substream f (of_nat (length out))) True out"
    by (simp add: sizes_def through_substream_def sizing_write)
  assume len: "length out < 2 ^ 63"
  show "stores (through_substream f (of_nat (length out))) True out"
    unfolding stores_def
  proof (intro allI impI)
    fix s :: "'a pb_ostream" assume s: "ready s"
    then obtain w where w: "osink s = BufWrite w" by (auto dest!: ready_wf simp: is_buf_write_iff)
    let ?sub = "\<lparr>osink = osink s, max_size = of_nat (length out), bytes_written = 0, oerrmsg = None\<rparr>"
    have n: "unat (of_nat (length out) :: size_t) = length out" using len by (simp add: unat_of_nat64)
    then have "ready ?sub" "has_room ?sub (length out)"
      using len by (simp_all add: ready_def wf_obuf_def is_buf_write_def w has_room_def)
    then have "f ?sub = Some (True, obuf ?sub out)"
      using f len by (simp add: implements_def stores_def)
    then show "if True \<and> has_room s (length out)
        then through_substream f (of_nat (length out)) s = Some (True, obuf s out)
        else \<exists>s'. through_substream f (of_nat (length out)) s = Some (False, s') \<and> partial_out s out s'"
      using room_no_wrap [OF s len] ready_wf [OF s] partial_out_refl [OF s]
      by (auto simp: through_substream_def is_sizing_iff w obuf_def partial_out_error)
  qed
qed

lemma implements_submessage:
  assumes "implements (\<lambda>s. rec s fs src m) r"
  shows "implements (\<lambda>s. pb_encode_submessage rec s fs src m) (delimit r)"
proof (cases r)
  case (Some p)
  obtain ok out where p: "p = (ok, out)" by (cases p)
  have sz: "sizes (\<lambda>s. rec s fs src m) ok out" using assms Some p by (simp add: implements_def)
  then obtain s' where s': "rec PB_OSTREAM_SIZING fs src m = Some (ok, s')"
    "ok \<longrightarrow> bytes_written s' = of_nat (length out)" by (rule sizing_result)
  show ?thesis
  proof (cases ok)
    case False
    have "sizes (\<lambda>s. Some (False, s\<lparr>oerrmsg := oerrmsg s'\<rparr>)) False ([] :: byte list)"
      "stores (\<lambda>s. Some (False, s\<lparr>oerrmsg := oerrmsg s'\<rparr>)) False ([] :: byte list)"
      by (auto simp: sizes_def stores_def is_sizing_def partial_out_def has_room_0 ready_wf)
    then show ?thesis
      using False s' Some p by (simp add: pb_encode_submessage_def delimit_def fail_def implements_def)
  next
    case True
    have "implements (\<lambda>s. and_then (Some (pb_encode_varint s (of_nat (length out))))
        (through_substream (\<lambda>s. rec s fs src m) (of_nat (length out))))
        (then_bytes (emit (varint_enc (of_nat (length out)))) (emit out))"
      using assms Some p True
      by (intro implements_then implements_emits implements_substream emits_varint) simp
    moreover have sz: "bytes_written s' = of_nat (length out)" using s'(2) True by simp
    have "(\<lambda>s. pb_encode_submessage rec s fs src m) =
        (\<lambda>s. and_then (Some (pb_encode_varint s (of_nat (length out))))
          (through_substream (\<lambda>s. rec s fs src m) (of_nat (length out))))"
      unfolding pb_encode_submessage_def through_substream_def [abs_def] s'(1) option.case prod.case Let_def sz
      using True by simp
    ultimately show ?thesis
      using True Some p by (simp add: delimit_def emit_def)
  qed
qed (simp add: delimit_def)

section \<open>Arrays\<close>

lemma implements_items:
  assumes "\<And>p. implements (\<lambda>s. item s p) (ritem p)"
  shows "implements (\<lambda>s. encode_items item field k s p) (items_bytes ritem field k p)"
proof (induction k arbitrary: p)
  case (Suc k)
  then show ?case by (simp add: implements_then assms)
qed (simp add: implements_done)

lemma length_items:
  assumes "\<And>p b. item p = Some (True, b) \<Longrightarrow> length b = w" and "\<And>p. \<exists>b. item p = Some (True, b)"
  shows "\<exists>b. items_bytes item field k p = Some (True, b) \<and> length b = w * k"
proof (induction k arbitrary: p)
  case (Suc k)
  obtain b where "item p = Some (True, b)" using assms(2) by blast
  with Suc [of "p + ucast (data_size field)"] assms(1) [OF this] show ?case by auto
qed (simp add: emit_def)


locale encoder =
  fixes env :: "'t enc_env" and ref :: ref_env
  assumes descr: "rdescr ref = descr env"
    and wf: "wf_fields (descr env a)"
    and cb: "implements (\<lambda>s. enc_cb env a s field arg m) (cb_bytes ref a field arg m)"
    and ext: "implements (\<lambda>s. ext_enc env a s e m) (ext_bytes ref a e m)"
begin

definition rec_ok :: "'t enc_rec \<Rightarrow> ref_rec \<Rightarrow> bool" where
  "rec_ok rec rref \<longleftrightarrow> (\<forall>fs src m. wf_fields fs \<longrightarrow> implements (\<lambda>s. rec s fs src m) (rref fs src m))"

lemmas implements_intros =
  implements_fail implements_done implements_emits [OF emits_varint] implements_emits [OF emits_svarint]
  implements_emits [OF emits_fixed32] implements_emits [OF emits_fixed64]

lemma implements_string:
  "length buffer = unat sz \<Longrightarrow> implements (\<lambda>s. Some (pb_encode_string s buffer sz)) (delimit (emit buffer))"
  using implements_emits [OF emits_string, of buffer sz] by (simp add: delimit_def emit_def)

lemma varint_leaf:
  "implements (\<lambda>s. Some (pb_enc_varint s field src m)) (varint_bytes (load_signed m src (data_size field)))"
  "implements (\<lambda>s. Some (pb_enc_uvarint s field src m)) (varint_bytes (load_unsigned m src (data_size field)))"
  by (cases "load_signed m src (data_size field)"; cases "load_unsigned m src (data_size field)";
      simp add: pb_enc_varint_def pb_enc_uvarint_def varint_bytes_def implements_intros)+

lemma svarint_leaf: "implements (\<lambda>s. Some (pb_enc_svarint s field src m))
    (varint_bytes (map_option zigzag (load_signed m src (data_size field))))"
  by (cases "load_signed m src (data_size field)")
    (simp_all add: pb_enc_svarint_def varint_bytes_def implements_intros)

lemma bytes_leaf: "implements (\<lambda>s. Some (pb_enc_bytes s field src m))
    (if src = 0 then delimit (emit [])
     else if PB_ATYPE (ftype field) = PB_ATYPE_STATIC \<and>
             ucast (data_size field) - offsetof_bytes < ucast (load32 m src) then fail
     else delimit (emit (load_bytes m (src + offsetof_bytes) (unat (load32 m src)))))"
proof -
  have "implements (\<lambda>s. Some (pb_encode_string s [] 0)) (delimit (emit []))" by (rule implements_string) simp
  then show ?thesis by (auto simp: pb_enc_bytes_def Let_def implements_string implements_fail)
qed

lemma string_leaf: "implements (\<lambda>s. Some (pb_enc_string s field src m))
    (if src = 0 then delimit (emit [])
     else delimit (emit (load_bytes m src (unat (pb_strnlen m src 0
            (if PB_ATYPE (ftype field) = PB_ATYPE_POINTER then - 1 else ucast (data_size field)))))))"
  using implements_string [of "[]" 0] by (simp add: pb_enc_string_def Let_def implements_string load_bytes_def [of _ _ 0])

lemma submessage_leaf:
  "rec_ok rec rref \<Longrightarrow> implements (\<lambda>s. pb_enc_submessage env rec s field src m)
    (if fptr field = 0 then fail else delimit (rref (rdescr ref (fptr field)) src m))"
  using wf [of "fptr field"]
  by (simp add: pb_enc_submessage_def rec_ok_def descr implements_fail implements_submessage)

lemma simple_leaf:
  "implements (\<lambda>s. Some (pb_enc_bool s field src m)) (emit (varint_enc (if safe_read_bool m src then 1 else 0)))"
  "implements (\<lambda>s. Some (pb_enc_fixed32 s field src m)) (emit (fixed32_bytes (load32 m src)))"
  "implements (\<lambda>s. Some (pb_enc_fixed64 s field src m)) (emit (fixed64_bytes (load_int m src 8)))"
  "implements (\<lambda>s. Some (pb_enc_fixed_length_bytes s field src m))
     (delimit (emit (load_bytes m src (unat (data_size field)))))"
  by (simp_all add: pb_enc_bool_def pb_enc_fixed32_def pb_enc_fixed64_def pb_enc_fixed_length_bytes_def
      implements_intros implements_string)

lemma implements_if:
  "(b \<Longrightarrow> implements f r) \<Longrightarrow> (\<not> b \<Longrightarrow> implements g q) \<Longrightarrow>
     implements (\<lambda>s. if b then f s else g s) (if b then r else q)"
  by simp

lemma value_implements:
  assumes "rec_ok rec rref"
  shows "implements (\<lambda>s. PB_ENCODERS env rec (PB_LTYPE (ftype field)) s field src m)
    (value_bytes ref rref field src m)"
  unfolding PB_ENCODERS_def value_bytes_def Let_def
  by (intro implements_if simple_leaf varint_leaf svarint_leaf bytes_leaf string_leaf submessage_leaf
      assms implements_None)

lemma tag_implements: "implements (\<lambda>s. Some (pb_encode_tag_for_field s field)) (tag_bytes field)"
  by (auto simp: pb_encode_tag_for_field_def tag_bytes_def implements_fail split: option.splits
      intro: implements_emits emits_tag)

lemma one_implements:
  assumes "rec_ok rec rref"
  shows "implements (\<lambda>s. and_then (Some (pb_encode_tag_for_field s field))
      (\<lambda>s. PB_ENCODERS env rec (PB_LTYPE (ftype field)) s field src m))
    (then_bytes (tag_bytes field) (value_bytes ref rref field src m))"
  by (intro implements_then tag_implements value_implements assms)

text \<open>The packed size that is announced is the length of what follows.\<close>

lemma packed_size_items:
  assumes "rec_ok rec rref"
    and "items_bytes (\<lambda>p. value_bytes ref rref field p m) field (unat (ucast (c :: u32) :: size_t)) data = Some (ok, out)"
  shows "\<exists>sz. packed_size (PB_ENCODERS env rec (PB_LTYPE (ftype field))) field data (ucast c) m = Some (ok, sz) \<and>
    (ok \<longrightarrow> sz = of_nat (length out))"
proof (cases "PB_LTYPE (ftype field) = PB_LTYPE_FIXED32 \<or> PB_LTYPE (ftype field) = PB_LTYPE_FIXED64")
  case True
  let ?w = "if PB_LTYPE (ftype field) = PB_LTYPE_FIXED32 then 4 else 8"
  have "\<exists>b. items_bytes (\<lambda>p. value_bytes ref rref field p m) field (unat c) data = Some (True, b) \<and> length b = ?w * unat c"
    by (rule length_items) (use True in \<open>auto simp: value_bytes_def Let_def emit_def pb_consts\<close>)
  then have "ok" "length out = ?w * unat c" using assms(2) by auto
  then show ?thesis using True by (auto simp: packed_size_def pb_consts)
next
  case False
  have "implements (\<lambda>s. encode_items (\<lambda>s p. PB_ENCODERS env rec (PB_LTYPE (ftype field)) s field p m) field
      (unat (ucast c :: size_t)) s data) (Some (ok, out))"
    using implements_items [of "\<lambda>s p. PB_ENCODERS env rec (PB_LTYPE (ftype field)) s field p m",
        OF value_implements [OF assms(1)]] assms(2) by metis
  then have "sizes (\<lambda>s. encode_items (\<lambda>s p. PB_ENCODERS env rec (PB_LTYPE (ftype field)) s field p m) field
      (unat (ucast c :: size_t)) s data) ok out" by (simp add: implements_def)
  then obtain s' where "encode_items (\<lambda>s p. PB_ENCODERS env rec (PB_LTYPE (ftype field)) s field p m) field
      (unat (ucast c :: size_t)) PB_OSTREAM_SIZING data = Some (ok, s')" "ok \<longrightarrow> bytes_written s' = of_nat (length out)"
    by (rule sizing_result)
  with False show ?thesis by (auto simp: packed_size_def)
qed


lemma packed_implements:
  assumes "rec_ok rec rref" and "\<And>s. func s = PB_ENCODERS env rec (PB_LTYPE (ftype field)) s"
  shows "implements (\<lambda>s. case packed_size func field data (ucast (c :: u32)) m of
            None \<Rightarrow> None
          | Some (False, sz) \<Rightarrow> Some (False, s)
          | Some (True, sz) \<Rightarrow>
              and_then (Some (pb_encode_varint s sz)) (\<lambda>s.
                if is_sizing s then Some (pb_write s [] sz)
                else encode_items (\<lambda>s p. func s field p m) field (unat (ucast c :: size_t)) s data))
     (delimit (items_bytes (\<lambda>p. value_bytes ref rref field p m) field (unat (ucast c :: size_t)) data))"
    (is "implements ?f (delimit ?r)")
proof (cases ?r)
  case (Some p)
  obtain ok out where p: "p = (ok, out)" by (cases p)
  have func: "func = PB_ENCODERS env rec (PB_LTYPE (ftype field))" using assms(2) by auto
  obtain sz where sz: "packed_size func field data (ucast c) m = Some (ok, sz)" "ok \<longrightarrow> sz = of_nat (length out)"
    using packed_size_items [OF assms(1), of field m c data ok out] Some p func by auto
  have items: "implements (\<lambda>s. encode_items (\<lambda>s p. func s field p m) field (unat (ucast c :: size_t)) s data) ?r"
    unfolding func by (intro implements_items value_implements assms)
  show ?thesis
  proof (cases ok)
    case True
    have "implements (\<lambda>s. and_then (Some (pb_encode_varint s (of_nat (length out)))) (\<lambda>s.
        if is_sizing s then Some (pb_write s [] (of_nat (length out)))
        else encode_items (\<lambda>s p. func s field p m) field (unat (ucast c :: size_t)) s data))
      (then_bytes (emit (varint_enc (of_nat (length out)))) (emit out))"
      using items Some p True
      by (intro implements_then implements_emits emits_varint implements_shortcut) simp
    then show ?thesis using sz True Some p by (simp add: delimit_def emit_def)
  qed (use sz Some p in \<open>simp add: delimit_def implements_fail_silent\<close>)
qed (simp add: delimit_def)

lemma array_implements:
  assumes rec: "rec_ok rec rref"
  shows "implements (\<lambda>s. encode_array (PB_ENCODERS env rec (PB_LTYPE (ftype field))) s field data (ucast (c :: u32)) m)
    (array_bytes ref rref field data (ucast c) m)"
proof -
  have deref: "(if PB_ATYPE (ftype field) = PB_ATYPE_POINTER \<and>
        (PB_LTYPE (ftype field) = PB_LTYPE_STRING \<or> PB_LTYPE (ftype field) = PB_LTYPE_BYTES)
      then PB_ENCODERS env rec (PB_LTYPE (ftype field)) s field (load_ptr m p) m
      else PB_ENCODERS env rec (PB_LTYPE (ftype field)) s field p m) =
    PB_ENCODERS env rec (PB_LTYPE (ftype field)) s field (if PB_ATYPE (ftype field) = PB_ATYPE_POINTER \<and>
        (PB_LTYPE (ftype field) = PB_LTYPE_STRING \<or> PB_LTYPE (ftype field) = PB_LTYPE_BYTES)
      then load_ptr m p else p) m" for s p
    by auto
  show ?thesis
    unfolding encode_array_def array_bytes_def deref
    by (intro implements_if implements_done implements_fail implements_then implements_emits emits_tag
        packed_implements [OF rec refl] implements_items tag_implements value_implements rec)
qed

section \<open>Fields\<close>

lemma implements_option:
  "(\<And>a. x = Some a \<Longrightarrow> implements (\<lambda>s. f a s) (r a)) \<Longrightarrow>
     implements (\<lambda>s. case x of None \<Rightarrow> None | Some a \<Rightarrow> f a s) (case x of None \<Rightarrow> None | Some a \<Rightarrow> r a)"
  by (cases x) simp_all

lemma basic_implements:
  assumes rec: "rec_ok rec rref"
  shows "implements (\<lambda>s. encode_basic_field env n rec s field data m) (basic_bytes ref n rref field data m)"
proof -
  let ?present = "if size_offset field \<noteq> 0 then Some (safe_read_bool m (data + scast (size_offset field)))
      else if PB_HTYPE (ftype field) = PB_HTYPE_OPTIONAL
      then map_option Not (pb_check_proto3_default_value n (descr env) m field data) else Some True"
  show ?thesis
  proof (cases ?present)
    case (Some has)
    show ?thesis
      unfolding encode_basic_field_def basic_bytes_def has_value_def Let_def value_addr_def descr Some
        option.map option.case
      by (intro implements_if implements_fail implements_done implements_None one_implements [OF rec]
          array_implements [OF rec])
  next
    case None
    then show ?thesis
      unfolding basic_bytes_def has_value_def Let_def descr by (simp only: option.map option.case implements_None)
  qed
qed

lemma callback_implements:
  "implements (\<lambda>s. encode_callback_field env s field data m)
    (if load_ptr m data = 0 then emit []
     else cb_bytes ref (load_ptr m data) field (data + offsetof_callback_arg) m)"
proof (cases "load_ptr m data = 0")
  case False
  have err: "implements (\<lambda>s. case f s of None \<Rightarrow> None | Some (False, s) \<Rightarrow> Some (False, oerror msg s)
      | Some (True, s) \<Rightarrow> Some (True, s)) r"
    if "implements f r" for f :: "'t pb_ostream \<Rightarrow> 't enc_result" and msg r
  proof (cases r)
    case (Some p)
    then show ?thesis
      using that
      by (cases p)
        (auto simp: implements_def sizes_def stores_def partial_out_error split: if_splits; fastforce simp: partial_out_error)
  qed simp
  show ?thesis using False err [OF cb] by (simp add: encode_callback_field_def Let_def)
qed (simp add: encode_callback_field_def Let_def implements_done)

lemma field_implements:
  "rec_ok rec rref \<Longrightarrow> implements (\<lambda>s. encode_field env n rec s field data m) (field_bytes ref n rref field data m)"
  unfolding encode_field_def field_bytes_def
  by (rule implements_if [OF basic_implements implements_if [OF callback_implements implements_fail]])

lemma extensions_implement:
  assumes "rec_ok rec rref"
  shows "implements (\<lambda>s. encode_extensions env n rec m k s e) (extensions_bytes ref n rref m k e)"
proof (induction k arbitrary: e)
  case (Suc k)
  have "implements (\<lambda>s. default_extension_encoder env n rec s e m)
      (field_bytes ref n rref (extension_field (descr env) e m)
        (if PB_ATYPE (ftype (extension_field (descr env) e m)) = PB_ATYPE_POINTER then e + offsetof_ext_dest
         else load_ptr m (e + offsetof_ext_dest)) m)"
    by (simp add: default_extension_encoder_def Let_def field_implements [OF assms])
  then show ?case
    unfolding encode_extensions.simps extensions_bytes.simps Let_def descr
    by (intro implements_if implements_done implements_then ext Suc)
qed (simp add: implements_done)

lemma entry_implements:
  "rec_ok rec rref \<Longrightarrow> implements
     (\<lambda>s. if PB_LTYPE (ftype field) = PB_LTYPE_EXTENSION then encode_extension_field env n rec s data m
          else encode_field env n rec s field data m) (entry_bytes ref n rref field data m)"
  unfolding entry_bytes_def encode_extension_field_def
  by (intro implements_if extensions_implement field_implements)

section \<open>Messages\<close>

lemma fields_implement:
  assumes rec: "rec_ok rec rref" and fs: "wf_fields fs" and i: "i < length fs"
  shows "implements (\<lambda>s. encode_fields env n rec m (iter_at fs src i) s)
    (sequence_bytes (map (\<lambda>i. entry_bytes ref n rref (fs ! i) (pData (iter_at fs src i)) m) [i..<length fs]))"
  using i
proof (induction "length fs - i" arbitrary: i)
  case (Suc k)
  let ?it = "iter_at fs src i"
  have pos: "pos ?it = i" and cur: "cur ?it = fs ! i"
    using pos_iter_at [OF fs Suc.prems] Suc.prems by simp_all
  have step: "pb_field_iter_next ?it = (Suc i < length fs, iter_at fs src (Suc i))"
    using next_pos(2) [of ?it] fs Suc.prems pos by (simp add: prod_eq_iff)
  have entry: "implements (\<lambda>s. if PB_LTYPE (ftype (fs ! i)) = PB_LTYPE_EXTENSION
      then encode_extension_field env n rec s (pData ?it) m
      else encode_field env n rec s (fs ! i) (pData ?it) m) (entry_bytes ref n rref (fs ! i) (pData ?it) m)"
    by (rule entry_implements [OF rec])
  have rest: "implements (\<lambda>s. if Suc i < length fs then encode_fields env n rec m (iter_at fs src (Suc i)) s else Some (True, s))
      (sequence_bytes (map (\<lambda>i. entry_bytes ref n rref (fs ! i) (pData (iter_at fs src i)) m) [Suc i..<length fs]))"
    using Suc.hyps(1) [of "Suc i"] Suc.hyps(2) by (cases "Suc i < length fs") (auto simp: implements_done)
  show ?case
    unfolding encode_fields.simps [of env n rec m ?it] step prod.case cur
    using implements_then [OF entry rest] Suc.prems by (simp add: upt_conv_Cons)
qed simp

theorem message_implements:
  "wf_fields fs \<Longrightarrow> implements (\<lambda>s. pb_encode n env s fs src m) (message_bytes n ref fs src m)"
proof (induction n arbitrary: fs src m)
  case (Suc n)
  have rec: "rec_ok (pb_encode n env) (message_bytes n ref)"
    using Suc.IH by (simp add: rec_ok_def)
  show ?case
  proof (cases "fs = []")
    case False
    then have first: "pb_field_iter_begin fs src 0 = (True, iter_at fs src 0)"
      using Suc.prems field_at_tag [of fs 0] by (simp add: pb_field_iter_begin_def Let_def)
    then show ?thesis
      using fields_implement [OF rec Suc.prems, of 0] False
      unfolding pb_encode.simps encode_message_def message_bytes.simps first prod.case bool.case by simp
  qed (simp add: encode_message_def pb_field_iter_begin_def Let_def PB_LAST_FIELD_def implements_done)
qed simp

end

end
