(* ===== verification/Pb_Encode_Total.thy ===== *)
theory Pb_Encode_Total
  imports Pb_Encode_Correct
begin

text \<open>
  The encoder returns.  \<open>nested n d fs\<close> bounds the depth to which the messages of a schema contain each other;
  that much fuel (and one step for the message itself) is enough, on every stream and for every memory.
\<close>

definition plain_field :: "pb_field \<Rightarrow> bool" where
  "plain_field f \<longleftrightarrow>
     PB_ATYPE (ftype f) \<noteq> PB_ATYPE_CALLBACK \<and> PB_LTYPE (ftype f) \<noteq> PB_LTYPE_EXTENSION \<and>
     PB_LTYPE (ftype f) \<in> {PB_LTYPE_BOOL, PB_LTYPE_VARINT, PB_LTYPE_UVARINT, PB_LTYPE_SVARINT, PB_LTYPE_FIXED32,
       PB_LTYPE_FIXED64, PB_LTYPE_BYTES, PB_LTYPE_STRING, PB_LTYPE_SUBMESSAGE, PB_LTYPE_FIXED_LENGTH_BYTES} \<and>
     (PB_HTYPE (ftype f) = PB_HTYPE_ONEOF \<longrightarrow> size_offset f \<noteq> 0)"

primrec nested :: "nat \<Rightarrow> (addr \<Rightarrow> pb_field list) \<Rightarrow> pb_field list \<Rightarrow> bool" where
  "nested 0 d fs = False"
| "nested (Suc n) d fs =
     list_all (\<lambda>f. plain_field f \<and>
       (PB_LTYPE (ftype f) = PB_LTYPE_SUBMESSAGE \<longrightarrow> fptr f \<noteq> 0 \<and> nested n d (d (fptr f)))) fs"

definition field_nested :: "nat \<Rightarrow> (addr \<Rightarrow> pb_field list) \<Rightarrow> pb_field \<Rightarrow> bool" where
  "field_nested n d f \<longleftrightarrow> plain_field f \<and>
     (PB_LTYPE (ftype f) = PB_LTYPE_SUBMESSAGE \<longrightarrow> fptr f \<noteq> 0 \<and> nested n d (d (fptr f)))"

lemma field_nested_last: "field_nested n d PB_LAST_FIELD"
  by (simp add: field_nested_def plain_field_def PB_LAST_FIELD_def PB_ATYPE_def PB_LTYPE_def PB_HTYPE_def pb_consts)

lemma nested_cur:
  assumes "nested n d (start it)"
  shows "\<exists>k. n = Suc k \<and> field_nested k d (cur it)"
proof -
  obtain k where n: "n = Suc k" using assms by (cases n) auto
  have "field_nested k d (cur it)"
  proof (cases "pos it < length (start it)")
    case True
    then show ?thesis using assms n by (simp add: field_nested_def list_all_iff)
  next
    case False
    then show ?thesis using field_nested_last [of k d] by simp
  qed
  with n show ?thesis by blast
qed

definition returns :: "'a option \<Rightarrow> bool" where "returns r \<longleftrightarrow> r \<noteq> None"

lemma returns_simps [simp]: "returns (Some x)" "\<not> returns None" "returns (map_option f r) = returns r"
  by (simp_all add: returns_def)

lemma returns_then: "returns r \<Longrightarrow> (\<And>s. returns (k s)) \<Longrightarrow> returns (and_then r k)"
  by (auto simp: returns_def and_then_def)

lemma returns_if: "(b \<Longrightarrow> returns r) \<Longrightarrow> (\<not> b \<Longrightarrow> returns q) \<Longrightarrow> returns (if b then r else q)"
  by simp

lemma returns_option: "returns x \<Longrightarrow> (\<And>a. returns (f a)) \<Longrightarrow> returns (case x of None \<Rightarrow> None | Some a \<Rightarrow> f a)"
  by (auto simp: returns_def)

lemma returns_prod: "(\<And>a b. returns (f a b)) \<Longrightarrow> returns (case p of (a, b) \<Rightarrow> f a b)"
  by (cases p) simp

lemmas returns_intros = returns_then returns_if returns_option returns_prod returns_simps(1)

section \<open>The default value test\<close>

lemma check_fields_returns:
  assumes "\<And>it' p. start it' = start it \<Longrightarrow> returns (check (cur it') p)"
  shows "returns (check_fields check it)"
  using assms
proof (induction check it rule: check_fields.induct)
  case (1 check it)
  have "returns (check (cur it) (pData it))" by (rule "1.prems") simp
  then obtain zero where zero: "check (cur it) (pData it) = Some zero" by (auto simp: returns_def)
  obtain again it' where step: "pb_field_iter_next it = (again, it')" by fastforce
  then have "start it' = start it" using next_same(1) [of it] by simp
  with 1 zero step show ?case
    by (subst check_fields.simps) auto
qed

lemma check_returns: "field_nested n d f \<Longrightarrow> returns (pb_check_proto3_default_value (Suc n) d m f data)"
proof (induction n arbitrary: f data)
  case 0
  then show ?case
    by (auto simp: check_default_step_def Let_def field_nested_def)
next
  case (Suc n)
  have "returns (check_fields (pb_check_proto3_default_value (Suc n) d m) it)"
    if "nested (Suc n) d (start it)" for it
  proof (rule check_fields_returns)
    fix it' :: pb_field_iter and p assume "start it' = start it"
    then show "returns (pb_check_proto3_default_value (Suc n) d m (cur it') p)"
      using that nested_cur [of "Suc n" d it'] Suc.IH [of "cur it'" p] by (auto simp del: pb_check_proto3_default_value.simps)
  qed
  then show ?case
    using Suc.prems
    by (simp add: check_default_step_def Let_def field_nested_def case_prod_beta del: pb_check_proto3_default_value.simps(2) nested.simps)
       (simp add: check_default_step_def Let_def case_prod_beta)
qed

section \<open>Encoding\<close>

definition rec_returns :: "nat \<Rightarrow> (addr \<Rightarrow> pb_field list) \<Rightarrow> 't enc_rec \<Rightarrow> bool" where
  "rec_returns n d rec \<longleftrightarrow> (\<forall>s fs src m. nested n d fs \<longrightarrow> returns (rec s fs src m))"

lemma submessage_returns:
  "rec_returns n d rec \<Longrightarrow> nested n d fs \<Longrightarrow> returns (pb_encode_submessage rec s fs src m)"
  unfolding pb_encode_submessage_def Let_def
  by (intro returns_intros) (auto simp: rec_returns_def)

lemma encoders_return:
  assumes "field_nested n (descr env) f" and "rec_returns n (descr env) rec"
  shows "returns (PB_ENCODERS env rec (PB_LTYPE (ftype f)) s f src m)"
  unfolding PB_ENCODERS_def pb_enc_submessage_def
  by (intro returns_intros submessage_returns [OF assms(2)])
    (use assms(1) in \<open>auto simp: field_nested_def plain_field_def\<close>)


lemma items_return:
  "(\<And>s p. returns (item s p)) \<Longrightarrow> returns (encode_items item field k s p)"
  by (induction k arbitrary: s p) (simp_all add: returns_then)

lemma array_returns:
  assumes "\<And>s p. returns (func s field p m)"
  shows "returns (encode_array func s field data count m)"
  unfolding encode_array_def packed_size_def
  by (intro returns_intros items_return assms)
    (auto split: option.split intro: items_return assms returns_intros simp: bool.split_sel)

lemma field_returns:
  assumes f: "field_nested n (descr env) f" and rec: "rec_returns n (descr env) rec"
  shows "returns (encode_field env (Suc n) rec s f data m)"
proof -
  note enc = encoders_return [OF f rec]
  have "PB_ATYPE (ftype f) \<noteq> PB_ATYPE_CALLBACK" "PB_HTYPE (ftype f) = PB_HTYPE_ONEOF \<longrightarrow> size_offset f \<noteq> 0"
    using f by (simp_all add: field_nested_def plain_field_def)
  moreover have "returns (encode_basic_field env (Suc n) rec s f data m)"
    unfolding encode_basic_field_def Let_def
    by (intro returns_intros array_returns enc) (use check_returns [OF f] calculation(2) PB_HTYPE_cases [of "ftype f"] in auto)
  ultimately show ?thesis by (simp add: encode_field_def)
qed

lemma fields_return:
  assumes "nested (Suc n) (descr env) (start it)" and rec: "rec_returns n (descr env) rec"
  shows "returns (encode_fields env (Suc n) rec m it s)"
  using assms(1)
proof (induction "length (start it) - pos it" arbitrary: it s rule: less_induct)
  case (less it s)
  have f: "field_nested n (descr env) (cur it)"
    using nested_cur [OF less.prems] by simp
  obtain again it' where step: "pb_field_iter_next it = (again, it')" by fastforce
  then have "start it' = start it" using next_same(1) [of it] by simp
  with less.prems have "returns (encode_fields env (Suc n) rec m it' s)" if again for s
    using less.hyps [of it' s] next_more [of it it'] step that by simp
  moreover have "PB_LTYPE (ftype (cur it)) \<noteq> PB_LTYPE_EXTENSION"
    using f by (simp add: field_nested_def plain_field_def)
  ultimately show ?case
    using field_returns [OF f rec]
    unfolding encode_fields.simps [of env "Suc n" rec m it s] step prod.case
    by (intro returns_then returns_if) auto
qed

theorem encode_returns: "nested n (descr env) fs \<Longrightarrow> returns (pb_encode (Suc n) env s fs src m)"
proof (induction n arbitrary: s fs src m)
  case (Suc n)
  have rec: "rec_returns n (descr env) (pb_encode (Suc n) env)"
    using Suc.IH by (simp add: rec_returns_def)
  show ?case
    using fields_return [OF _ rec, of "snd (pb_field_iter_begin fs src 0)"] Suc.prems
    by (auto simp add: encode_message_def split: prod.split bool.split simp del: nested.simps
        dest: arg_cong [of _ _ snd])
qed simp

end
