(* ===== verification/Pb_Codec.thy ===== *)
theory Pb_Codec
  imports Pb_Encode_Total Pb_Decode
begin

text \<open>
  Single fields, encoded from memory and decoded into memory.  The locale \<open>field_codec\<close> states what makes
  an encoder and a decoder of values inverse to each other; it is interpreted for the scalar types of the
  tables \<open>PB_ENCODERS\<close> and \<open>PB_DECODERS\<close>.
\<close>

section \<open>Bytes of integers\<close>

lemma nth_le_bytes: "i < k \<Longrightarrow> bit (le_bytes k w ! i) j \<longleftrightarrow> j < 8 \<and> bit w (8 * i + j)"
proof (induction k arbitrary: i w)
  case (Suc k)
  show ?case
  proof (cases i)
    case (Suc i')
    then show ?thesis using Suc.IH [of i' "drop_bit 8 w"] Suc.prems by (auto simp: bit_simps algebra_simps)
  qed (auto simp: bit_simps)
qed simp

lemma le_bytes_eqI: "(\<And>i. i < 8 * k \<Longrightarrow> bit v i = bit w i) \<Longrightarrow> le_bytes k v = le_bytes k w"
  by (intro nth_equalityI bit_eqI) (auto simp: nth_le_bytes)

lemma le_bytes_le_word: "length bs \<le> 8 \<Longrightarrow> le_bytes (length bs) (le_word bs) = bs"
proof (intro nth_equalityI bit_eqI)
  fix i j
  assume "length bs \<le> 8" "i < length (le_bytes (length bs) (le_word bs))"
  then have "8 * i + j < 64 \<and> (8 * i + j) div 8 = i \<and> (8 * i + j) mod 8 = j" if "j < 8" using that by auto
  then show "bit (le_bytes (length bs) (le_word bs) ! i) j = bit (bs ! i) j"
    using \<open>i < _\<close> bit_imp_le_length [of "bs ! i" j] by (auto simp: nth_le_bytes bit_le_word)
qed simp

lemma signed_take_bit_63: "signed_take_bit 63 (x :: u64) = x"
proof (rule bit_word_eqI)
  fix n assume "n < LENGTH(64)"
  then have "n < 63 \<or> n = 63" by auto
  then show "bit (signed_take_bit 63 x) n = bit x n" by (auto simp: bit_simps)
qed

lemma load_signed_eq:
  assumes "sz \<in> set [1, 2, 4, 8]"
  shows "load_signed m src sz = Some (signed_take_bit (8 * unat sz - 1) (load_int m src (unat sz)))"
proof -
  have "scast (ucast x :: 8 word) = signed_take_bit 7 x" "scast (ucast x :: 16 word) = signed_take_bit 15 x"
    "scast (ucast x :: 32 word) = signed_take_bit 31 x" for x :: u64
    by (rule bit_word_eqI; auto simp: bit_simps min_def not_less dest: bit_imp_le_length)+
  then show ?thesis using assms signed_take_bit_63 by (auto simp: load_signed_def)
qed

lemma store_signed:
  assumes "w \<in> {1, 2, 4, 8}"
  shows "store_int m' dest w (signed_take_bit (8 * w - 1) (load_int m src w)) = store_bytes m' dest (load_bytes m src w)"
proof -
  have "le_bytes w (signed_take_bit (8 * w - 1) (load_int m src w)) = le_bytes w (load_int m src w)"
    using assms by (intro le_bytes_eqI) (auto simp: bit_simps)
  moreover have "le_bytes w (load_int m src w) = load_bytes m src w"
    using le_bytes_le_word [of "load_bytes m src w"] assms by (auto simp: load_int_def)
  ultimately show ?thesis by (simp add: store_int_def)
qed


section \<open>Codecs of values\<close>

text \<open>
  \<open>target dest w m'\<close> is the place where the decoder puts a value of \<open>w\<close> bytes when it is called with the address
  \<open>dest\<close>, and the memory it puts it into: \<open>dest\<close> itself for a static field, a block it allocates for a
  pointer, \<open>None\<close> when there is no room for the block.
\<close>

locale field_codec =
  fixes present :: "mem \<Rightarrow> addr \<Rightarrow> bool" and w :: "mem \<Rightarrow> addr \<Rightarrow> nat" and bytes :: "mem \<Rightarrow> addr \<Rightarrow> byte list"
    and enc :: "'t pb_ostream \<Rightarrow> addr \<Rightarrow> mem \<Rightarrow> bool \<times> 't pb_ostream"
    and dec :: "'s pb_istream \<Rightarrow> addr \<Rightarrow> mem \<Rightarrow> bool \<times> 's pb_istream \<times> mem"
    and target :: "addr \<Rightarrow> nat \<Rightarrow> mem \<Rightarrow> (addr \<times> mem) option"
  assumes enc_emits: "present m src \<Longrightarrow> emits (\<lambda>s. enc s src m) (bytes m src)"
    and decodes: "present m src \<Longrightarrow> wf_ibuf s \<Longrightarrow> visible s = bytes m src @ rest \<Longrightarrow>
      target dest (w m src) m' = Some (p, m1) \<Longrightarrow>
      dec s dest m' = (True, buf_skip (length (bytes m src)) s, store_bytes m1 p (load_bytes m src (w m src)))"
    and no_target: "present m src \<Longrightarrow> wf_ibuf s \<Longrightarrow> visible s = bytes m src @ rest \<Longrightarrow>
      target dest (w m src) m' = None \<Longrightarrow> \<exists>s'. dec s dest m' = (False, s', m')"
    and size_bound: "present m src \<Longrightarrow> length (bytes m src) < 2 ^ 33"
begin

lemma encoded:
  assumes "present m src" and "length (bytes m src) \<le> unat n"
  shows "enc (pb_ostream_from_buffer n) src m = (True, written n (bytes m src))"
proof -
  have "buf_writer (\<lambda>s. enc s src m) (bytes m src)"
    using enc_emits [OF assms(1)] by unfold_locales
  then show ?thesis using assms(2) by (rule buf_writer.fresh)
qed

lemma decoded:
  assumes "present m src" and "length (bytes m src @ rest) < 2 ^ 64"
  shows "case target dest (w m src) m' of
    None \<Rightarrow> \<exists>s'. dec (stream_of (bytes m src @ rest)) dest m' = (False, s', m')
  | Some (p, m1) \<Rightarrow> dec (stream_of (bytes m src @ rest)) dest m' =
      (True, stream_of rest, store_bytes m1 p (load_bytes m src (w m src)))"
proof -
  have s: "wf_ibuf (stream_of (bytes m src @ rest))" "visible (stream_of (bytes m src @ rest)) = bytes m src @ rest"
    using stream_of_wf [OF assms(2)] by auto
  show ?thesis
    using decodes [OF assms(1) s, of dest m'] no_target [OF assms(1) s, of dest m'] assms(2)
    by (auto simp: buf_skip_stream_of split: option.splits)
qed

end

text \<open>Values that are always stored at the address the decoder is called with.\<close>

abbreviation in_place :: "addr \<Rightarrow> nat \<Rightarrow> mem \<Rightarrow> (addr \<times> mem) option" where
  "in_place dest w m \<equiv> Some (dest, m)"

locale scalar_codec =
  fixes present :: "mem \<Rightarrow> addr \<Rightarrow> bool" and w :: "mem \<Rightarrow> addr \<Rightarrow> nat" and bytes :: "mem \<Rightarrow> addr \<Rightarrow> byte list"
    and enc :: "'t pb_ostream \<Rightarrow> addr \<Rightarrow> mem \<Rightarrow> bool \<times> 't pb_ostream"
    and dec :: "'s pb_istream \<Rightarrow> addr \<Rightarrow> mem \<Rightarrow> bool \<times> 's pb_istream \<times> mem"
  assumes enc_emits: "present m src \<Longrightarrow> emits (\<lambda>s. enc s src m) (bytes m src)"
    and decodes: "present m src \<Longrightarrow> wf_ibuf s \<Longrightarrow> visible s = bytes m src @ rest \<Longrightarrow>
      dec s dest m' = (True, buf_skip (length (bytes m src)) s, store_bytes m' dest (load_bytes m src (w m src)))"
    and size_bound: "present m src \<Longrightarrow> length (bytes m src) < 2 ^ 33"

sublocale scalar_codec \<subseteq> in_place: field_codec present w bytes enc dec in_place
  by unfold_locales (use enc_emits decodes size_bound in auto)

section \<open>Integers\<close>

lemma signed_widths: "sz \<in> set [1, 2, 4, 8 :: pb_size_t] \<Longrightarrow> unat sz \<in> {1, 2, 4, 8}"
  by auto

lemma store_width_ok: "sz \<in> set [1, 2, 4, 8] \<Longrightarrow> store_width m dest sz v = Some (store_int m dest (unat sz) v)"
  by (auto simp: store_width_def)

lemma sign_through_int32:
  assumes "sz \<in> set [1, 2, 4, 8]" and "v = signed_take_bit (8 * unat sz - 1) x"
  shows "(if sz = 8 then v else scast (ucast v :: u32)) = v" and "clamp_signed sz v = v"
  using assms by (auto simp: clamp_signed_def) (auto intro!: bit_word_eqI simp: bit_simps min_def not_less split: if_splits)

lemma take_bit_load_int: "k \<le> 8 \<Longrightarrow> take_bit (8 * k) (load_int m src k) = load_int m src k"
  by (rule bit_word_eqI) (auto simp: bit_simps load_int_def bit_le_word)

lemma store_load_int: "k \<le> 8 \<Longrightarrow> store_int m' dest k (load_int m src k) = store_bytes m' dest (load_bytes m src k)"
  using le_bytes_le_word [of "load_bytes m src k"] by (simp add: store_int_def load_int_def)

interpretation varint_field: scalar_codec "\<lambda>m src. data_size f \<in> set [1, 2, 4, 8]" "\<lambda>m src. unat (data_size f)"
  "\<lambda>m src. varint_enc (the (load_signed m src (data_size f)))"
  "\<lambda>s src m. pb_enc_varint s f src m" "\<lambda>s dest m. pb_dec_varint s f dest m" for f
proof unfold_locales
  fix m m' :: mem and src dest :: addr and s :: "'s pb_istream" and rest
  assume w: "data_size f \<in> set [1, 2, 4, 8]"
  note v = load_signed_eq [OF w, of m src]
  show "emits (\<lambda>s. pb_enc_varint s f src m) (varint_enc (the (load_signed m src (data_size f))))"
    by (simp add: pb_enc_varint_def v emits_varint)
  show "length (varint_enc (the (load_signed m src (data_size f)))) < 2 ^ 33"
    using length_varint_enc_le10 [of "the (load_signed m src (data_size f))"] by simp
  assume "wf_ibuf s" "visible s = varint_enc (the (load_signed m src (data_size f))) @ rest"
  from pb_decode_varint_enc [OF this] show "pb_dec_varint s f dest m' =
      (True, buf_skip (length (varint_enc (the (load_signed m src (data_size f))))) s,
        store_bytes m' dest (load_bytes m src (unat (data_size f))))"
    using sign_through_int32 [OF w refl, of "load_int m src (unat (data_size f))"]
      store_signed [OF signed_widths [OF w], of m' dest m src]
    unfolding v option.sel pb_dec_varint_def by (simp only: store_width_ok [OF w] Let_def prod.case option.case) simp
qed

interpretation uvarint_field: scalar_codec "\<lambda>m src. data_size f \<in> set [1, 2, 4, 8]" "\<lambda>m src. unat (data_size f)"
  "\<lambda>m src. varint_enc (load_int m src (unat (data_size f)))"
  "\<lambda>s src m. pb_enc_uvarint s f src m" "\<lambda>s dest m. pb_dec_uvarint s f dest m" for f
proof unfold_locales
  fix m m' :: mem and src dest :: addr and s :: "'s pb_istream" and rest
  assume w: "data_size f \<in> set [1, 2, 4, 8]"
  let ?v = "load_int m src (unat (data_size f))"
  have v: "load_unsigned m src (data_size f) = Some ?v" using w by (auto simp: load_unsigned_def)
  have 8: "unat (data_size f) \<le> 8" using w by auto
  show "emits (\<lambda>s. pb_enc_uvarint s f src m) (varint_enc ?v)"
    by (simp add: pb_enc_uvarint_def v emits_varint)
  show "length (varint_enc ?v) < 2 ^ 33" using length_varint_enc_le10 [of ?v] by simp
  assume "wf_ibuf s" "visible s = varint_enc ?v @ rest"
  from pb_decode_varint_enc [OF this] show "pb_dec_uvarint s f dest m' =
      (True, buf_skip (length (varint_enc ?v)) s, store_bytes m' dest (load_bytes m src (unat (data_size f))))"
    by (simp add: pb_dec_uvarint_def store_width_ok [OF w] clamp_unsigned_def take_bit_load_int [OF 8]
        store_load_int [OF 8])
qed

interpretation svarint_field: scalar_codec "\<lambda>m src. data_size f \<in> set [1, 2, 4, 8]" "\<lambda>m src. unat (data_size f)"
  "\<lambda>m src. varint_enc (zigzag (the (load_signed m src (data_size f))))"
  "\<lambda>s src m. pb_enc_svarint s f src m" "\<lambda>s dest m. pb_dec_svarint s f dest m" for f
proof unfold_locales
  fix m m' :: mem and src dest :: addr and s :: "'s pb_istream" and rest
  assume w: "data_size f \<in> set [1, 2, 4, 8]"
  note v = load_signed_eq [OF w, of m src]
  let ?b = "varint_enc (zigzag (the (load_signed m src (data_size f))))"
  show "emits (\<lambda>s. pb_enc_svarint s f src m) ?b"
    by (simp add: pb_enc_svarint_def v emits_svarint)
  show "length ?b < 2 ^ 33" using length_varint_enc_le10 [of "zigzag (the (load_signed m src (data_size f)))"] by simp
  assume "wf_ibuf s" "visible s = ?b @ rest"
  from pb_decode_svarint_enc [OF this] show "pb_dec_svarint s f dest m' =
      (True, buf_skip (length ?b) s, store_bytes m' dest (load_bytes m src (unat (data_size f))))"
    using sign_through_int32(2) [OF w refl, of "load_int m src (unat (data_size f))"]
      store_signed [OF signed_widths [OF w], of m' dest m src]
    by (simp add: pb_dec_svarint_def v store_width_ok [OF w] Let_def unzigzag_zigzag)
qed

interpretation fixed32_field: scalar_codec "\<lambda>m src. True" "\<lambda>m src. 4" "\<lambda>m src. fixed32_bytes (load32 m src)"
  "\<lambda>s src m. pb_enc_fixed32 s f src m" "\<lambda>s dest m. pb_dec_fixed32 s f dest m" for f
proof unfold_locales
  fix m m' :: mem and src dest :: addr and s :: "'s pb_istream" and rest
  have "ucast (load32 m src) = load_int m src 4"
    using take_bit_load_int [of 4 m src] by (auto simp: load32_def intro!: bit_word_eqI) (auto simp: bit_simps dest!: arg_cong [of _ _ "\<lambda>x. bit x _"])
  then have "store32 m' dest (load32 m src) = store_bytes m' dest (load_bytes m src 4)"
    by (simp add: store32_def store_load_int)
  moreover assume "wf_ibuf s" "visible s = fixed32_bytes (load32 m src) @ rest"
  ultimately show "pb_dec_fixed32 s f dest m' =
      (True, buf_skip (length (fixed32_bytes (load32 m src))) s, store_bytes m' dest (load_bytes m src 4))"
    by (simp add: pb_dec_fixed32_def pb_decode_fixed32_bytes)
qed (simp_all add: pb_enc_fixed32_def emits_fixed32)

interpretation fixed64_field: scalar_codec "\<lambda>m src. True" "\<lambda>m src. 8" "\<lambda>m src. fixed64_bytes (load_int m src 8)"
  "\<lambda>s src m. pb_enc_fixed64 s f src m" "\<lambda>s dest m. pb_dec_fixed64 s f dest m" for f
  by unfold_locales (simp_all add: pb_enc_fixed64_def emits_fixed64 pb_dec_fixed64_def pb_decode_fixed64_bytes store_load_int)

interpretation bool_field: scalar_codec "\<lambda>m src. mbytes m src \<le> 1" "\<lambda>m src. 1"
  "\<lambda>m src. varint_enc (if safe_read_bool m src then 1 else 0)"
  "\<lambda>s src m. pb_enc_bool s f src m" "\<lambda>s dest m. pb_dec_bool s f dest m" for f
proof unfold_locales
  fix m m' :: mem and src dest :: addr and s :: "'s pb_istream" and rest
  let ?v = "if safe_read_bool m src then 1 else 0 :: u64" and ?w = "if safe_read_bool m src then 1 else 0 :: u32"
  show "emits (\<lambda>s. pb_enc_bool s f src m) (varint_enc ?v)" by (simp add: pb_enc_bool_def emits_varint)
  show "length (varint_enc ?v) < 2 ^ 33" using length_varint_enc_le10 [of ?v] by simp
  assume le: "mbytes m src \<le> 1" and s: "wf_ibuf s" "visible s = varint_enc ?v @ rest"
  have v: "ucast ?w = ?v" by simp
  from s(2) have "visible s = varint_enc (ucast ?w) @ rest" by (simp only: v)
  from pb_decode_varint32_small [OF s(1) this]
  have "pb_decode_varint32 s = (Some ?w, buf_skip (length (varint_enc ?v)) s)" by (simp only: v)
  moreover have "mbytes m src = 0 \<or> mbytes m src = 1"
    using le by (metis le_less unat_1 unat_0 word_less_nat_alt less_one unat_eq_zero)
  then have "[if ?w \<noteq> 0 then 1 else 0] = load_bytes m src 1"
    by (auto simp: safe_read_bool_def sizeof_bool_def load_bytes_def)
  ultimately show "pb_dec_bool s f dest m' =
      (True, buf_skip (length (varint_enc ?v)) s, store_bytes m' dest (load_bytes m src 1))"
    by (simp only: pb_dec_bool_def prod.case option.case store_bool_def)
qed

section \<open>Length-prefixed values\<close>

lemma read_prefixed:
  fixes s :: "'s pb_istream"
  assumes "wf_ibuf s" and "visible s = varint_enc (ucast n) @ bs @ rest" and "length bs = unat (n :: u32)"
  shows "pb_decode_varint32 s = (Some n, buf_skip (length (varint_enc (ucast n))) s)"
    and "read_into (buf_skip (length (varint_enc (ucast n))) s) dest (ucast n) m =
      (True, buf_skip (length (varint_enc (ucast n) @ bs)) s, store_bytes m dest bs)"
proof -
  show "pb_decode_varint32 s = (Some n, buf_skip (length (varint_enc (ucast n))) s)"
    using pb_decode_varint32_small [OF assms(1,2)] .
  have "length (varint_enc (ucast n)) \<le> unat (bytes_left s)"
    using length_visible [OF assms(1)] assms(2) by simp
  note sk = visible_buf_skip [OF assms(1) this]
  have "visible (buf_skip (length (varint_enc (ucast n))) s) = bs @ rest" using sk(1) assms(2) by simp
  from pb_read_visible [OF sk(3) this, of "ucast n" False] assms(3)
  show "read_into (buf_skip (length (varint_enc (ucast n))) s) dest (ucast n) m =
      (True, buf_skip (length (varint_enc (ucast n) @ bs)) s, store_bytes m dest bs)"
    by (auto simp: read_into_def buf_skip_add)
qed

lemma prefixed_left:
  assumes "wf_ibuf s" and "visible s = varint_enc (ucast n) @ bs @ rest" and "length bs = unat (n :: u32)"
  shows "\<not> bytes_left (buf_skip (length (varint_enc (ucast n))) s) < ucast n"
proof -
  have "length (varint_enc (ucast n)) \<le> unat (bytes_left s)"
    using length_visible [OF assms(1)] assms(2) by simp
  note sk = visible_buf_skip [OF assms(1) this]
  have "unat (bytes_left (buf_skip (length (varint_enc (ucast n))) s)) = length (bs @ rest)"
    using length_visible [OF sk(3)] sk(1) assms(2) by simp
  then show ?thesis using assms(3) by (simp add: word_less_nat_alt)
qed

lemma store_bytes_append:
  assumes "length xs + length ys \<le> 2 ^ 64" and "b = a + of_nat (length xs)" and "ys \<noteq> []"
  shows "store_bytes (store_bytes m a xs) b ys = store_bytes m a (xs @ ys)"
proof -
  have xs: "unat (of_nat (length xs) :: addr) = length xs" using assms(1,3) by (intro unat_of_nat64) (cases ys; simp)
  have "mbytes (store_bytes (store_bytes m a xs) b ys) x = mbytes (store_bytes m a (xs @ ys)) x" for x
  proof -
    have eq: "x - a = (x - b) + of_nat (length xs)" using assms(2) by simp
    consider "unat (x - b) + length xs < 2 ^ 64" | "2 ^ 64 \<le> unat (x - b) + length xs" by linarith
    then show ?thesis
    proof cases
      case 1
      then have "unat (x - a) = unat (x - b) + length xs"
        unfolding eq by (simp add: unat_word_ariths xs)
      then show ?thesis by (auto simp: mbytes_store_bytes in_range_def nth_append)
    next
      case 2
      then have "unat (x - a) = unat (x - b) + length xs - 2 ^ 64"
        unfolding eq using unat_lt64 [of "x - b"] xs unat_lt64 [of "of_nat (length xs) :: addr"]
        by (simp add: unat_word_ariths mod_if)
      moreover have "\<not> unat (x - b) < length ys" using 2 assms(1) by simp
      ultimately show ?thesis
        using 2 unat_lt64 [of "x - b"] by (auto simp: mbytes_store_bytes in_range_def nth_append)
    qed
  qed
  then show ?thesis by (simp add: store_bytes_def fun_eq_iff)
qed

lemma store_bytes_empty: "store_bytes m a [] = m"
  by (rule mem.equality) (auto simp: mbytes_store_bytes in_range_def)

lemma load_bytes_append: "load_bytes m a (i + k) = load_bytes m a i @ load_bytes m (a + of_nat i) k"
proof (intro nth_equalityI)
  fix j assume "j < length (load_bytes m a (i + k))"
  have "a + word_of_nat j = a + of_nat i + of_nat (j - i)" if "\<not> j < i"
  proof -
    have "(of_nat j :: addr) = of_nat (i + (j - i))" using that by simp
    then show ?thesis by (simp only: of_nat_add add.assoc)
  qed
  with \<open>j < _\<close> show "load_bytes m a (i + k) ! j = (load_bytes m a i @ load_bytes m (a + of_nat i) k) ! j"
    by (auto simp: nth_append)
qed simp

lemma prefixed_bound: "length (varint_enc (ucast (n :: u32)) @ load_bytes m a (unat n)) < 2 ^ 33"
  using length_varint_enc_le10 [of "ucast n"] unsigned_less [of n, where 'a = nat] by simp

interpretation fixed_length_field: scalar_codec "\<lambda>m src. data_size f \<noteq> 0" "\<lambda>m src. unat (data_size f)"
  "\<lambda>m src. varint_enc (ucast (data_size f)) @ load_bytes m src (unat (data_size f))"
  "\<lambda>s src m. pb_enc_fixed_length_bytes s f src m" "\<lambda>s dest m. pb_dec_fixed_length_bytes s f dest m" for f
proof unfold_locales
  fix m m' :: mem and src dest :: addr and s :: "'s pb_istream" and rest
  show "emits (\<lambda>s. pb_enc_fixed_length_bytes s f src m)
      (varint_enc (ucast (data_size f)) @ load_bytes m src (unat (data_size f)))"
    using emits_string [of "load_bytes m src (unat (data_size f))" "ucast (data_size f)"]
    by (simp add: pb_enc_fixed_length_bytes_def)
  assume "data_size f \<noteq> 0" "wf_ibuf s"
    "visible s = (varint_enc (ucast (data_size f)) @ load_bytes m src (unat (data_size f))) @ rest"
  then show "pb_dec_fixed_length_bytes s f dest m' =
      (True, buf_skip (length (varint_enc (ucast (data_size f)) @ load_bytes m src (unat (data_size f)))) s,
        store_bytes m' dest (load_bytes m src (unat (data_size f))))"
    using read_prefixed [of s "data_size f" "load_bytes m src (unat (data_size f))" rest]
    by (simp add: pb_dec_fixed_length_bytes_def PB_SIZE_MAX_def)
qed (rule prefixed_bound)

text \<open>
  Where a bytes or string field is put: a pointer field gets a new block, whose address is stored in the
  structure; the old block of the pointer, if there is one, is given back to \<open>realloc\<close>.
\<close>

definition new_block :: "'s dec_env \<Rightarrow> addr \<Rightarrow> nat \<Rightarrow> mem \<Rightarrow> (addr \<times> mem) option" where
  "new_block env dest w m =
     (case pb_realloc (pick env) m (load_ptr m dest) (of_nat w) of
        (q, m1) \<Rightarrow> if q = 0 then None else Some (q, store_ptr m1 dest q))"

definition value_target :: "'s dec_env \<Rightarrow> pb_field \<Rightarrow> addr \<Rightarrow> nat \<Rightarrow> mem \<Rightarrow> (addr \<times> mem) option" where
  "value_target env f dest w m =
     (if PB_ATYPE (ftype f) = PB_ATYPE_POINTER \<and> PB_LTYPE (ftype f) \<in> {PB_LTYPE_BYTES, PB_LTYPE_STRING}
      then new_block env dest w m else in_place dest w m)"

lemma allocate_field_block:
  assumes "n \<noteq> 0"
  shows "allocate_field env s dest n 1 m = (case new_block env dest (unat n) m of
    None \<Rightarrow> (False, ierror ''realloc failed'' s, m) | Some (q, m1) \<Rightarrow> (True, s, m1))"
  using assms word_n1_ge [of n]
  by (auto simp: allocate_field_def new_block_def pb_realloc_def Let_def not_less split: if_splits)

lemma new_block_ptr: "new_block env dest w m = Some (q, m1) \<Longrightarrow> load_ptr m1 dest = q"
  by (auto simp: new_block_def split: prod.splits if_splits)

text \<open>A bytes field: the size and that many bytes.  A static one has to have room for them.\<close>

definition holds_bytes :: "pb_field \<Rightarrow> mem \<Rightarrow> addr \<Rightarrow> bool" where
  "holds_bytes f m src \<longleftrightarrow> src \<noteq> 0 \<and>
     (PB_ATYPE (ftype f) = PB_ATYPE_POINTER \<or>
      PB_ATYPE (ftype f) = PB_ATYPE_STATIC \<and> unat (load32 m src) + 4 \<le> unat (data_size f))"

lemma load32_bytes: "ucast (load32 m src) = load_int m src 4"
proof (rule bit_word_eqI)
  fix n assume "n < LENGTH(64)"
  have "bit (take_bit 32 (load_int m src 4)) n = bit (load_int m src 4) n"
    using take_bit_load_int [of 4 m src] by simp
  then show "bit (ucast (load32 m src) :: u64) n = bit (load_int m src 4) n"
    by (auto simp: load32_def bit_simps)
qed

lemma store_load32: "store32 m' dest (load32 m src) = store_bytes m' dest (load_bytes m src 4)"
  by (simp add: store32_def load32_bytes store_load_int)

lemma store_prefixed:
  "store_bytes (store32 m' dest (load32 m src)) (dest + 4) (load_bytes m (src + 4) (unat (load32 m src))) =
     store_bytes m' dest (load_bytes m src (4 + unat (load32 m src)))"
proof (cases "load_bytes m (src + 4) (unat (load32 m src)) = []")
  case True
  then have "unat (load32 m src) = 0" by (simp add: load_bytes_def)
  then show ?thesis unfolding True by (simp add: store_load32 store_bytes_empty)
next
  case False
  then show ?thesis using unsigned_less [of "load32 m src", where 'a = nat]
    unfolding store_load32 load_bytes_append by (subst store_bytes_append) auto
qed

lemma bytes_size:
  "unat (ucast (n :: u32) + 4 :: size_t) = 4 + unat n" "\<not> (ucast n + 4 :: size_t) < ucast n" "ucast n + 4 \<noteq> (0 :: size_t)"
proof -
  show n: "unat (ucast n + 4 :: size_t) = 4 + unat n"
    using unsigned_less [of n, where 'a = nat] by (simp add: unat_word_ariths)
  show "\<not> (ucast n + 4 :: size_t) < ucast n" by (simp add: word_less_nat_alt n)
  show "ucast n + 4 \<noteq> (0 :: size_t)" using n by (metis add_eq_0_iff_both_eq_0 unat_0 zero_neq_numeral)
qed

interpretation bytes_field: field_codec "holds_bytes f" "\<lambda>m src. 4 + unat (load32 m src)"
  "\<lambda>m src. varint_enc (ucast (load32 m src)) @ load_bytes m (src + 4) (unat (load32 m src))"
  "\<lambda>s src m. pb_enc_bytes s f src m" "\<lambda>s dest m. pb_dec_bytes env s f dest m"
  "\<lambda>dest w m. if PB_ATYPE (ftype f) = PB_ATYPE_POINTER then new_block env dest w m else in_place dest w m"
  for f and env :: "'s dec_env"
proof unfold_locales
  fix m m' m1 :: mem and src dest p :: addr and s :: "'s pb_istream" and rest
  let ?n = "load32 m src"
  let ?bs = "load_bytes m (src + 4) (unat ?n)"
  let ?target = "if PB_ATYPE (ftype f) = PB_ATYPE_POINTER then new_block env dest (4 + unat ?n) m' else in_place dest (4 + unat ?n) m'"
  assume p: "holds_bytes f m src"
  have le: "\<not> (ucast (data_size f) :: size_t) < ucast ?n + 4" "\<not> (ucast (data_size f) - 4 :: size_t) < ucast ?n"
    if "PB_ATYPE (ftype f) = PB_ATYPE_STATIC"
    using p that unsigned_less [of "data_size f", where 'a = nat]
    by (auto simp: holds_bytes_def word_less_nat_alt unat_word_ariths unat_sub word_le_nat_alt pb_consts)
  show "emits (\<lambda>s. pb_enc_bytes s f src m) (varint_enc (ucast ?n) @ ?bs)"
    using emits_string [of ?bs "ucast ?n"] p le(2)
    by (auto simp: pb_enc_bytes_def holds_bytes_def offsetof_bytes_def Let_def pb_consts)
  show "length (varint_enc (ucast ?n) @ ?bs) < 2 ^ 33" by (rule prefixed_bound)
  assume s: "wf_ibuf s" "visible s = (varint_enc (ucast ?n) @ ?bs) @ rest"
  note read = read_prefixed [OF s(1), of ?n ?bs rest]
  have left: "\<not> bytes_left (buf_skip (length (varint_enc (ucast ?n))) s) < ucast ?n"
    using prefixed_left [OF s(1), of ?n ?bs rest] s(2) by simp
  { assume t: "?target = Some (p, m1)"
    show "pb_dec_bytes env s f dest m' =
      (True, buf_skip (length (varint_enc (ucast ?n) @ ?bs)) s, store_bytes m1 p (load_bytes m src (4 + unat ?n)))"
    proof (cases "PB_ATYPE (ftype f) = PB_ATYPE_POINTER")
      case True
      then have nb: "new_block env dest (4 + unat ?n) m' = Some (p, m1)" using t by simp
      then show ?thesis
        using read s(2) left True new_block_ptr [OF nb] allocate_field_block [OF bytes_size(3), of env _ dest ?n m']
        by (simp add: pb_dec_bytes_def offsetof_bytes_def Let_def PB_SIZE_MAX_def bytes_size store_prefixed)
    next
      case False
      then show ?thesis using read s(2) p le(1) t
        by (auto simp: pb_dec_bytes_def holds_bytes_def offsetof_bytes_def Let_def PB_SIZE_MAX_def pb_consts
            bytes_size store_prefixed)
    qed }
  assume "?target = None"
  then have "PB_ATYPE (ftype f) = PB_ATYPE_POINTER" "new_block env dest (4 + unat ?n) m' = None"
    by (auto split: if_splits)
  then show "\<exists>s'. pb_dec_bytes env s f dest m' = (False, s', m')"
    using read s(2) left allocate_field_block [OF bytes_size(3), of env _ dest ?n m']
    by (simp add: pb_dec_bytes_def offsetof_bytes_def Let_def PB_SIZE_MAX_def bytes_size)
qed

text \<open>A string field: the bytes up to the terminating NUL.  Of a static one, the NUL lies within its room.\<close>

lemma pb_strnlen_nul:
  "p = src + sz \<Longrightarrow> pb_strnlen m p sz max_sz < max_sz \<Longrightarrow> mbytes m (src + pb_strnlen m p sz max_sz) = 0"
proof (induction m p sz max_sz rule: pb_strnlen.induct)
  case (1 m p sz max_sz)
  then show ?case
    by (subst pb_strnlen.simps, subst (asm) (2) pb_strnlen.simps) (auto simp: add.assoc)
qed

definition string_length :: "pb_field \<Rightarrow> mem \<Rightarrow> addr \<Rightarrow> size_t" where
  "string_length f m src =
     pb_strnlen m src 0 (if PB_ATYPE (ftype f) = PB_ATYPE_POINTER then - 1 else ucast (data_size f))"

definition holds_string :: "pb_field \<Rightarrow> mem \<Rightarrow> addr \<Rightarrow> bool" where
  "holds_string f m src \<longleftrightarrow> src \<noteq> 0 \<and>
     (PB_ATYPE (ftype f) = PB_ATYPE_POINTER \<and> string_length f m src < 2 ^ 32 - 1 \<or>
      PB_ATYPE (ftype f) = PB_ATYPE_STATIC \<and> string_length f m src < ucast (data_size f))"

lemma holds_string_length:
  assumes "holds_string f m src" and "n = ucast (string_length f m src)"
  shows "string_length f m src = ucast (n :: u32)" and "unat n + 1 < 2 ^ 32"
    and "mbytes m (src + ucast n) = 0"
    and "PB_ATYPE (ftype f) \<noteq> PB_ATYPE_POINTER \<Longrightarrow> unat n + 1 \<le> unat (data_size f)"
proof -
  have small: "unat (data_size f) < 2 ^ 32" using unsigned_less [of "data_size f", where 'a = nat] by simp
  have lt: "unat (string_length f m src) + 1 < 2 ^ 32"
    using assms(1) small by (auto simp: holds_string_def word_less_nat_alt)
  then have n: "unat n = unat (string_length f m src)"
    unfolding assms(2) by (simp add: unsigned_ucast_eq take_bit_nat_eq_self)
  then show eq: "string_length f m src = ucast n" by (simp add: word_unat_eq_iff)
  show "unat n + 1 < 2 ^ 32" using lt n by simp
  show "unat n + 1 \<le> unat (data_size f)" if "PB_ATYPE (ftype f) \<noteq> PB_ATYPE_POINTER"
    using assms(1) that n by (simp add: holds_string_def word_less_nat_alt)
  have "string_length f m src < (if PB_ATYPE (ftype f) = PB_ATYPE_POINTER then - 1 else ucast (data_size f))"
    using assms(1) lt by (auto simp: holds_string_def word_less_nat_alt pb_consts unsigned_minus_1_eq_mask mask_eq_exp_minus_1)
  then show "mbytes m (src + ucast n) = 0"
    using pb_strnlen_nul [of src src 0 m "if PB_ATYPE (ftype f) = PB_ATYPE_POINTER then - 1 else ucast (data_size f)"] eq
    by (simp add: string_length_def split: if_splits)
qed

interpretation string_field: field_codec "holds_string f" "\<lambda>m src. unat (string_length f m src) + 1"
  "\<lambda>m src. varint_enc (string_length f m src) @ load_bytes m src (unat (string_length f m src))"
  "\<lambda>s src m. pb_enc_string s f src m" "\<lambda>s dest m. pb_dec_string env s f dest m"
  "\<lambda>dest w m. if PB_ATYPE (ftype f) = PB_ATYPE_POINTER then new_block env dest w m else in_place dest w m"
  for f and env :: "'s dec_env"
proof unfold_locales
  fix m m' m1 :: mem and src dest p :: addr and s :: "'s pb_istream" and rest
  assume p: "holds_string f m src"
  define n :: u32 where "n = ucast (string_length f m src)"
  note len = holds_string_length [OF p n_def]
  let ?bs = "load_bytes m src (unat n)"
  let ?w = "unat (string_length f m src) + 1"
  let ?target = "if PB_ATYPE (ftype f) = PB_ATYPE_POINTER then new_block env dest ?w m' else in_place dest ?w m'"
  have bs: "load_bytes m src (unat (string_length f m src)) = ?bs" by (simp add: len(1))
  show "emits (\<lambda>s. pb_enc_string s f src m)
      (varint_enc (string_length f m src) @ load_bytes m src (unat (string_length f m src)))"
    using emits_string [of ?bs "ucast n"] p len(1)
    by (simp add: pb_enc_string_def holds_string_def string_length_def)
  show "length (varint_enc (string_length f m src) @ load_bytes m src (unat (string_length f m src))) < 2 ^ 33"
    using prefixed_bound [of n m src] by (simp only: len(1) bs unat_ucast32)
  assume s: "wf_ibuf s" "visible s = (varint_enc (string_length f m src) @
    load_bytes m src (unat (string_length f m src))) @ rest"
  note read = read_prefixed [OF s(1), of n ?bs rest]
  have left: "\<not> bytes_left (buf_skip (length (varint_enc (ucast n))) s) < ucast n"
    using prefixed_left [OF s(1), of n ?bs rest] s(2) by (simp add: len(1))
  have size: "unat (ucast (n + 1) :: size_t) = unat n + 1" "unat (n + 1) = Suc (unat n)"
    using len(2) by (simp_all add: unat_word_ariths)
  then have size': "\<not> (ucast (n + 1) :: size_t) < ucast n" "ucast (n + 1) \<noteq> (0 :: size_t)"
    by (simp add: word_less_nat_alt) (use size(1) in \<open>metis Suc_eq_plus1 nat.simps(3) unat_0\<close>)
  have store: "store_bytes (store_bytes M a ?bs) (a + ucast n) [0] = store_bytes M a (load_bytes m src (unat n + 1))" for M a
    using len(2,3) unfolding load_bytes_append
    by (subst store_bytes_append) (auto simp: load_bytes_def)
  { assume t: "?target = Some (p, m1)"
    show "pb_dec_string env s f dest m' = (True, buf_skip (length (varint_enc (string_length f m src) @
      load_bytes m src (unat (string_length f m src)))) s,
      store_bytes m1 p (load_bytes m src (unat (string_length f m src) + 1)))"
    proof (cases "PB_ATYPE (ftype f) = PB_ATYPE_POINTER")
      case True
      then have nb: "new_block env dest (unat n + 1) m' = Some (p, m1)" using t len(1) by simp
      then show ?thesis
        using read s(2) left True new_block_ptr [OF nb] allocate_field_block [OF size'(2), of env _ dest m']
        by (simp add: pb_dec_string_def terminate_string_def Let_def size size' store len(1))
    next
      case False
      then show ?thesis using read s(2) p t len(4)
        by (auto simp: pb_dec_string_def terminate_string_def Let_def word_less_nat_alt size size' store len(1))
    qed }
  assume "?target = None"
  then have "PB_ATYPE (ftype f) = PB_ATYPE_POINTER" "new_block env dest (unat n + 1) m' = None"
    using len(1) by (auto split: if_splits)
  then show "\<exists>s'. pb_dec_string env s f dest m' = (False, s', m')"
    using read s(2) left allocate_field_block [OF size'(2), of env _ dest m']
    by (simp add: pb_dec_string_def Let_def size size' len(1))
qed

section \<open>The tables of encoders and decoders\<close>

text \<open>What a field has to hold to be read back, the bytes of memory it takes, and its encoding.\<close>

definition holds_value :: "pb_field \<Rightarrow> mem \<Rightarrow> addr \<Rightarrow> bool" where
  "holds_value f m src \<longleftrightarrow>
     (let lt = PB_LTYPE (ftype f) in
      if lt = PB_LTYPE_VARINT \<or> lt = PB_LTYPE_UVARINT \<or> lt = PB_LTYPE_SVARINT then data_size f \<in> set [1, 2, 4, 8]
      else if lt = PB_LTYPE_BOOL then mbytes m src \<le> 1
      else if lt = PB_LTYPE_BYTES then holds_bytes f m src
      else if lt = PB_LTYPE_STRING then holds_string f m src
      else if lt = PB_LTYPE_FIXED_LENGTH_BYTES then data_size f \<noteq> 0
      else lt = PB_LTYPE_FIXED32 \<or> lt = PB_LTYPE_FIXED64)"

definition value_width :: "pb_field \<Rightarrow> mem \<Rightarrow> addr \<Rightarrow> nat" where
  "value_width f m src =
     (let lt = PB_LTYPE (ftype f) in
      if lt = PB_LTYPE_BOOL then 1
      else if lt = PB_LTYPE_FIXED32 then 4
      else if lt = PB_LTYPE_FIXED64 then 8
      else if lt = PB_LTYPE_BYTES then 4 + unat (load32 m src)
      else if lt = PB_LTYPE_STRING then unat (string_length f m src) + 1
      else unat (data_size f))"

definition value_encoding :: "pb_field \<Rightarrow> mem \<Rightarrow> addr \<Rightarrow> byte list" where
  "value_encoding f m src =
     (let lt = PB_LTYPE (ftype f); sz = data_size f in
      if lt = PB_LTYPE_BOOL then varint_enc (if safe_read_bool m src then 1 else 0)
      else if lt = PB_LTYPE_VARINT then varint_enc (the (load_signed m src sz))
      else if lt = PB_LTYPE_UVARINT then varint_enc (load_int m src (unat sz))
      else if lt = PB_LTYPE_SVARINT then varint_enc (zigzag (the (load_signed m src sz)))
      else if lt = PB_LTYPE_FIXED32 then fixed32_bytes (load32 m src)
      else if lt = PB_LTYPE_FIXED64 then fixed64_bytes (load_int m src 8)
      else if lt = PB_LTYPE_BYTES then varint_enc (ucast (load32 m src)) @ load_bytes m (src + 4) (unat (load32 m src))
      else if lt = PB_LTYPE_STRING
      then varint_enc (string_length f m src) @ load_bytes m src (unat (string_length f m src))
      else varint_enc (ucast sz) @ load_bytes m src (unat sz))"

lemma holds_value_cases:
  assumes "holds_value f m src"
  obtains "PB_LTYPE (ftype f) = PB_LTYPE_BOOL" "mbytes m src \<le> 1"
  | "PB_LTYPE (ftype f) = PB_LTYPE_VARINT" "data_size f \<in> set [1, 2, 4, 8]"
  | "PB_LTYPE (ftype f) = PB_LTYPE_UVARINT" "data_size f \<in> set [1, 2, 4, 8]"
  | "PB_LTYPE (ftype f) = PB_LTYPE_SVARINT" "data_size f \<in> set [1, 2, 4, 8]"
  | "PB_LTYPE (ftype f) = PB_LTYPE_FIXED32"
  | "PB_LTYPE (ftype f) = PB_LTYPE_FIXED64"
  | "PB_LTYPE (ftype f) = PB_LTYPE_BYTES" "holds_bytes f m src"
  | "PB_LTYPE (ftype f) = PB_LTYPE_STRING" "holds_string f m src"
  | "PB_LTYPE (ftype f) = PB_LTYPE_FIXED_LENGTH_BYTES" "data_size f \<noteq> 0"
  using assms unfolding holds_value_def Let_def by (auto split: if_splits)

lemmas codec_tables = PB_ENCODERS_def PB_DECODERS_def value_encoding_def value_width_def Let_def pb_consts

text \<open>Reading a value back: \<open>w\<close> is the number of bytes of memory it takes.\<close>

definition reads_back :: "pb_field \<Rightarrow> mem \<Rightarrow> addr \<Rightarrow> 's dec_env \<Rightarrow> addr \<Rightarrow> mem \<Rightarrow> byte list \<Rightarrow> 's dec_result \<Rightarrow> bool" where
  "reads_back f m src env dest m' rest r =
     (let value = load_bytes m src (value_width f m src) in
      case value_target env f dest (length value) m' of
        None \<Rightarrow> (\<exists>s'. r = Some (False, s', m'))
      | Some (p, m1) \<Rightarrow> r = Some (True, stream_of rest, store_bytes m1 p value))"

lemma tables_encode:
  assumes "holds_value f m src" and "length (value_encoding f m src) \<le> unat n"
  shows "PB_ENCODERS env rec (PB_LTYPE (ftype f)) (pb_ostream_from_buffer n) f src m =
    Some (True, written n (value_encoding f m src))"
  using assms(1)
proof (cases rule: holds_value_cases)
  case 1 with assms(2) show ?thesis by (simp add: codec_tables bool_field.in_place.encoded)
next
  case 2 with assms(2) show ?thesis by (simp add: codec_tables varint_field.in_place.encoded)
next
  case 3 with assms(2) show ?thesis by (simp add: codec_tables uvarint_field.in_place.encoded)
next
  case 4 with assms(2) show ?thesis by (simp add: codec_tables svarint_field.in_place.encoded)
next
  case 5 with assms(2) show ?thesis by (simp add: codec_tables fixed32_field.in_place.encoded)
next
  case 6 with assms(2) show ?thesis by (simp add: codec_tables fixed64_field.in_place.encoded)
next
  case 7 with assms(2) show ?thesis by (simp add: codec_tables bytes_field.encoded)
next
  case 8 with assms(2) show ?thesis by (simp add: codec_tables string_field.encoded)
next
  case 9 with assms(2) show ?thesis by (simp add: codec_tables fixed_length_field.in_place.encoded)
qed

lemma tables_decode:
  assumes "holds_value f m src" and "length (value_encoding f m src @ rest) < 2 ^ 64"
  shows "reads_back f m src env dest m' rest
    (PB_DECODERS env k noinit (PB_LTYPE (ftype f)) (stream_of (value_encoding f m src @ rest)) f dest m')"
  using assms(1)
proof (cases rule: holds_value_cases)
  case 1 with assms(2) bool_field.in_place.decoded [of m src rest f dest m'] show ?thesis
    by (simp add: codec_tables reads_back_def value_target_def)
next
  case 2 with assms(2) varint_field.in_place.decoded [of f m src rest dest m'] show ?thesis
    by (simp add: codec_tables reads_back_def value_target_def)
next
  case 3 with assms(2) uvarint_field.in_place.decoded [of f m src rest dest m'] show ?thesis
    by (simp add: codec_tables reads_back_def value_target_def)
next
  case 4 with assms(2) svarint_field.in_place.decoded [of f m src rest dest m'] show ?thesis
    by (simp add: codec_tables reads_back_def value_target_def)
next
  case 5 with assms(2) fixed32_field.in_place.decoded [of m src rest f dest m'] show ?thesis
    by (simp add: codec_tables reads_back_def value_target_def)
next
  case 6 with assms(2) fixed64_field.in_place.decoded [of m src rest f dest m'] show ?thesis
    by (simp add: codec_tables reads_back_def value_target_def)
next
  case 7 with assms(2) bytes_field.decoded [of f m src rest env dest m'] show ?thesis
    by (auto simp: codec_tables reads_back_def value_target_def split: option.splits)
next
  case 8 with assms(2) string_field.decoded [of f m src rest env dest m'] show ?thesis
    by (auto simp: codec_tables reads_back_def value_target_def split: option.splits)
next
  case 9 with assms(2) fixed_length_field.in_place.decoded [of f m src rest dest m'] show ?thesis
    by (simp add: codec_tables reads_back_def value_target_def)
qed

end
