(* ===== verification/Pb_Fields.thy ===== *)
theory Pb_Fields
  imports Pb_Iter_Props
begin

text \<open>
  The macros of \<open>pb.h\<close> that generated code fills descriptor arrays with, over a model of C structures: a
  structure is the list of its members, and \<open>sizeof\<close>, \<open>offsetof\<close> follow the LP64 ABI (members in order, each
  aligned to its type).  The lemmas at the end say when the iterators find every member of a structure.
\<close>

named_theorems table_entries \<open>descriptor arrays with their numbers worked out\<close>

section \<open>Structures\<close>

datatype ctype = CInt int | CPtr ctype | CArr int ctype | CStruct "(string \<times> ctype) list"

type_synonym cstruct = "(string \<times> ctype) list"

definition align_up :: "int \<Rightarrow> int \<Rightarrow> int" where
  "align_up n a = (n + a - 1) div a * a"

fun alignof :: "ctype \<Rightarrow> int" and aligns :: "cstruct \<Rightarrow> int" where
  "alignof (CInt n) = n"
| "alignof (CPtr t) = 8"
| "alignof (CArr k t) = alignof t"
| "alignof (CStruct ms) = aligns ms"
| "aligns [] = 1"
| "aligns ((m, t) # ms) = max (alignof t) (aligns ms)"

fun sizeof :: "ctype \<Rightarrow> int" and end_of :: "int \<Rightarrow> cstruct \<Rightarrow> int" where
  "sizeof (CInt n) = n"
| "sizeof (CPtr t) = 8"
| "sizeof (CArr k t) = k * sizeof t"
| "sizeof (CStruct ms) = align_up (end_of 0 ms) (aligns ms)"
| "end_of off [] = off"
| "end_of off ((m, t) # ms) = end_of (align_up off (alignof t) + sizeof t) ms"

primrec offset_in :: "int \<Rightarrow> cstruct \<Rightarrow> string \<Rightarrow> int" where
  "offset_in off [] m = off"
| "offset_in off (mt # ms) m =
     (let here = align_up off (alignof (snd mt)) in
      if fst mt = m then here else offset_in (here + sizeof (snd mt)) ms m)"

definition offset_of :: "cstruct \<Rightarrow> string \<Rightarrow> int" where "offset_of st m = offset_in 0 st m"

definition member_type :: "cstruct \<Rightarrow> string \<Rightarrow> ctype" where
  "member_type st m = (case map_of st m of Some t \<Rightarrow> t | None \<Rightarrow> CStruct [])"

text \<open>The type of \<open>m[0]\<close> for a pointer or an array \<open>m\<close>.\<close>

definition elem_type :: "ctype \<Rightarrow> ctype" where
  "elem_type t = (case t of CPtr u \<Rightarrow> u | CArr k u \<Rightarrow> u | CInt n \<Rightarrow> t | CStruct ms \<Rightarrow> t)"

definition pb_membersize :: "cstruct \<Rightarrow> string \<Rightarrow> pb_size_t" where
  "pb_membersize st m = of_int (sizeof (member_type st m))"

definition pb_elemsize :: "cstruct \<Rightarrow> string \<Rightarrow> pb_size_t" where
  "pb_elemsize st m = of_int (sizeof (elem_type (member_type st m)))"

definition pb_arraysize :: "cstruct \<Rightarrow> string \<Rightarrow> pb_size_t" where
  "pb_arraysize st m = of_int (sizeof (member_type st m) div sizeof (elem_type (member_type st m)))"

definition pb_delta :: "cstruct \<Rightarrow> string \<Rightarrow> string \<Rightarrow> pb_ssize_t" where
  "pb_delta st m1 m2 = of_int (offset_of st m1) - of_int (offset_of st m2)"

text \<open>\<open>pb_bytes_array_t\<close> and its flexible member.\<close>

definition pb_bytes_array_t :: cstruct where
  "pb_bytes_array_t = [(''size'', CInt 4), (''bytes'', CArr 1 (CInt 1))]"

section \<open>Offsets\<close>

definition PB_DATAOFFSET_FIRST :: "cstruct \<Rightarrow> string \<Rightarrow> string \<Rightarrow> pb_size_t" where
  "PB_DATAOFFSET_FIRST st m1 m2 = of_int (offset_of st m1)"

definition PB_DATAOFFSET_OTHER :: "cstruct \<Rightarrow> string \<Rightarrow> string \<Rightarrow> pb_size_t" where
  "PB_DATAOFFSET_OTHER st m1 m2 = of_int (offset_of st m1) - of_int (offset_of st m2) - pb_membersize st m2"

definition PB_DATAOFFSET_UNION :: "cstruct \<Rightarrow> string \<Rightarrow> string \<Rightarrow> pb_size_t" where
  "PB_DATAOFFSET_UNION st m1 m2 = PB_SIZE_MAX"

definition PB_DATAOFFSET_CHOOSE :: "cstruct \<Rightarrow> string \<Rightarrow> string \<Rightarrow> pb_size_t" where
  "PB_DATAOFFSET_CHOOSE st m1 m2 =
     (if offset_of st m1 = offset_of st m2 then PB_DATAOFFSET_FIRST st m1 m2 else PB_DATAOFFSET_OTHER st m1 m2)"

section \<open>Entries\<close>

text \<open>
  \<open>has_of m\<close> and \<open>count_of m\<close> are the pasted names \<open>has_ ## m\<close> and \<open>m ## _count\<close>.
\<close>

definition has_of :: "string \<Rightarrow> string" where "has_of m = ''has_'' @ m"
definition count_of :: "string \<Rightarrow> string" where "count_of m = m @ ''_count''"

type_synonym field_macro = "u32 \<Rightarrow> cstruct \<Rightarrow> string \<Rightarrow> pb_size_t \<Rightarrow> pb_type_t \<Rightarrow> addr \<Rightarrow> pb_field"

definition PB_REQUIRED_STATIC :: field_macro where
  "PB_REQUIRED_STATIC t st m fd lt ptr =
     \<lparr>tag = t, ftype = PB_ATYPE_STATIC OR PB_HTYPE_REQUIRED OR lt, data_offset = fd, size_offset = 0,
      data_size = pb_membersize st m, array_size = 0, fptr = ptr\<rparr>"

definition PB_OPTIONAL_STATIC :: field_macro where
  "PB_OPTIONAL_STATIC t st m fd lt ptr =
     \<lparr>tag = t, ftype = PB_ATYPE_STATIC OR PB_HTYPE_OPTIONAL OR lt, data_offset = fd,
      size_offset = pb_delta st (has_of m) m, data_size = pb_membersize st m, array_size = 0, fptr = ptr\<rparr>"

definition PB_SINGULAR_STATIC :: field_macro where
  "PB_SINGULAR_STATIC t st m fd lt ptr =
     \<lparr>tag = t, ftype = PB_ATYPE_STATIC OR PB_HTYPE_OPTIONAL OR lt, data_offset = fd, size_offset = 0,
      data_size = pb_membersize st m, array_size = 0, fptr = ptr\<rparr>"

definition PB_REPEATED_STATIC :: field_macro where
  "PB_REPEATED_STATIC t st m fd lt ptr =
     \<lparr>tag = t, ftype = PB_ATYPE_STATIC OR PB_HTYPE_REPEATED OR lt, data_offset = fd,
      size_offset = pb_delta st (count_of m) m, data_size = pb_elemsize st m,
      array_size = pb_arraysize st m, fptr = ptr\<rparr>"

definition PB_REQUIRED_POINTER :: field_macro where
  "PB_REQUIRED_POINTER t st m fd lt ptr =
     \<lparr>tag = t, ftype = PB_ATYPE_POINTER OR PB_HTYPE_REQUIRED OR lt, data_offset = fd, size_offset = 0,
      data_size = pb_elemsize st m, array_size = 0, fptr = ptr\<rparr>"

definition PB_OPTIONAL_POINTER :: field_macro where
  "PB_OPTIONAL_POINTER t st m fd lt ptr =
     \<lparr>tag = t, ftype = PB_ATYPE_POINTER OR PB_HTYPE_OPTIONAL OR lt, data_offset = fd, size_offset = 0,
      data_size = pb_elemsize st m, array_size = 0, fptr = ptr\<rparr>"

definition PB_SINGULAR_POINTER :: field_macro where
  "PB_SINGULAR_POINTER t st m fd lt ptr =
     \<lparr>tag = t, ftype = PB_ATYPE_POINTER OR PB_HTYPE_OPTIONAL OR lt, data_offset = fd, size_offset = 0,
      data_size = pb_elemsize st m, array_size = 0, fptr = ptr\<rparr>"

definition PB_REPEATED_POINTER :: field_macro where
  "PB_REPEATED_POINTER t st m fd lt ptr =
     \<lparr>tag = t, ftype = PB_ATYPE_POINTER OR PB_HTYPE_REPEATED OR lt, data_offset = fd,
      size_offset = pb_delta st (count_of m) m, data_size = pb_elemsize st m, array_size = 0, fptr = ptr\<rparr>"

definition PB_REQUIRED_CALLBACK :: field_macro where
  "PB_REQUIRED_CALLBACK t st m fd lt ptr =
     \<lparr>tag = t, ftype = PB_ATYPE_CALLBACK OR PB_HTYPE_REQUIRED OR lt, data_offset = fd, size_offset = 0,
      data_size = pb_membersize st m, array_size = 0, fptr = ptr\<rparr>"

definition PB_OPTIONAL_CALLBACK :: field_macro where
  "PB_OPTIONAL_CALLBACK t st m fd lt ptr =
     \<lparr>tag = t, ftype = PB_ATYPE_CALLBACK OR PB_HTYPE_OPTIONAL OR lt, data_offset = fd, size_offset = 0,
      data_size = pb_membersize st m, array_size = 0, fptr = ptr\<rparr>"

definition PB_SINGULAR_CALLBACK :: field_macro where
  "PB_SINGULAR_CALLBACK t st m fd lt ptr =
     \<lparr>tag = t, ftype = PB_ATYPE_CALLBACK OR PB_HTYPE_OPTIONAL OR lt, data_offset = fd, size_offset = 0,
      data_size = pb_membersize st m, array_size = 0, fptr = ptr\<rparr>"

definition PB_REPEATED_CALLBACK :: field_macro where
  "PB_REPEATED_CALLBACK t st m fd lt ptr =
     \<lparr>tag = t, ftype = PB_ATYPE_CALLBACK OR PB_HTYPE_REPEATED OR lt, data_offset = fd, size_offset = 0,
      data_size = pb_membersize st m, array_size = 0, fptr = ptr\<rparr>"

definition PB_OPTEXT_STATIC :: field_macro where
  "PB_OPTEXT_STATIC t st m fd lt ptr =
     \<lparr>tag = t, ftype = PB_ATYPE_STATIC OR PB_HTYPE_REQUIRED OR lt, data_offset = 0, size_offset = 0,
      data_size = pb_membersize st m, array_size = 0, fptr = ptr\<rparr>"

definition PB_OPTEXT_POINTER :: field_macro where
  "PB_OPTEXT_POINTER t st m fd lt ptr = PB_OPTIONAL_POINTER t st m fd lt ptr"

definition PB_OPTEXT_CALLBACK :: field_macro where
  "PB_OPTEXT_CALLBACK t st m fd lt ptr = PB_OPTIONAL_CALLBACK t st m fd lt ptr"

section \<open>The field macro\<close>

datatype pb_proto = BOOL | BYTES | DOUBLE | ENUM | UENUM | FIXED32 | FIXED64 | FLOAT | INT32 | INT64 | MESSAGE
  | SFIXED32 | SFIXED64 | SINT32 | SINT64 | STRING | UINT32 | UINT64 | EXTENSION | FIXED_LENGTH_BYTES

fun PB_LTYPE_MAP :: "pb_proto \<Rightarrow> pb_type_t" where
  "PB_LTYPE_MAP BOOL = PB_LTYPE_BOOL"
| "PB_LTYPE_MAP BYTES = PB_LTYPE_BYTES"
| "PB_LTYPE_MAP DOUBLE = PB_LTYPE_FIXED64"
| "PB_LTYPE_MAP ENUM = PB_LTYPE_VARINT"
| "PB_LTYPE_MAP UENUM = PB_LTYPE_UVARINT"
| "PB_LTYPE_MAP FIXED32 = PB_LTYPE_FIXED32"
| "PB_LTYPE_MAP FIXED64 = PB_LTYPE_FIXED64"
| "PB_LTYPE_MAP FLOAT = PB_LTYPE_FIXED32"
| "PB_LTYPE_MAP INT32 = PB_LTYPE_VARINT"
| "PB_LTYPE_MAP INT64 = PB_LTYPE_VARINT"
| "PB_LTYPE_MAP MESSAGE = PB_LTYPE_SUBMESSAGE"
| "PB_LTYPE_MAP SFIXED32 = PB_LTYPE_FIXED32"
| "PB_LTYPE_MAP SFIXED64 = PB_LTYPE_FIXED64"
| "PB_LTYPE_MAP SINT32 = PB_LTYPE_SVARINT"
| "PB_LTYPE_MAP SINT64 = PB_LTYPE_SVARINT"
| "PB_LTYPE_MAP STRING = PB_LTYPE_STRING"
| "PB_LTYPE_MAP UINT32 = PB_LTYPE_UVARINT"
| "PB_LTYPE_MAP UINT64 = PB_LTYPE_UVARINT"
| "PB_LTYPE_MAP EXTENSION = PB_LTYPE_EXTENSION"
| "PB_LTYPE_MAP FIXED_LENGTH_BYTES = PB_LTYPE_FIXED_LENGTH_BYTES"

datatype pb_rules = REQUIRED | OPTIONAL | SINGULAR | REPEATED | OPTEXT
datatype pb_allocation = STATIC | POINTER | CALLBACK
datatype pb_placement = FIRST | OTHER | UNION | CHOOSE

fun rules_allocation :: "pb_rules \<Rightarrow> pb_allocation \<Rightarrow> field_macro" where
  "rules_allocation REQUIRED STATIC = PB_REQUIRED_STATIC"
| "rules_allocation OPTIONAL STATIC = PB_OPTIONAL_STATIC"
| "rules_allocation SINGULAR STATIC = PB_SINGULAR_STATIC"
| "rules_allocation REPEATED STATIC = PB_REPEATED_STATIC"
| "rules_allocation OPTEXT STATIC = PB_OPTEXT_STATIC"
| "rules_allocation REQUIRED POINTER = PB_REQUIRED_POINTER"
| "rules_allocation OPTIONAL POINTER = PB_OPTIONAL_POINTER"
| "rules_allocation SINGULAR POINTER = PB_SINGULAR_POINTER"
| "rules_allocation REPEATED POINTER = PB_REPEATED_POINTER"
| "rules_allocation OPTEXT POINTER = PB_OPTEXT_POINTER"
| "rules_allocation REQUIRED CALLBACK = PB_REQUIRED_CALLBACK"
| "rules_allocation OPTIONAL CALLBACK = PB_OPTIONAL_CALLBACK"
| "rules_allocation SINGULAR CALLBACK = PB_SINGULAR_CALLBACK"
| "rules_allocation REPEATED CALLBACK = PB_REPEATED_CALLBACK"
| "rules_allocation OPTEXT CALLBACK = PB_OPTEXT_CALLBACK"

fun placement_offset :: "pb_placement \<Rightarrow> cstruct \<Rightarrow> string \<Rightarrow> string \<Rightarrow> pb_size_t" where
  "placement_offset FIRST = PB_DATAOFFSET_FIRST"
| "placement_offset OTHER = PB_DATAOFFSET_OTHER"
| "placement_offset UNION = PB_DATAOFFSET_UNION"
| "placement_offset CHOOSE = PB_DATAOFFSET_CHOOSE"

definition PB_FIELD :: "u32 \<Rightarrow> pb_proto \<Rightarrow> pb_rules \<Rightarrow> pb_allocation \<Rightarrow> pb_placement \<Rightarrow> cstruct \<Rightarrow>
    string \<Rightarrow> string \<Rightarrow> addr \<Rightarrow> pb_field" where
  "PB_FIELD t type rules allocation placement st m prev ptr =
     rules_allocation rules allocation t st m (placement_offset placement st m prev) (PB_LTYPE_MAP type) ptr"

definition PB_REPEATED_FIXED_COUNT :: "u32 \<Rightarrow> pb_proto \<Rightarrow> pb_placement \<Rightarrow> cstruct \<Rightarrow>
    string \<Rightarrow> string \<Rightarrow> addr \<Rightarrow> pb_field" where
  "PB_REPEATED_FIXED_COUNT t type placement st m prev ptr =
     \<lparr>tag = t, ftype = PB_ATYPE_STATIC OR PB_HTYPE_REPEATED OR PB_LTYPE_MAP type,
      data_offset = placement_offset placement st m prev, size_offset = 0, data_size = pb_elemsize st m,
      array_size = pb_arraysize st m, fptr = ptr\<rparr>"

section \<open>Descriptions of structures\<close>

text \<open>
  \<open>describes st fs ms\<close>: entry \<open>i\<close> of \<open>fs\<close> leads the iterator to member \<open>ms ! i\<close> of \<open>st\<close>, and its size field to
  \<open>has_\<close> or \<open>_count\<close> of that member.  A check over the list, evaluated for each generated table.
\<close>

definition size_member :: "pb_field \<Rightarrow> string \<Rightarrow> string" where
  "size_member f m =
     (if size_offset f = 0 then m else if PB_HTYPE (ftype f) = PB_HTYPE_REPEATED then count_of m else has_of m)"

fun describes_from :: "cstruct \<Rightarrow> addr \<Rightarrow> pb_field list \<Rightarrow> string list \<Rightarrow> bool" where
  "describes_from st e [] [] \<longleftrightarrow> True"
| "describes_from st e (f # fs) (m # ms) \<longleftrightarrow>
     tag f \<noteq> 0 \<and> PB_HTYPE (ftype f) \<noteq> PB_HTYPE_ONEOF \<and>
     e + ucast (data_offset f) = of_int (offset_of st m) \<and>
     of_int (offset_of st m) + scast (size_offset f) = (of_int (offset_of st (size_member f m)) :: addr) \<and>
     describes_from st (of_int (offset_of st m) + field_extent f) fs ms"
| "describes_from st e fs ms \<longleftrightarrow> False"

definition describes :: "cstruct \<Rightarrow> pb_field list \<Rightarrow> string list \<Rightarrow> bool" where
  "describes st fs ms = describes_from st 0 fs ms"

lemma describes_from_nth:
  assumes "describes_from st e fs ms" and "i < length fs"
  shows "tag (fs ! i) \<noteq> 0 \<and> PB_HTYPE (ftype (fs ! i)) \<noteq> PB_HTYPE_ONEOF \<and>
    (if i = 0 then e else of_int (offset_of st (ms ! (i - 1))) + field_extent (fs ! (i - 1))) + ucast (data_offset (fs ! i)) =
      of_int (offset_of st (ms ! i)) \<and>
    of_int (offset_of st (ms ! i)) + scast (size_offset (fs ! i)) =
      (of_int (offset_of st (size_member (fs ! i) (ms ! i))) :: addr)"
  using assms
proof (induction st e fs ms arbitrary: i rule: describes_from.induct)
  case (2 st e f fs m ms)
  show ?case
  proof (cases i)
    case (Suc j)
    with 2 have "describes_from st (of_int (offset_of st m) + field_extent f) fs ms" and "j < length fs" by auto
    from "2.IH" [OF this] Suc show ?thesis by (cases j) simp_all
  qed (use 2 in auto)
qed auto

lemma describes_wf: "describes st fs ms \<Longrightarrow> wf_fields fs"
  using describes_from_nth [of st 0 fs ms] by (fastforce simp: describes_def wf_fields_def in_set_conv_nth)

lemma describes_addresses:
  assumes d: "describes st fs ms" and "dest \<noteq> 0" and i: "i < length fs"
  shows "pData (iter_at fs dest i) = dest + of_int (offset_of st (ms ! i))"
    and "pSize (iter_at fs dest i) = PMem (dest + of_int (offset_of st (size_member (fs ! i) (ms ! i))))"
proof -
  note wf = describes_wf [OF d] and nth = describes_from_nth [OF d [unfolded describes_def]]
  have "pData (iter_at fs dest i) = dest + of_int (offset_of st (ms ! i)) \<and>
      pSize (iter_at fs dest i) = ploc_add (dest + of_int (offset_of st (ms ! i))) (size_offset (fs ! i))"
    using i
  proof (induction i)
    case 0
    then show ?case using nth [of 0] assms(2) by (simp add: pb_field_iter_begin_def Let_def)
  next
    case (Suc i)
    let ?it = "iter_at fs dest i"
    have "pos ?it = i" using pos_iter_at [OF wf] Suc.prems by simp
    moreover have "of_int (offset_of st (ms ! i)) + (field_extent (fs ! i) + ucast (data_offset (fs ! Suc i))) =
        (of_int (offset_of st (ms ! Suc i)) :: addr)"
      using nth [OF Suc.prems] by (simp add: add.assoc)
    ultimately show ?case
      using next_step [of ?it] wf Suc nth [of i] by (simp add: Let_def add.assoc)
  qed
  then show "pData (iter_at fs dest i) = dest + of_int (offset_of st (ms ! i))"
    and "pSize (iter_at fs dest i) = PMem (dest + of_int (offset_of st (size_member (fs ! i) (ms ! i))))"
    using nth [OF i] by (simp_all add: ploc_add_def add.assoc)
qed

end
