(* ===== verification/Cct_Messages.thy ===== *)
theory Cct_Messages
  imports Pb_Fields
begin

text \<open>
  The tables that nanopb generated for the log upload protocol of GoogleDataTransport
  (\<open>cct.nanopb.h\<close>, \<open>cct.nanopb.c\<close>): enumerations, structures, field tags and descriptor arrays.  The addresses of
  the arrays are the linker's choice; any distinct non-null ones would do.
\<close>

section \<open>Enumerations\<close>

datatype gdt_cct_NetworkConnectionInfo_NetworkType =
    gdt_cct_NetworkConnectionInfo_NetworkType_NONE
  | gdt_cct_NetworkConnectionInfo_NetworkType_MOBILE
  | gdt_cct_NetworkConnectionInfo_NetworkType_WIFI
  | gdt_cct_NetworkConnectionInfo_NetworkType_MOBILE_MMS
  | gdt_cct_NetworkConnectionInfo_NetworkType_MOBILE_SUPL
  | gdt_cct_NetworkConnectionInfo_NetworkType_MOBILE_DUN
  | gdt_cct_NetworkConnectionInfo_NetworkType_MOBILE_HIPRI
  | gdt_cct_NetworkConnectionInfo_NetworkType_WIMAX
  | gdt_cct_NetworkConnectionInfo_NetworkType_BLUETOOTH
  | gdt_cct_NetworkConnectionInfo_NetworkType_DUMMY
  | gdt_cct_NetworkConnectionInfo_NetworkType_ETHERNET
  | gdt_cct_NetworkConnectionInfo_NetworkType_MOBILE_FOTA
  | gdt_cct_NetworkConnectionInfo_NetworkType_MOBILE_IMS
  | gdt_cct_NetworkConnectionInfo_NetworkType_MOBILE_CBS
  | gdt_cct_NetworkConnectionInfo_NetworkType_WIFI_P2P
  | gdt_cct_NetworkConnectionInfo_NetworkType_MOBILE_IA
  | gdt_cct_NetworkConnectionInfo_NetworkType_MOBILE_EMERGENCY
  | gdt_cct_NetworkConnectionInfo_NetworkType_PROXY
  | gdt_cct_NetworkConnectionInfo_NetworkType_VPN

primrec gdt_cct_NetworkConnectionInfo_NetworkType_value :: "gdt_cct_NetworkConnectionInfo_NetworkType \<Rightarrow> int" where
  "gdt_cct_NetworkConnectionInfo_NetworkType_value gdt_cct_NetworkConnectionInfo_NetworkType_NONE = - 1"
| "gdt_cct_NetworkConnectionInfo_NetworkType_value gdt_cct_NetworkConnectionInfo_NetworkType_MOBILE = 0"
| "gdt_cct_NetworkConnectionInfo_NetworkType_value gdt_cct_NetworkConnectionInfo_NetworkType_WIFI = 1"
| "gdt_cct_NetworkConnectionInfo_NetworkType_value gdt_cct_NetworkConnectionInfo_NetworkType_MOBILE_MMS = 2"
| "gdt_cct_NetworkConnectionInfo_NetworkType_value gdt_cct_NetworkConnectionInfo_NetworkType_MOBILE_SUPL = 3"
| "gdt_cct_NetworkConnectionInfo_NetworkType_value gdt_cct_NetworkConnectionInfo_NetworkType_MOBILE_DUN = 4"
| "gdt_cct_NetworkConnectionInfo_NetworkType_value gdt_cct_NetworkConnectionInfo_NetworkType_MOBILE_HIPRI = 5"
| "gdt_cct_NetworkConnectionInfo_NetworkType_value gdt_cct_NetworkConnectionInfo_NetworkType_WIMAX = 6"
| "gdt_cct_NetworkConnectionInfo_NetworkType_value gdt_cct_NetworkConnectionInfo_NetworkType_BLUETOOTH = 7"
| "gdt_cct_NetworkConnectionInfo_NetworkType_value gdt_cct_NetworkConnectionInfo_NetworkType_DUMMY = 8"
| "gdt_cct_NetworkConnectionInfo_NetworkType_value gdt_cct_NetworkConnectionInfo_NetworkType_ETHERNET = 9"
| "gdt_cct_NetworkConnectionInfo_NetworkType_value gdt_cct_NetworkConnectionInfo_NetworkType_MOBILE_FOTA = 10"
| "gdt_cct_NetworkConnectionInfo_NetworkType_value gdt_cct_NetworkConnectionInfo_NetworkType_MOBILE_IMS = 11"
| "gdt_cct_NetworkConnectionInfo_NetworkType_value gdt_cct_NetworkConnectionInfo_NetworkType_MOBILE_CBS = 12"
| "gdt_cct_NetworkConnectionInfo_NetworkType_value gdt_cct_NetworkConnectionInfo_NetworkType_WIFI_P2P = 13"
| "gdt_cct_NetworkConnectionInfo_NetworkType_value gdt_cct_NetworkConnectionInfo_NetworkType_MOBILE_IA = 14"
| "gdt_cct_NetworkConnectionInfo_NetworkType_value gdt_cct_NetworkConnectionInfo_NetworkType_MOBILE_EMERGENCY = 15"
| "gdt_cct_NetworkConnectionInfo_NetworkType_value gdt_cct_NetworkConnectionInfo_NetworkType_PROXY = 16"
| "gdt_cct_NetworkConnectionInfo_NetworkType_value gdt_cct_NetworkConnectionInfo_NetworkType_VPN = 17"

definition gdt_cct_NetworkConnectionInfo_NetworkType_MIN :: gdt_cct_NetworkConnectionInfo_NetworkType where "gdt_cct_NetworkConnectionInfo_NetworkType_MIN = gdt_cct_NetworkConnectionInfo_NetworkType_NONE"
definition gdt_cct_NetworkConnectionInfo_NetworkType_MAX :: gdt_cct_NetworkConnectionInfo_NetworkType where "gdt_cct_NetworkConnectionInfo_NetworkType_MAX = gdt_cct_NetworkConnectionInfo_NetworkType_VPN"

datatype gdt_cct_NetworkConnectionInfo_MobileSubtype =
    gdt_cct_NetworkConnectionInfo_MobileSubtype_UNKNOWN_MOBILE_SUBTYPE
  | gdt_cct_NetworkConnectionInfo_MobileSubtype_GPRS
  | gdt_cct_NetworkConnectionInfo_MobileSubtype_EDGE
  | gdt_cct_NetworkConnectionInfo_MobileSubtype_UMTS
  | gdt_cct_NetworkConnectionInfo_MobileSubtype_CDMA
  | gdt_cct_NetworkConnectionInfo_MobileSubtype_EVDO_0
  | gdt_cct_NetworkConnectionInfo_MobileSubtype_EVDO_A
  | gdt_cct_NetworkConnectionInfo_MobileSubtype_RTT
  | gdt_cct_NetworkConnectionInfo_MobileSubtype_HSDPA
  | gdt_cct_NetworkConnectionInfo_MobileSubtype_HSUPA
  | gdt_cct_NetworkConnectionInfo_MobileSubtype_HSPA
  | gdt_cct_NetworkConnectionInfo_MobileSubtype_IDEN
  | gdt_cct_NetworkConnectionInfo_MobileSubtype_EVDO_B
  | gdt_cct_NetworkConnectionInfo_MobileSubtype_LTE
  | gdt_cct_NetworkConnectionInfo_MobileSubtype_EHRPD
  | gdt_cct_NetworkConnectionInfo_MobileSubtype_HSPAP
  | gdt_cct_NetworkConnectionInfo_MobileSubtype_GSM
  | gdt_cct_NetworkConnectionInfo_MobileSubtype_TD_SCDMA
  | gdt_cct_NetworkConnectionInfo_MobileSubtype_IWLAN
  | gdt_cct_NetworkConnectionInfo_MobileSubtype_LTE_CA
  | gdt_cct_NetworkConnectionInfo_MobileSubtype_COMBINED

primrec gdt_cct_NetworkConnectionInfo_MobileSubtype_value :: "gdt_cct_NetworkConnectionInfo_MobileSubtype \<Rightarrow> int" where
  "gdt_cct_NetworkConnectionInfo_MobileSubtype_value gdt_cct_NetworkConnectionInfo_MobileSubtype_UNKNOWN_MOBILE_SUBTYPE = 0"
| "gdt_cct_NetworkConnectionInfo_MobileSubtype_value gdt_cct_NetworkConnectionInfo_MobileSubtype_GPRS = 1"
| "gdt_cct_NetworkConnectionInfo_MobileSubtype_value gdt_cct_NetworkConnectionInfo_MobileSubtype_EDGE = 2"
| "gdt_cct_NetworkConnectionInfo_MobileSubtype_value gdt_cct_NetworkConnectionInfo_MobileSubtype_UMTS = 3"
| "gdt_cct_NetworkConnectionInfo_MobileSubtype_value gdt_cct_NetworkConnectionInfo_MobileSubtype_CDMA = 4"
| "gdt_cct_NetworkConnectionInfo_MobileSubtype_value gdt_cct_NetworkConnectionInfo_MobileSubtype_EVDO_0 = 5"
| "gdt_cct_NetworkConnectionInfo_MobileSubtype_value gdt_cct_NetworkConnectionInfo_MobileSubtype_EVDO_A = 6"
| "gdt_cct_NetworkConnectionInfo_MobileSubtype_value gdt_cct_NetworkConnectionInfo_MobileSubtype_RTT = 7"
| "gdt_cct_NetworkConnectionInfo_MobileSubtype_value gdt_cct_NetworkConnectionInfo_MobileSubtype_HSDPA = 8"
| "gdt_cct_NetworkConnectionInfo_MobileSubtype_value gdt_cct_NetworkConnectionInfo_MobileSubtype_HSUPA = 9"
| "gdt_cct_NetworkConnectionInfo_MobileSubtype_value gdt_cct_NetworkConnectionInfo_MobileSubtype_HSPA = 10"
| "gdt_cct_NetworkConnectionInfo_MobileSubtype_value gdt_cct_NetworkConnectionInfo_MobileSubtype_IDEN = 11"
| "gdt_cct_NetworkConnectionInfo_MobileSubtype_value gdt_cct_NetworkConnectionInfo_MobileSubtype_EVDO_B = 12"
| "gdt_cct_NetworkConnectionInfo_MobileSubtype_value gdt_cct_NetworkConnectionInfo_MobileSubtype_LTE = 13"
| "gdt_cct_NetworkConnectionInfo_MobileSubtype_value gdt_cct_NetworkConnectionInfo_MobileSubtype_EHRPD = 14"
| "gdt_cct_NetworkConnectionInfo_MobileSubtype_value gdt_cct_NetworkConnectionInfo_MobileSubtype_HSPAP = 15"
| "gdt_cct_NetworkConnectionInfo_MobileSubtype_value gdt_cct_NetworkConnectionInfo_MobileSubtype_GSM = 16"
| "gdt_cct_NetworkConnectionInfo_MobileSubtype_value gdt_cct_NetworkConnectionInfo_MobileSubtype_TD_SCDMA = 17"
| "gdt_cct_NetworkConnectionInfo_MobileSubtype_value gdt_cct_NetworkConnectionInfo_MobileSubtype_IWLAN = 18"
| "gdt_cct_NetworkConnectionInfo_MobileSubtype_value gdt_cct_NetworkConnectionInfo_MobileSubtype_LTE_CA = 19"
| "gdt_cct_NetworkConnectionInfo_MobileSubtype_value gdt_cct_NetworkConnectionInfo_MobileSubtype_COMBINED = 100"

definition gdt_cct_NetworkConnectionInfo_MobileSubtype_MIN :: gdt_cct_NetworkConnectionInfo_MobileSubtype where "gdt_cct_NetworkConnectionInfo_MobileSubtype_MIN = gdt_cct_NetworkConnectionInfo_MobileSubtype_UNKNOWN_MOBILE_SUBTYPE"
definition gdt_cct_NetworkConnectionInfo_MobileSubtype_MAX :: gdt_cct_NetworkConnectionInfo_MobileSubtype where "gdt_cct_NetworkConnectionInfo_MobileSubtype_MAX = gdt_cct_NetworkConnectionInfo_MobileSubtype_COMBINED"

datatype gdt_cct_ClientInfo_ClientType =
    gdt_cct_ClientInfo_ClientType_CLIENT_UNKNOWN
  | gdt_cct_ClientInfo_ClientType_IOS_FIREBASE

primrec gdt_cct_ClientInfo_ClientType_value :: "gdt_cct_ClientInfo_ClientType \<Rightarrow> int" where
  "gdt_cct_ClientInfo_ClientType_value gdt_cct_ClientInfo_ClientType_CLIENT_UNKNOWN = 0"
| "gdt_cct_ClientInfo_ClientType_value gdt_cct_ClientInfo_ClientType_IOS_FIREBASE = 15"

definition gdt_cct_ClientInfo_ClientType_MIN :: gdt_cct_ClientInfo_ClientType where "gdt_cct_ClientInfo_ClientType_MIN = gdt_cct_ClientInfo_ClientType_CLIENT_UNKNOWN"
definition gdt_cct_ClientInfo_ClientType_MAX :: gdt_cct_ClientInfo_ClientType where "gdt_cct_ClientInfo_ClientType_MAX = gdt_cct_ClientInfo_ClientType_IOS_FIREBASE"

datatype gdt_cct_QosTierConfiguration_QosTier =
    gdt_cct_QosTierConfiguration_QosTier_DEFAULT
  | gdt_cct_QosTierConfiguration_QosTier_UNMETERED_ONLY
  | gdt_cct_QosTierConfiguration_QosTier_UNMETERED_OR_DAILY
  | gdt_cct_QosTierConfiguration_QosTier_FAST_IF_RADIO_AWAKE
  | gdt_cct_QosTierConfiguration_QosTier_NEVER

primrec gdt_cct_QosTierConfiguration_QosTier_value :: "gdt_cct_QosTierConfiguration_QosTier \<Rightarrow> int" where
  "gdt_cct_QosTierConfiguration_QosTier_value gdt_cct_QosTierConfiguration_QosTier_DEFAULT = 0"
| "gdt_cct_QosTierConfiguration_QosTier_value gdt_cct_QosTierConfiguration_QosTier_UNMETERED_ONLY = 1"
| "gdt_cct_QosTierConfiguration_QosTier_value gdt_cct_QosTierConfiguration_QosTier_UNMETERED_OR_DAILY = 2"
| "gdt_cct_QosTierConfiguration_QosTier_value gdt_cct_QosTierConfiguration_QosTier_FAST_IF_RADIO_AWAKE = 3"
| "gdt_cct_QosTierConfiguration_QosTier_value gdt_cct_QosTierConfiguration_QosTier_NEVER = 4"

definition gdt_cct_QosTierConfiguration_QosTier_MIN :: gdt_cct_QosTierConfiguration_QosTier where "gdt_cct_QosTierConfiguration_QosTier_MIN = gdt_cct_QosTierConfiguration_QosTier_DEFAULT"
definition gdt_cct_QosTierConfiguration_QosTier_MAX :: gdt_cct_QosTierConfiguration_QosTier where "gdt_cct_QosTierConfiguration_QosTier_MAX = gdt_cct_QosTierConfiguration_QosTier_NEVER"

section \<open>Structures\<close>

definition gdt_cct_IosClientInfo :: cstruct where
  "gdt_cct_IosClientInfo =
     [(''os_major_version'', CPtr (CStruct pb_bytes_array_t)),
      (''os_full_version'', CPtr (CStruct pb_bytes_array_t)),
      (''application_build'', CPtr (CStruct pb_bytes_array_t)),
      (''country'', CPtr (CStruct pb_bytes_array_t)),
      (''model'', CPtr (CStruct pb_bytes_array_t)),
      (''language_code'', CPtr (CStruct pb_bytes_array_t)),
      (''application_bundle_id'', CPtr (CStruct pb_bytes_array_t))]"

definition gdt_cct_MacClientInfo :: cstruct where
  "gdt_cct_MacClientInfo =
     [(''os_major_version'', CPtr (CStruct pb_bytes_array_t)),
      (''os_full_version'', CPtr (CStruct pb_bytes_array_t)),
      (''application_build'', CPtr (CStruct pb_bytes_array_t)),
      (''application_bundle_id'', CPtr (CStruct pb_bytes_array_t))]"

definition gdt_cct_ClientInfo :: cstruct where
  "gdt_cct_ClientInfo =
     [(''has_client_type'', CInt 1),
      (''client_type'', CInt 4),
      (''has_ios_client_info'', CInt 1),
      (''ios_client_info'', CStruct gdt_cct_IosClientInfo),
      (''has_mac_client_info'', CInt 1),
      (''mac_client_info'', CStruct gdt_cct_MacClientInfo)]"

definition gdt_cct_NetworkConnectionInfo :: cstruct where
  "gdt_cct_NetworkConnectionInfo =
     [(''has_network_type'', CInt 1),
      (''network_type'', CInt 4),
      (''has_mobile_subtype'', CInt 1),
      (''mobile_subtype'', CInt 4)]"

definition gdt_cct_LogEvent :: cstruct where
  "gdt_cct_LogEvent =
     [(''has_event_time_ms'', CInt 1),
      (''event_time_ms'', CInt 8),
      (''source_extension'', CPtr (CStruct pb_bytes_array_t)),
      (''has_event_code'', CInt 1),
      (''event_code'', CInt 4),
      (''has_timezone_offset_seconds'', CInt 1),
      (''timezone_offset_seconds'', CInt 8),
      (''has_event_uptime_ms'', CInt 1),
      (''event_uptime_ms'', CInt 8),
      (''has_network_connection_info'', CInt 1),
      (''network_connection_info'', CStruct gdt_cct_NetworkConnectionInfo)]"

definition gdt_cct_LogRequest :: cstruct where
  "gdt_cct_LogRequest =
     [(''has_client_info'', CInt 1),
      (''client_info'', CStruct gdt_cct_ClientInfo),
      (''has_log_source'', CInt 1),
      (''log_source'', CInt 4),
      (''log_event_count'', CInt 4),
      (''log_event'', CPtr (CStruct gdt_cct_LogEvent)),
      (''has_request_time_ms'', CInt 1),
      (''request_time_ms'', CInt 8),
      (''has_request_uptime_ms'', CInt 1),
      (''request_uptime_ms'', CInt 8),
      (''has_qos_tier'', CInt 1),
      (''qos_tier'', CInt 4)]"

definition gdt_cct_BatchedLogRequest :: cstruct where
  "gdt_cct_BatchedLogRequest =
     [(''log_request_count'', CInt 4),
      (''log_request'', CPtr (CStruct gdt_cct_LogRequest))]"

definition gdt_cct_QosTierConfiguration :: cstruct where
  "gdt_cct_QosTierConfiguration =
     [(''has_qos_tier'', CInt 1),
      (''qos_tier'', CInt 4),
      (''has_log_source'', CInt 1),
      (''log_source'', CInt 4)]"

definition gdt_cct_QosTiersOverride :: cstruct where
  "gdt_cct_QosTiersOverride =
     [(''qos_tier_configuration_count'', CInt 4),
      (''qos_tier_configuration'', CPtr (CStruct gdt_cct_QosTierConfiguration)),
      (''has_qos_tier_fingerprint'', CInt 1),
      (''qos_tier_fingerprint'', CInt 8)]"

definition gdt_cct_LogResponse :: cstruct where
  "gdt_cct_LogResponse =
     [(''has_next_request_wait_millis'', CInt 1),
      (''next_request_wait_millis'', CInt 8),
      (''has_qos_tier'', CInt 1),
      (''qos_tier'', CStruct gdt_cct_QosTiersOverride)]"

section \<open>Field tags and sizes\<close>

definition gdt_cct_BatchedLogRequest_log_request_tag :: u32 where "gdt_cct_BatchedLogRequest_log_request_tag = 1"
definition gdt_cct_IosClientInfo_os_major_version_tag :: u32 where "gdt_cct_IosClientInfo_os_major_version_tag = 3"
definition gdt_cct_IosClientInfo_os_full_version_tag :: u32 where "gdt_cct_IosClientInfo_os_full_version_tag = 4"
definition gdt_cct_IosClientInfo_application_build_tag :: u32 where "gdt_cct_IosClientInfo_application_build_tag = 5"
definition gdt_cct_IosClientInfo_country_tag :: u32 where "gdt_cct_IosClientInfo_country_tag = 6"
definition gdt_cct_IosClientInfo_model_tag :: u32 where "gdt_cct_IosClientInfo_model_tag = 7"
definition gdt_cct_IosClientInfo_language_code_tag :: u32 where "gdt_cct_IosClientInfo_language_code_tag = 8"
definition gdt_cct_IosClientInfo_application_bundle_id_tag :: u32 where "gdt_cct_IosClientInfo_application_bundle_id_tag = 11"
definition gdt_cct_MacClientInfo_os_major_version_tag :: u32 where "gdt_cct_MacClientInfo_os_major_version_tag = 1"
definition gdt_cct_MacClientInfo_os_full_version_tag :: u32 where "gdt_cct_MacClientInfo_os_full_version_tag = 2"
definition gdt_cct_MacClientInfo_application_build_tag :: u32 where "gdt_cct_MacClientInfo_application_build_tag = 3"
definition gdt_cct_MacClientInfo_application_bundle_id_tag :: u32 where "gdt_cct_MacClientInfo_application_bundle_id_tag = 7"
definition gdt_cct_ClientInfo_client_type_tag :: u32 where "gdt_cct_ClientInfo_client_type_tag = 1"
definition gdt_cct_ClientInfo_ios_client_info_tag :: u32 where "gdt_cct_ClientInfo_ios_client_info_tag = 4"
definition gdt_cct_ClientInfo_mac_client_info_tag :: u32 where "gdt_cct_ClientInfo_mac_client_info_tag = 13"
definition gdt_cct_NetworkConnectionInfo_network_type_tag :: u32 where "gdt_cct_NetworkConnectionInfo_network_type_tag = 1"
definition gdt_cct_NetworkConnectionInfo_mobile_subtype_tag :: u32 where "gdt_cct_NetworkConnectionInfo_mobile_subtype_tag = 2"
definition gdt_cct_QosTierConfiguration_qos_tier_tag :: u32 where "gdt_cct_QosTierConfiguration_qos_tier_tag = 2"
definition gdt_cct_QosTierConfiguration_log_source_tag :: u32 where "gdt_cct_QosTierConfiguration_log_source_tag = 3"
definition gdt_cct_QosTiersOverride_qos_tier_configuration_tag :: u32 where "gdt_cct_QosTiersOverride_qos_tier_configuration_tag = 1"
definition gdt_cct_QosTiersOverride_qos_tier_fingerprint_tag :: u32 where "gdt_cct_QosTiersOverride_qos_tier_fingerprint_tag = 2"
definition gdt_cct_LogEvent_event_time_ms_tag :: u32 where "gdt_cct_LogEvent_event_time_ms_tag = 1"
definition gdt_cct_LogEvent_event_code_tag :: u32 where "gdt_cct_LogEvent_event_code_tag = 11"
definition gdt_cct_LogEvent_event_uptime_ms_tag :: u32 where "gdt_cct_LogEvent_event_uptime_ms_tag = 17"
definition gdt_cct_LogEvent_source_extension_tag :: u32 where "gdt_cct_LogEvent_source_extension_tag = 6"
definition gdt_cct_LogEvent_timezone_offset_seconds_tag :: u32 where "gdt_cct_LogEvent_timezone_offset_seconds_tag = 15"
definition gdt_cct_LogEvent_network_connection_info_tag :: u32 where "gdt_cct_LogEvent_network_connection_info_tag = 23"
definition gdt_cct_LogRequest_request_time_ms_tag :: u32 where "gdt_cct_LogRequest_request_time_ms_tag = 4"
definition gdt_cct_LogRequest_request_uptime_ms_tag :: u32 where "gdt_cct_LogRequest_request_uptime_ms_tag = 8"
definition gdt_cct_LogRequest_client_info_tag :: u32 where "gdt_cct_LogRequest_client_info_tag = 1"
definition gdt_cct_LogRequest_log_source_tag :: u32 where "gdt_cct_LogRequest_log_source_tag = 2"
definition gdt_cct_LogRequest_log_event_tag :: u32 where "gdt_cct_LogRequest_log_event_tag = 3"
definition gdt_cct_LogRequest_qos_tier_tag :: u32 where "gdt_cct_LogRequest_qos_tier_tag = 9"
definition gdt_cct_LogResponse_next_request_wait_millis_tag :: u32 where "gdt_cct_LogResponse_next_request_wait_millis_tag = 1"
definition gdt_cct_LogResponse_qos_tier_tag :: u32 where "gdt_cct_LogResponse_qos_tier_tag = 3"
definition gdt_cct_NetworkConnectionInfo_size :: nat where "gdt_cct_NetworkConnectionInfo_size = 13"
definition gdt_cct_QosTierConfiguration_size :: nat where "gdt_cct_QosTierConfiguration_size = 13"

section \<open>Descriptor arrays\<close>

definition gdt_cct_LogEvent_fields_at :: addr where "gdt_cct_LogEvent_fields_at = 0x100000000"
definition gdt_cct_NetworkConnectionInfo_fields_at :: addr where "gdt_cct_NetworkConnectionInfo_fields_at = 0x100000100"
definition gdt_cct_MacClientInfo_fields_at :: addr where "gdt_cct_MacClientInfo_fields_at = 0x100000200"
definition gdt_cct_IosClientInfo_fields_at :: addr where "gdt_cct_IosClientInfo_fields_at = 0x100000300"
definition gdt_cct_ClientInfo_fields_at :: addr where "gdt_cct_ClientInfo_fields_at = 0x100000400"
definition gdt_cct_BatchedLogRequest_fields_at :: addr where "gdt_cct_BatchedLogRequest_fields_at = 0x100000500"
definition gdt_cct_LogRequest_fields_at :: addr where "gdt_cct_LogRequest_fields_at = 0x100000600"
definition gdt_cct_QosTierConfiguration_fields_at :: addr where "gdt_cct_QosTierConfiguration_fields_at = 0x100000700"
definition gdt_cct_QosTiersOverride_fields_at :: addr where "gdt_cct_QosTiersOverride_fields_at = 0x100000800"
definition gdt_cct_LogResponse_fields_at :: addr where "gdt_cct_LogResponse_fields_at = 0x100000900"
definition gdt_cct_NetworkConnectionInfo_network_type_default_at :: addr where "gdt_cct_NetworkConnectionInfo_network_type_default_at = 0x100000a00"
definition gdt_cct_NetworkConnectionInfo_mobile_subtype_default_at :: addr where "gdt_cct_NetworkConnectionInfo_mobile_subtype_default_at = 0x100000a08"
definition gdt_cct_LogRequest_qos_tier_default_at :: addr where "gdt_cct_LogRequest_qos_tier_default_at = 0x100000a10"
definition gdt_cct_QosTierConfiguration_log_source_default_at :: addr where "gdt_cct_QosTierConfiguration_log_source_default_at = 0x100000a18"

definition gdt_cct_NetworkConnectionInfo_network_type_default :: gdt_cct_NetworkConnectionInfo_NetworkType where "gdt_cct_NetworkConnectionInfo_network_type_default = gdt_cct_NetworkConnectionInfo_NetworkType_NONE"
definition gdt_cct_NetworkConnectionInfo_mobile_subtype_default :: gdt_cct_NetworkConnectionInfo_MobileSubtype where "gdt_cct_NetworkConnectionInfo_mobile_subtype_default = gdt_cct_NetworkConnectionInfo_MobileSubtype_UNKNOWN_MOBILE_SUBTYPE"
definition gdt_cct_LogRequest_qos_tier_default :: gdt_cct_QosTierConfiguration_QosTier where "gdt_cct_LogRequest_qos_tier_default = gdt_cct_QosTierConfiguration_QosTier_DEFAULT"
definition gdt_cct_QosTierConfiguration_log_source_default :: int where "gdt_cct_QosTierConfiguration_log_source_default = 0"

definition gdt_cct_LogEvent_fields :: "pb_field list" where
  "gdt_cct_LogEvent_fields =
     [PB_FIELD 1 INT64 OPTIONAL STATIC FIRST gdt_cct_LogEvent ''event_time_ms'' ''event_time_ms'' 0,
      PB_FIELD 6 BYTES OPTIONAL POINTER OTHER gdt_cct_LogEvent ''source_extension'' ''event_time_ms'' 0,
      PB_FIELD 11 INT32 OPTIONAL STATIC OTHER gdt_cct_LogEvent ''event_code'' ''source_extension'' 0,
      PB_FIELD 15 SINT64 OPTIONAL STATIC OTHER gdt_cct_LogEvent ''timezone_offset_seconds'' ''event_code'' 0,
      PB_FIELD 17 INT64 OPTIONAL STATIC OTHER gdt_cct_LogEvent ''event_uptime_ms'' ''timezone_offset_seconds'' 0,
      PB_FIELD 23 MESSAGE OPTIONAL STATIC OTHER gdt_cct_LogEvent ''network_connection_info'' ''event_uptime_ms'' gdt_cct_NetworkConnectionInfo_fields_at]"

definition gdt_cct_NetworkConnectionInfo_fields :: "pb_field list" where
  "gdt_cct_NetworkConnectionInfo_fields =
     [PB_FIELD 1 ENUM OPTIONAL STATIC FIRST gdt_cct_NetworkConnectionInfo ''network_type'' ''network_type'' gdt_cct_NetworkConnectionInfo_network_type_default_at,
      PB_FIELD 2 UENUM OPTIONAL STATIC OTHER gdt_cct_NetworkConnectionInfo ''mobile_subtype'' ''network_type'' gdt_cct_NetworkConnectionInfo_mobile_subtype_default_at]"

definition gdt_cct_MacClientInfo_fields :: "pb_field list" where
  "gdt_cct_MacClientInfo_fields =
     [PB_FIELD 1 BYTES OPTIONAL POINTER FIRST gdt_cct_MacClientInfo ''os_major_version'' ''os_major_version'' 0,
      PB_FIELD 2 BYTES OPTIONAL POINTER OTHER gdt_cct_MacClientInfo ''os_full_version'' ''os_major_version'' 0,
      PB_FIELD 3 BYTES OPTIONAL POINTER OTHER gdt_cct_MacClientInfo ''application_build'' ''os_full_version'' 0,
      PB_FIELD 7 BYTES OPTIONAL POINTER OTHER gdt_cct_MacClientInfo ''application_bundle_id'' ''application_build'' 0]"

definition gdt_cct_IosClientInfo_fields :: "pb_field list" where
  "gdt_cct_IosClientInfo_fields =
     [PB_FIELD 3 BYTES OPTIONAL POINTER FIRST gdt_cct_IosClientInfo ''os_major_version'' ''os_major_version'' 0,
      PB_FIELD 4 BYTES OPTIONAL POINTER OTHER gdt_cct_IosClientInfo ''os_full_version'' ''os_major_version'' 0,
      PB_FIELD 5 BYTES OPTIONAL POINTER OTHER gdt_cct_IosClientInfo ''application_build'' ''os_full_version'' 0,
      PB_FIELD 6 BYTES OPTIONAL POINTER OTHER gdt_cct_IosClientInfo ''country'' ''application_build'' 0,
      PB_FIELD 7 BYTES OPTIONAL POINTER OTHER gdt_cct_IosClientInfo ''model'' ''country'' 0,
      PB_FIELD 8 BYTES OPTIONAL POINTER OTHER gdt_cct_IosClientInfo ''language_code'' ''model'' 0,
      PB_FIELD 11 BYTES OPTIONAL POINTER OTHER gdt_cct_IosClientInfo ''application_bundle_id'' ''language_code'' 0]"

definition gdt_cct_ClientInfo_fields :: "pb_field list" where
  "gdt_cct_ClientInfo_fields =
     [PB_FIELD 1 UENUM OPTIONAL STATIC FIRST gdt_cct_ClientInfo ''client_type'' ''client_type'' 0,
      PB_FIELD 4 MESSAGE OPTIONAL STATIC OTHER gdt_cct_ClientInfo ''ios_client_info'' ''client_type'' gdt_cct_IosClientInfo_fields_at,
      PB_FIELD 13 MESSAGE OPTIONAL STATIC OTHER gdt_cct_ClientInfo ''mac_client_info'' ''ios_client_info'' gdt_cct_MacClientInfo_fields_at]"

definition gdt_cct_BatchedLogRequest_fields :: "pb_field list" where
  "gdt_cct_BatchedLogRequest_fields =
     [PB_FIELD 1 MESSAGE REPEATED POINTER FIRST gdt_cct_BatchedLogRequest ''log_request'' ''log_request'' gdt_cct_LogRequest_fields_at]"

definition gdt_cct_LogRequest_fields :: "pb_field list" where
  "gdt_cct_LogRequest_fields =
     [PB_FIELD 1 MESSAGE OPTIONAL STATIC FIRST gdt_cct_LogRequest ''client_info'' ''client_info'' gdt_cct_ClientInfo_fields_at,
      PB_FIELD 2 INT32 OPTIONAL STATIC OTHER gdt_cct_LogRequest ''log_source'' ''client_info'' 0,
      PB_FIELD 3 MESSAGE REPEATED POINTER OTHER gdt_cct_LogRequest ''log_event'' ''log_source'' gdt_cct_LogEvent_fields_at,
      PB_FIELD 4 INT64 OPTIONAL STATIC OTHER gdt_cct_LogRequest ''request_time_ms'' ''log_event'' 0,
      PB_FIELD 8 INT64 OPTIONAL STATIC OTHER gdt_cct_LogRequest ''request_uptime_ms'' ''request_time_ms'' 0,
      PB_FIELD 9 UENUM OPTIONAL STATIC OTHER gdt_cct_LogRequest ''qos_tier'' ''request_uptime_ms'' gdt_cct_LogRequest_qos_tier_default_at]"

definition gdt_cct_QosTierConfiguration_fields :: "pb_field list" where
  "gdt_cct_QosTierConfiguration_fields =
     [PB_FIELD 2 UENUM OPTIONAL STATIC FIRST gdt_cct_QosTierConfiguration ''qos_tier'' ''qos_tier'' 0,
      PB_FIELD 3 INT32 OPTIONAL STATIC OTHER gdt_cct_QosTierConfiguration ''log_source'' ''qos_tier'' gdt_cct_QosTierConfiguration_log_source_default_at]"

definition gdt_cct_QosTiersOverride_fields :: "pb_field list" where
  "gdt_cct_QosTiersOverride_fields =
     [PB_FIELD 1 MESSAGE REPEATED POINTER FIRST gdt_cct_QosTiersOverride ''qos_tier_configuration'' ''qos_tier_configuration'' gdt_cct_QosTierConfiguration_fields_at,
      PB_FIELD 2 INT64 OPTIONAL STATIC OTHER gdt_cct_QosTiersOverride ''qos_tier_fingerprint'' ''qos_tier_configuration'' 0]"

definition gdt_cct_LogResponse_fields :: "pb_field list" where
  "gdt_cct_LogResponse_fields =
     [PB_FIELD 1 INT64 OPTIONAL STATIC FIRST gdt_cct_LogResponse ''next_request_wait_millis'' ''next_request_wait_millis'' 0,
      PB_FIELD 3 MESSAGE OPTIONAL STATIC OTHER gdt_cct_LogResponse ''qos_tier'' ''next_request_wait_millis'' gdt_cct_QosTiersOverride_fields_at]"

text \<open>The members described, in the order of the entries, and all tables with their structures.\<close>

definition cct_tables :: "(addr \<times> cstruct \<times> pb_field list \<times> string list \<times> u32 list) list" where
  "cct_tables =
     [(gdt_cct_LogEvent_fields_at, gdt_cct_LogEvent, gdt_cct_LogEvent_fields,
        [''event_time_ms'', ''source_extension'', ''event_code'', ''timezone_offset_seconds'', ''event_uptime_ms'', ''network_connection_info''],
        [gdt_cct_LogEvent_event_time_ms_tag, gdt_cct_LogEvent_source_extension_tag, gdt_cct_LogEvent_event_code_tag, gdt_cct_LogEvent_timezone_offset_seconds_tag, gdt_cct_LogEvent_event_uptime_ms_tag, gdt_cct_LogEvent_network_connection_info_tag]),
      (gdt_cct_NetworkConnectionInfo_fields_at, gdt_cct_NetworkConnectionInfo, gdt_cct_NetworkConnectionInfo_fields,
        [''network_type'', ''mobile_subtype''],
        [gdt_cct_NetworkConnectionInfo_network_type_tag, gdt_cct_NetworkConnectionInfo_mobile_subtype_tag]),
      (gdt_cct_MacClientInfo_fields_at, gdt_cct_MacClientInfo, gdt_cct_MacClientInfo_fields,
        [''os_major_version'', ''os_full_version'', ''application_build'', ''application_bundle_id''],
        [gdt_cct_MacClientInfo_os_major_version_tag, gdt_cct_MacClientInfo_os_full_version_tag, gdt_cct_MacClientInfo_application_build_tag, gdt_cct_MacClientInfo_application_bundle_id_tag]),
      (gdt_cct_IosClientInfo_fields_at, gdt_cct_IosClientInfo, gdt_cct_IosClientInfo_fields,
        [''os_major_version'', ''os_full_version'', ''application_build'', ''country'', ''model'', ''language_code'', ''application_bundle_id''],
        [gdt_cct_IosClientInfo_os_major_version_tag, gdt_cct_IosClientInfo_os_full_version_tag, gdt_cct_IosClientInfo_application_build_tag, gdt_cct_IosClientInfo_country_tag, gdt_cct_IosClientInfo_model_tag, gdt_cct_IosClientInfo_language_code_tag, gdt_cct_IosClientInfo_application_bundle_id_tag]),
      (gdt_cct_ClientInfo_fields_at, gdt_cct_ClientInfo, gdt_cct_ClientInfo_fields,
        [''client_type'', ''ios_client_info'', ''mac_client_info''],
        [gdt_cct_ClientInfo_client_type_tag, gdt_cct_ClientInfo_ios_client_info_tag, gdt_cct_ClientInfo_mac_client_info_tag]),
      (gdt_cct_BatchedLogRequest_fields_at, gdt_cct_BatchedLogRequest, gdt_cct_BatchedLogRequest_fields,
        [''log_request''],
        [gdt_cct_BatchedLogRequest_log_request_tag]),
      (gdt_cct_LogRequest_fields_at, gdt_cct_LogRequest, gdt_cct_LogRequest_fields,
        [''client_info'', ''log_source'', ''log_event'', ''request_time_ms'', ''request_uptime_ms'', ''qos_tier''],
        [gdt_cct_LogRequest_client_info_tag, gdt_cct_LogRequest_log_source_tag, gdt_cct_LogRequest_log_event_tag, gdt_cct_LogRequest_request_time_ms_tag, gdt_cct_LogRequest_request_uptime_ms_tag, gdt_cct_LogRequest_qos_tier_tag]),
      (gdt_cct_QosTierConfiguration_fields_at, gdt_cct_QosTierConfiguration, gdt_cct_QosTierConfiguration_fields,
        [''qos_tier'', ''log_source''],
        [gdt_cct_QosTierConfiguration_qos_tier_tag, gdt_cct_QosTierConfiguration_log_source_tag]),
      (gdt_cct_QosTiersOverride_fields_at, gdt_cct_QosTiersOverride, gdt_cct_QosTiersOverride_fields,
        [''qos_tier_configuration'', ''qos_tier_fingerprint''],
        [gdt_cct_QosTiersOverride_qos_tier_configuration_tag, gdt_cct_QosTiersOverride_qos_tier_fingerprint_tag]),
      (gdt_cct_LogResponse_fields_at, gdt_cct_LogResponse, gdt_cct_LogResponse_fields,
        [''next_request_wait_millis'', ''qos_tier''],
        [gdt_cct_LogResponse_next_request_wait_millis_tag, gdt_cct_LogResponse_qos_tier_tag])]"

definition cct_descr :: "addr \<Rightarrow> pb_field list" where
  "cct_descr a = (case map_of cct_tables a of None \<Rightarrow> [] | Some (st, fs, ms, ts) \<Rightarrow> fs)"

section \<open>Evaluated\<close>

text \<open>The entries with the offsets and sizes of the structures worked out.\<close>

lemma gdt_cct_LogEvent_entries [table_entries]:
  "gdt_cct_LogEvent_fields =
     [\<lparr>tag = 1, ftype = 17, data_offset = 8, size_offset = - 8, data_size = 8, array_size = 0, fptr = 0\<rparr>,
      \<lparr>tag = 6, ftype = 150, data_offset = 0, size_offset = 0, data_size = 8, array_size = 0, fptr = 0\<rparr>,
      \<lparr>tag = 11, ftype = 17, data_offset = 4, size_offset = - 4, data_size = 4, array_size = 0, fptr = 0\<rparr>,
      \<lparr>tag = 15, ftype = 19, data_offset = 8, size_offset = - 8, data_size = 8, array_size = 0, fptr = 0\<rparr>,
      \<lparr>tag = 17, ftype = 17, data_offset = 8, size_offset = - 8, data_size = 8, array_size = 0, fptr = 0\<rparr>,
      \<lparr>tag = 23, ftype = 24, data_offset = 4, size_offset = - 4, data_size = 16, array_size = 0, fptr = 0x100000100\<rparr>]"
  by code_simp

lemma gdt_cct_NetworkConnectionInfo_entries [table_entries]:
  "gdt_cct_NetworkConnectionInfo_fields =
     [\<lparr>tag = 1, ftype = 17, data_offset = 4, size_offset = - 4, data_size = 4, array_size = 0, fptr = 0x100000a00\<rparr>,
      \<lparr>tag = 2, ftype = 18, data_offset = 4, size_offset = - 4, data_size = 4, array_size = 0, fptr = 0x100000a08\<rparr>]"
  by code_simp

lemma gdt_cct_MacClientInfo_entries [table_entries]:
  "gdt_cct_MacClientInfo_fields =
     [\<lparr>tag = 1, ftype = 150, data_offset = 0, size_offset = 0, data_size = 8, array_size = 0, fptr = 0\<rparr>,
      \<lparr>tag = 2, ftype = 150, data_offset = 0, size_offset = 0, data_size = 8, array_size = 0, fptr = 0\<rparr>,
      \<lparr>tag = 3, ftype = 150, data_offset = 0, size_offset = 0, data_size = 8, array_size = 0, fptr = 0\<rparr>,
      \<lparr>tag = 7, ftype = 150, data_offset = 0, size_offset = 0, data_size = 8, array_size = 0, fptr = 0\<rparr>]"
  by code_simp

lemma gdt_cct_IosClientInfo_entries [table_entries]:
  "gdt_cct_IosClientInfo_fields =
     [\<lparr>tag = 3, ftype = 150, data_offset = 0, size_offset = 0, data_size = 8, array_size = 0, fptr = 0\<rparr>,
      \<lparr>tag = 4, ftype = 150, data_offset = 0, size_offset = 0, data_size = 8, array_size = 0, fptr = 0\<rparr>,
      \<lparr>tag = 5, ftype = 150, data_offset = 0, size_offset = 0, data_size = 8, array_size = 0, fptr = 0\<rparr>,
      \<lparr>tag = 6, ftype = 150, data_offset = 0, size_offset = 0, data_size = 8, array_size = 0, fptr = 0\<rparr>,
      \<lparr>tag = 7, ftype = 150, data_offset = 0, size_offset = 0, data_size = 8, array_size = 0, fptr = 0\<rparr>,
      \<lparr>tag = 8, ftype = 150, data_offset = 0, size_offset = 0, data_size = 8, array_size = 0, fptr = 0\<rparr>,
      \<lparr>tag = 11, ftype = 150, data_offset = 0, size_offset = 0, data_size = 8, array_size = 0, fptr = 0\<rparr>]"
  by code_simp

lemma gdt_cct_ClientInfo_entries [table_entries]:
  "gdt_cct_ClientInfo_fields =
     [\<lparr>tag = 1, ftype = 18, data_offset = 4, size_offset = - 4, data_size = 4, array_size = 0, fptr = 0\<rparr>,
      \<lparr>tag = 4, ftype = 24, data_offset = 8, size_offset = - 8, data_size = 56, array_size = 0, fptr = 0x100000300\<rparr>,
      \<lparr>tag = 13, ftype = 24, data_offset = 8, size_offset = - 8, data_size = 32, array_size = 0, fptr = 0x100000200\<rparr>]"
  by code_simp

lemma gdt_cct_BatchedLogRequest_entries [table_entries]:
  "gdt_cct_BatchedLogRequest_fields =
     [\<lparr>tag = 1, ftype = 168, data_offset = 8, size_offset = - 8, data_size = 184, array_size = 0, fptr = 0x100000600\<rparr>]"
  by code_simp

lemma gdt_cct_LogRequest_entries [table_entries]:
  "gdt_cct_LogRequest_fields =
     [\<lparr>tag = 1, ftype = 24, data_offset = 8, size_offset = - 8, data_size = 112, array_size = 0, fptr = 0x100000400\<rparr>,
      \<lparr>tag = 2, ftype = 17, data_offset = 4, size_offset = - 4, data_size = 4, array_size = 0, fptr = 0\<rparr>,
      \<lparr>tag = 3, ftype = 168, data_offset = 8, size_offset = - 8, data_size = 88, array_size = 0, fptr = 0x100000000\<rparr>,
      \<lparr>tag = 4, ftype = 17, data_offset = 8, size_offset = - 8, data_size = 8, array_size = 0, fptr = 0\<rparr>,
      \<lparr>tag = 8, ftype = 17, data_offset = 8, size_offset = - 8, data_size = 8, array_size = 0, fptr = 0\<rparr>,
      \<lparr>tag = 9, ftype = 18, data_offset = 4, size_offset = - 4, data_size = 4, array_size = 0, fptr = 0x100000a10\<rparr>]"
  by code_simp

lemma gdt_cct_QosTierConfiguration_entries [table_entries]:
  "gdt_cct_QosTierConfiguration_fields =
     [\<lparr>tag = 2, ftype = 18, data_offset = 4, size_offset = - 4, data_size = 4, array_size = 0, fptr = 0\<rparr>,
      \<lparr>tag = 3, ftype = 17, data_offset = 4, size_offset = - 4, data_size = 4, array_size = 0, fptr = 0x100000a18\<rparr>]"
  by code_simp

lemma gdt_cct_QosTiersOverride_entries [table_entries]:
  "gdt_cct_QosTiersOverride_fields =
     [\<lparr>tag = 1, ftype = 168, data_offset = 8, size_offset = - 8, data_size = 16, array_size = 0, fptr = 0x100000700\<rparr>,
      \<lparr>tag = 2, ftype = 17, data_offset = 8, size_offset = - 8, data_size = 8, array_size = 0, fptr = 0\<rparr>]"
  by code_simp

lemma gdt_cct_LogResponse_entries [table_entries]:
  "gdt_cct_LogResponse_fields =
     [\<lparr>tag = 1, ftype = 17, data_offset = 8, size_offset = - 8, data_size = 8, array_size = 0, fptr = 0\<rparr>,
      \<lparr>tag = 3, ftype = 24, data_offset = 8, size_offset = - 8, data_size = 32, array_size = 0, fptr = 0x100000800\<rparr>]"
  by code_simp

lemma cct_lookup [table_entries]:
  "cct_descr 0x100000000 = gdt_cct_LogEvent_fields"
  "cct_descr 0x100000100 = gdt_cct_NetworkConnectionInfo_fields"
  "cct_descr 0x100000200 = gdt_cct_MacClientInfo_fields"
  "cct_descr 0x100000300 = gdt_cct_IosClientInfo_fields"
  "cct_descr 0x100000400 = gdt_cct_ClientInfo_fields"
  "cct_descr 0x100000500 = gdt_cct_BatchedLogRequest_fields"
  "cct_descr 0x100000600 = gdt_cct_LogRequest_fields"
  "cct_descr 0x100000700 = gdt_cct_QosTierConfiguration_fields"
  "cct_descr 0x100000800 = gdt_cct_QosTiersOverride_fields"
  "cct_descr 0x100000900 = gdt_cct_LogResponse_fields"
  by (simp_all add: cct_descr_def cct_tables_def
      gdt_cct_LogEvent_fields_at_def
      gdt_cct_NetworkConnectionInfo_fields_at_def
      gdt_cct_MacClientInfo_fields_at_def
      gdt_cct_IosClientInfo_fields_at_def
      gdt_cct_ClientInfo_fields_at_def
      gdt_cct_BatchedLogRequest_fields_at_def
      gdt_cct_LogRequest_fields_at_def
      gdt_cct_QosTierConfiguration_fields_at_def
      gdt_cct_QosTiersOverride_fields_at_def
      gdt_cct_LogResponse_fields_at_def)

end
