(* ===== verification/Client_Metrics_Messages.thy ===== *)
theory Client_Metrics_Messages
  imports Pb_Fields
begin

text \<open>
  The tables that nanopb generated for the transport metrics of GoogleDataTransport
  (\<open>client_metrics.nanopb.h\<close>, \<open>client_metrics.nanopb.c\<close>): enumerations, structures, field tags and descriptor arrays.  The addresses of
  the arrays are the linker's choice; any distinct non-null ones would do.
\<close>

section \<open>Enumerations\<close>

datatype gdt_client_metrics_LogEventDropped_Reason =
    gdt_client_metrics_LogEventDropped_Reason_REASON_UNKNOWN
  | gdt_client_metrics_LogEventDropped_Reason_MESSAGE_TOO_OLD
  | gdt_client_metrics_LogEventDropped_Reason_CACHE_FULL
  | gdt_client_metrics_LogEventDropped_Reason_PAYLOAD_TOO_BIG
  | gdt_client_metrics_LogEventDropped_Reason_MAX_RETRIES_REACHED
  | gdt_client_metrics_LogEventDropped_Reason_INVALID_PAYLOD
  | gdt_client_metrics_LogEventDropped_Reason_SERVER_ERROR

primrec gdt_client_metrics_LogEventDropped_Reason_value :: "gdt_client_metrics_LogEventDropped_Reason \<Rightarrow> int" where
  "gdt_client_metrics_LogEventDropped_Reason_value gdt_client_metrics_LogEventDropped_Reason_REASON_UNKNOWN = 0"
| "gdt_client_metrics_LogEventDropped_Reason_value gdt_client_metrics_LogEventDropped_Reason_MESSAGE_TOO_OLD = 1"
| "gdt_client_metrics_LogEventDropped_Reason_value gdt_client_metrics_LogEventDropped_Reason_CACHE_FULL = 2"
| "gdt_client_metrics_LogEventDropped_Reason_value gdt_client_metrics_LogEventDropped_Reason_PAYLOAD_TOO_BIG = 3"
| "gdt_client_metrics_LogEventDropped_Reason_value gdt_client_metrics_LogEventDropped_Reason_MAX_RETRIES_REACHED = 4"
| "gdt_client_metrics_LogEventDropped_Reason_value gdt_client_metrics_LogEventDropped_Reason_INVALID_PAYLOD = 5"
| "gdt_client_metrics_LogEventDropped_Reason_value gdt_client_metrics_LogEventDropped_Reason_SERVER_ERROR = 6"

definition gdt_client_metrics_LogEventDropped_Reason_MIN :: gdt_client_metrics_LogEventDropped_Reason where "gdt_client_metrics_LogEventDropped_Reason_MIN = gdt_client_metrics_LogEventDropped_Reason_REASON_UNKNOWN"
definition gdt_client_metrics_LogEventDropped_Reason_MAX :: gdt_client_metrics_LogEventDropped_Reason where "gdt_client_metrics_LogEventDropped_Reason_MAX = gdt_client_metrics_LogEventDropped_Reason_SERVER_ERROR"

section \<open>Structures\<close>

definition gdt_client_metrics_LogEventDropped :: cstruct where
  "gdt_client_metrics_LogEventDropped =
     [(''events_dropped_count'', CInt 8),
      (''reason'', CInt 4)]"

definition gdt_client_metrics_LogSourceMetrics :: cstruct where
  "gdt_client_metrics_LogSourceMetrics =
     [(''log_source'', CPtr (CStruct pb_bytes_array_t)),
      (''log_event_dropped_count'', CInt 4),
      (''log_event_dropped'', CPtr (CStruct gdt_client_metrics_LogEventDropped))]"

definition gdt_client_metrics_StorageMetrics :: cstruct where
  "gdt_client_metrics_StorageMetrics =
     [(''current_cache_size_bytes'', CInt 8),
      (''max_cache_size_bytes'', CInt 8)]"

definition gdt_client_metrics_TimeWindow :: cstruct where
  "gdt_client_metrics_TimeWindow =
     [(''start_ms'', CInt 8),
      (''end_ms'', CInt 8)]"

definition gdt_client_metrics_GlobalMetrics :: cstruct where
  "gdt_client_metrics_GlobalMetrics =
     [(''storage_metrics'', CStruct gdt_client_metrics_StorageMetrics)]"

definition gdt_client_metrics_ClientMetrics :: cstruct where
  "gdt_client_metrics_ClientMetrics =
     [(''window'', CStruct gdt_client_metrics_TimeWindow),
      (''log_source_metrics_count'', CInt 4),
      (''log_source_metrics'', CPtr (CStruct gdt_client_metrics_LogSourceMetrics)),
      (''global_metrics'', CStruct gdt_client_metrics_GlobalMetrics),
      (''app_namespace'', CPtr (CStruct pb_bytes_array_t))]"

section \<open>Field tags and sizes\<close>

definition gdt_client_metrics_LogSourceMetrics_log_source_tag :: u32 where "gdt_client_metrics_LogSourceMetrics_log_source_tag = 1"
definition gdt_client_metrics_LogSourceMetrics_log_event_dropped_tag :: u32 where "gdt_client_metrics_LogSourceMetrics_log_event_dropped_tag = 2"
definition gdt_client_metrics_LogEventDropped_events_dropped_count_tag :: u32 where "gdt_client_metrics_LogEventDropped_events_dropped_count_tag = 1"
definition gdt_client_metrics_LogEventDropped_reason_tag :: u32 where "gdt_client_metrics_LogEventDropped_reason_tag = 3"
definition gdt_client_metrics_StorageMetrics_current_cache_size_bytes_tag :: u32 where "gdt_client_metrics_StorageMetrics_current_cache_size_bytes_tag = 1"
definition gdt_client_metrics_StorageMetrics_max_cache_size_bytes_tag :: u32 where "gdt_client_metrics_StorageMetrics_max_cache_size_bytes_tag = 2"
definition gdt_client_metrics_TimeWindow_start_ms_tag :: u32 where "gdt_client_metrics_TimeWindow_start_ms_tag = 1"
definition gdt_client_metrics_TimeWindow_end_ms_tag :: u32 where "gdt_client_metrics_TimeWindow_end_ms_tag = 2"
definition gdt_client_metrics_GlobalMetrics_storage_metrics_tag :: u32 where "gdt_client_metrics_GlobalMetrics_storage_metrics_tag = 1"
definition gdt_client_metrics_ClientMetrics_window_tag :: u32 where "gdt_client_metrics_ClientMetrics_window_tag = 1"
definition gdt_client_metrics_ClientMetrics_log_source_metrics_tag :: u32 where "gdt_client_metrics_ClientMetrics_log_source_metrics_tag = 2"
definition gdt_client_metrics_ClientMetrics_global_metrics_tag :: u32 where "gdt_client_metrics_ClientMetrics_global_metrics_tag = 3"
definition gdt_client_metrics_ClientMetrics_app_namespace_tag :: u32 where "gdt_client_metrics_ClientMetrics_app_namespace_tag = 4"
definition gdt_client_metrics_TimeWindow_size :: nat where "gdt_client_metrics_TimeWindow_size = 22"
definition gdt_client_metrics_GlobalMetrics_size :: nat where "gdt_client_metrics_GlobalMetrics_size = 24"
definition gdt_client_metrics_StorageMetrics_size :: nat where "gdt_client_metrics_StorageMetrics_size = 22"
definition gdt_client_metrics_LogEventDropped_size :: nat where "gdt_client_metrics_LogEventDropped_size = 13"

section \<open>Descriptor arrays\<close>

definition gdt_client_metrics_ClientMetrics_fields_at :: addr where "gdt_client_metrics_ClientMetrics_fields_at = 0x100100000"
definition gdt_client_metrics_TimeWindow_fields_at :: addr where "gdt_client_metrics_TimeWindow_fields_at = 0x100100100"
definition gdt_client_metrics_GlobalMetrics_fields_at :: addr where "gdt_client_metrics_GlobalMetrics_fields_at = 0x100100200"
definition gdt_client_metrics_StorageMetrics_fields_at :: addr where "gdt_client_metrics_StorageMetrics_fields_at = 0x100100300"
definition gdt_client_metrics_LogSourceMetrics_fields_at :: addr where "gdt_client_metrics_LogSourceMetrics_fields_at = 0x100100400"
definition gdt_client_metrics_LogEventDropped_fields_at :: addr where "gdt_client_metrics_LogEventDropped_fields_at = 0x100100500"


definition gdt_client_metrics_ClientMetrics_fields :: "pb_field list" where
  "gdt_client_metrics_ClientMetrics_fields =
     [PB_FIELD 1 MESSAGE SINGULAR STATIC FIRST gdt_client_metrics_ClientMetrics ''window'' ''window'' gdt_client_metrics_TimeWindow_fields_at,
      PB_FIELD 2 MESSAGE REPEATED POINTER OTHER gdt_client_metrics_ClientMetrics ''log_source_metrics'' ''window'' gdt_client_metrics_LogSourceMetrics_fields_at,
      PB_FIELD 3 MESSAGE SINGULAR STATIC OTHER gdt_client_metrics_ClientMetrics ''global_metrics'' ''log_source_metrics'' gdt_client_metrics_GlobalMetrics_fields_at,
      PB_FIELD 4 BYTES SINGULAR POINTER OTHER gdt_client_metrics_ClientMetrics ''app_namespace'' ''global_metrics'' 0]"

definition gdt_client_metrics_TimeWindow_fields :: "pb_field list" where
  "gdt_client_metrics_TimeWindow_fields =
     [PB_FIELD 1 INT64 SINGULAR STATIC FIRST gdt_client_metrics_TimeWindow ''start_ms'' ''start_ms'' 0,
      PB_FIELD 2 INT64 SINGULAR STATIC OTHER gdt_client_metrics_TimeWindow ''end_ms'' ''start_ms'' 0]"

definition gdt_client_metrics_GlobalMetrics_fields :: "pb_field list" where
  "gdt_client_metrics_GlobalMetrics_fields =
     [PB_FIELD 1 MESSAGE SINGULAR STATIC FIRST gdt_client_metrics_GlobalMetrics ''storage_metrics'' ''storage_metrics'' gdt_client_metrics_StorageMetrics_fields_at]"

definition gdt_client_metrics_StorageMetrics_fields :: "pb_field list" where
  "gdt_client_metrics_StorageMetrics_fields =
     [PB_FIELD 1 INT64 SINGULAR STATIC FIRST gdt_client_metrics_StorageMetrics ''current_cache_size_bytes'' ''current_cache_size_bytes'' 0,
      PB_FIELD 2 INT64 SINGULAR STATIC OTHER gdt_client_metrics_StorageMetrics ''max_cache_size_bytes'' ''current_cache_size_bytes'' 0]"

definition gdt_client_metrics_LogSourceMetrics_fields :: "pb_field list" where
  "gdt_client_metrics_LogSourceMetrics_fields =
     [PB_FIELD 1 BYTES SINGULAR POINTER FIRST gdt_client_metrics_LogSourceMetrics ''log_source'' ''log_source'' 0,
      PB_FIELD 2 MESSAGE REPEATED POINTER OTHER gdt_client_metrics_LogSourceMetrics ''log_event_dropped'' ''log_source'' gdt_client_metrics_LogEventDropped_fields_at]"

definition gdt_client_metrics_LogEventDropped_fields :: "pb_field list" where
  "gdt_client_metrics_LogEventDropped_fields =
     [PB_FIELD 1 INT64 SINGULAR STATIC FIRST gdt_client_metrics_LogEventDropped ''events_dropped_count'' ''events_dropped_count'' 0,
      PB_FIELD 3 UENUM SINGULAR STATIC OTHER gdt_client_metrics_LogEventDropped ''reason'' ''events_dropped_count'' 0]"

text \<open>The members described, in the order of the entries, and all tables with their structures.\<close>

definition client_metrics_tables :: "(addr \<times> cstruct \<times> pb_field list \<times> string list \<times> u32 list) list" where
  "client_metrics_tables =
     [(gdt_client_metrics_ClientMetrics_fields_at, gdt_client_metrics_ClientMetrics, gdt_client_metrics_ClientMetrics_fields,
        [''window'', ''log_source_metrics'', ''global_metrics'', ''app_namespace''],
        [gdt_client_metrics_ClientMetrics_window_tag, gdt_client_metrics_ClientMetrics_log_source_metrics_tag, gdt_client_metrics_ClientMetrics_global_metrics_tag, gdt_client_metrics_ClientMetrics_app_namespace_tag]),
      (gdt_client_metrics_TimeWindow_fields_at, gdt_client_metrics_TimeWindow, gdt_client_metrics_TimeWindow_fields,
        [''start_ms'', ''end_ms''],
        [gdt_client_metrics_TimeWindow_start_ms_tag, gdt_client_metrics_TimeWindow_end_ms_tag]),
      (gdt_client_metrics_GlobalMetrics_fields_at, gdt_client_metrics_GlobalMetrics, gdt_client_metrics_GlobalMetrics_fields,
        [''storage_metrics''],
        [gdt_client_metrics_GlobalMetrics_storage_metrics_tag]),
      (gdt_client_metrics_StorageMetrics_fields_at, gdt_client_metrics_StorageMetrics, gdt_client_metrics_StorageMetrics_fields,
        [''current_cache_size_bytes'', ''max_cache_size_bytes''],
        [gdt_client_metrics_StorageMetrics_current_cache_size_bytes_tag, gdt_client_metrics_StorageMetrics_max_cache_size_bytes_tag]),
      (gdt_client_metrics_LogSourceMetrics_fields_at, gdt_client_metrics_LogSourceMetrics, gdt_client_metrics_LogSourceMetrics_fields,
        [''log_source'', ''log_event_dropped''],
        [gdt_client_metrics_LogSourceMetrics_log_source_tag, gdt_client_metrics_LogSourceMetrics_log_event_dropped_tag]),
      (gdt_client_metrics_LogEventDropped_fields_at, gdt_client_metrics_LogEventDropped, gdt_client_metrics_LogEventDropped_fields,
        [''events_dropped_count'', ''reason''],
        [gdt_client_metrics_LogEventDropped_events_dropped_count_tag, gdt_client_metrics_LogEventDropped_reason_tag])]"

definition client_metrics_descr :: "addr \<Rightarrow> pb_field list" where
  "client_metrics_descr a = (case map_of client_metrics_tables a of None \<Rightarrow> [] | Some (st, fs, ms, ts) \<Rightarrow> fs)"

section \<open>Evaluated\<close>

text \<open>The entries with the offsets and sizes of the structures worked out.\<close>

lemma gdt_client_metrics_ClientMetrics_entries [table_entries]:
  "gdt_client_metrics_ClientMetrics_fields =
     [\<lparr>tag = 1, ftype = 24, data_offset = 0, size_offset = 0, data_size = 16, array_size = 0, fptr = 0x100100100\<rparr>,
      \<lparr>tag = 2, ftype = 168, data_offset = 8, size_offset = - 8, data_size = 24, array_size = 0, fptr = 0x100100400\<rparr>,
      \<lparr>tag = 3, ftype = 24, data_offset = 0, size_offset = 0, data_size = 16, array_size = 0, fptr = 0x100100200\<rparr>,
      \<lparr>tag = 4, ftype = 150, data_offset = 0, size_offset = 0, data_size = 8, array_size = 0, fptr = 0\<rparr>]"
  by code_simp

lemma gdt_client_metrics_TimeWindow_entries [table_entries]:
  "gdt_client_metrics_TimeWindow_fields =
     [\<lparr>tag = 1, ftype = 17, data_offset = 0, size_offset = 0, data_size = 8, array_size = 0, fptr = 0\<rparr>,
      \<lparr>tag = 2, ftype = 17, data_offset = 0, size_offset = 0, data_size = 8, array_size = 0, fptr = 0\<rparr>]"
  by code_simp

lemma gdt_client_metrics_GlobalMetrics_entries [table_entries]:
  "gdt_client_metrics_GlobalMetrics_fields =
     [\<lparr>tag = 1, ftype = 24, data_offset = 0, size_offset = 0, data_size = 16, array_size = 0, fptr = 0x100100300\<rparr>]"
  by code_simp

lemma gdt_client_metrics_StorageMetrics_entries [table_entries]:
  "gdt_client_metrics_StorageMetrics_fields =
     [\<lparr>tag = 1, ftype = 17, data_offset = 0, size_offset = 0, data_size = 8, array_size = 0, fptr = 0\<rparr>,
      \<lparr>tag = 2, ftype = 17, data_offset = 0, size_offset = 0, data_size = 8, array_size = 0, fptr = 0\<rparr>]"
  by code_simp

lemma gdt_client_metrics_LogSourceMetrics_entries [table_entries]:
  "gdt_client_metrics_LogSourceMetrics_fields =
     [\<lparr>tag = 1, ftype = 150, data_offset = 0, size_offset = 0, data_size = 8, array_size = 0, fptr = 0\<rparr>,
      \<lparr>tag = 2, ftype = 168, data_offset = 8, size_offset = - 8, data_size = 16, array_size = 0, fptr = 0x100100500\<rparr>]"
  by code_simp

lemma gdt_client_metrics_LogEventDropped_entries [table_entries]:
  "gdt_client_metrics_LogEventDropped_fields =
     [\<lparr>tag = 1, ftype = 17, data_offset = 0, size_offset = 0, data_size = 8, array_size = 0, fptr = 0\<rparr>,
      \<lparr>tag = 3, ftype = 18, data_offset = 0, size_offset = 0, data_size = 4, array_size = 0, fptr = 0\<rparr>]"
  by code_simp

lemma client_metrics_lookup [table_entries]:
  "client_metrics_descr 0x100100000 = gdt_client_metrics_ClientMetrics_fields"
  "client_metrics_descr 0x100100100 = gdt_client_metrics_TimeWindow_fields"
  "client_metrics_descr 0x100100200 = gdt_client_metrics_GlobalMetrics_fields"
  "client_metrics_descr 0x100100300 = gdt_client_metrics_StorageMetrics_fields"
  "client_metrics_descr 0x100100400 = gdt_client_metrics_LogSourceMetrics_fields"
  "client_metrics_descr 0x100100500 = gdt_client_metrics_LogEventDropped_fields"
  by (simp_all add: client_metrics_descr_def client_metrics_tables_def
      gdt_client_metrics_ClientMetrics_fields_at_def
      gdt_client_metrics_TimeWindow_fields_at_def
      gdt_client_metrics_GlobalMetrics_fields_at_def
      gdt_client_metrics_StorageMetrics_fields_at_def
      gdt_client_metrics_LogSourceMetrics_fields_at_def
      gdt_client_metrics_LogEventDropped_fields_at_def)

end
