(* ===== verification/Pb_Tables.thy ===== *)
theory Pb_Tables
  imports Cct_Messages Client_Metrics_Messages Firebase_Core_Messages
begin

lemma cct_ok: "list_all (\<lambda>(a, st, fs, ms, ts). describes st fs ms \<and> map tag fs = ts) cct_tables"
  by code_simp

lemma metrics_ok: "list_all (\<lambda>(a, st, fs, ms, ts). describes st fs ms \<and> map tag fs = ts) client_metrics_tables"
  by code_simp

lemma core_ok: "list_all (\<lambda>(a, st, fs, ms, ts). describes st fs ms \<and> map tag fs = ts) firebase_core_tables"
  by code_simp

end
