(* ===== verification/Pb_Encode_Safe.thy ===== *)
theory Pb_Encode_Safe
  imports Pb_Encode_Total Pb_Tables
begin

text \<open>
  Schemas whose messages cannot fail to encode, whatever the structure in memory holds: no bound on an array or a
  bytes field can be exceeded, and no required pointer can be missing.  The tables of the three protocols are
  such schemas.
\<close>

section \<open>Schemas that cannot fail\<close>

definition integer_sizes :: "pb_size_t list" where "integer_sizes = [1, 2, 4, 8]"

definition safe_field :: "pb_field \<Rightarrow> bool" where
  "safe_field f \<longleftrightarrow> plain_field f \<and>
     (PB_LTYPE (ftype f) \<in> {PB_LTYPE_VARINT, PB_LTYPE_UVARINT, PB_LTYPE_SVARINT} \<longrightarrow> data_size f \<in> set integer_sizes) \<and>
     (PB_LTYPE (ftype f) = PB_LTYPE_BYTES \<longrightarrow> PB_ATYPE (ftype f) = PB_ATYPE_POINTER) \<and>
     (PB_ATYPE (ftype f) = PB_ATYPE_STATIC \<or> PB_ATYPE (ftype f) = PB_ATYPE_POINTER) \<and>
     PB_HTYPE (ftype f) \<noteq> PB_HTYPE_REQUIRED \<and>
     (PB_HTYPE (ftype f) = PB_HTYPE_REPEATED \<longrightarrow> PB_ATYPE (ftype f) = PB_ATYPE_POINTER)"

definition submessages_in :: "(pb_field list \<Rightarrow> bool) \<Rightarrow> (addr \<Rightarrow> pb_field list) \<Rightarrow> pb_field \<Rightarrow> bool" where
  "submessages_in P d f \<longleftrightarrow> (PB_LTYPE (ftype f) = PB_LTYPE_SUBMESSAGE \<longrightarrow> fptr f \<noteq> 0 \<and> P (d (fptr f)))"

primrec safe_schema :: "nat \<Rightarrow> (addr \<Rightarrow> pb_field list) \<Rightarrow> pb_field list \<Rightarrow> bool" where
  "safe_schema 0 d fs = False"
| "safe_schema (Suc n) d fs = list_all (\<lambda>f. safe_field f \<and> submessages_in (safe_schema n d) d f) fs"

lemma safe_nested: "safe_schema n d fs \<Longrightarrow> nested n d fs"
  by (induction n arbitrary: fs) (auto simp: list_all_iff safe_field_def submessages_in_def)

definition succeeds :: "enc_bytes \<Rightarrow> bool" where
  "succeeds r \<longleftrightarrow> (\<exists>out. r = Some (True, out))"

lemma succeeds_emit [simp]: "succeeds (emit b)" by (simp add: succeeds_def emit_def)

lemma succeeds_then: "succeeds r \<Longrightarrow> succeeds q \<Longrightarrow> succeeds (then_bytes r q)"
  by (auto simp: succeeds_def)

lemma succeeds_delimit: "succeeds r \<Longrightarrow> succeeds (delimit r)"
  by (auto simp: succeeds_def delimit_def emit_def)

lemma succeeds_if: "(b \<Longrightarrow> succeeds r) \<Longrightarrow> (\<not> b \<Longrightarrow> succeeds q) \<Longrightarrow> succeeds (if b then r else q)"
  by simp

lemmas succeeds_intros = succeeds_emit succeeds_then succeeds_delimit succeeds_if

lemma succeeds_items: "(\<And>p. succeeds (item p)) \<Longrightarrow> succeeds (items_bytes item f k p)"
  by (induction k arbitrary: p) (simp_all add: succeeds_then)

lemma succeeds_sequence: "(\<And>r. r \<in> set rs \<Longrightarrow> succeeds r) \<Longrightarrow> succeeds (sequence_bytes rs)"
  by (induction rs) (simp_all add: succeeds_then)

lemma succeeds_varint: "v \<noteq> None \<Longrightarrow> succeeds (varint_bytes v)"
  by (auto simp: varint_bytes_def)

lemma loads_succeed:
  "data_size f \<in> set integer_sizes \<Longrightarrow> load_signed m src (data_size f) \<noteq> None"
  "data_size f \<in> set integer_sizes \<Longrightarrow> load_unsigned m src (data_size f) \<noteq> None"
  by (auto simp: integer_sizes_def load_signed_def load_unsigned_def)

lemma value_succeeds:
  assumes "safe_field f" and "submessages_in P (rdescr env) f" and "\<And>fs src. P fs \<Longrightarrow> succeeds (rec fs src m)"
  shows "succeeds (value_bytes env rec f src m)"
proof -
  have lt: "PB_LTYPE (ftype f) \<in> {PB_LTYPE_BOOL, PB_LTYPE_VARINT, PB_LTYPE_UVARINT, PB_LTYPE_SVARINT, PB_LTYPE_FIXED32,
       PB_LTYPE_FIXED64, PB_LTYPE_BYTES, PB_LTYPE_STRING, PB_LTYPE_SUBMESSAGE, PB_LTYPE_FIXED_LENGTH_BYTES}"
    using assms(1) by (simp add: safe_field_def plain_field_def)
  have static: "PB_LTYPE (ftype f) = PB_LTYPE_BYTES \<Longrightarrow> PB_ATYPE (ftype f) \<noteq> PB_ATYPE_STATIC"
    using assms(1) by (auto simp: safe_field_def pb_consts)
  show ?thesis
    unfolding value_bytes_def Let_def
    by (intro succeeds_intros succeeds_varint)
      (use assms lt static loads_succeed in \<open>auto simp: safe_field_def submessages_in_def\<close>)
qed

lemma tag_succeeds: "plain_field f \<Longrightarrow> succeeds (tag_bytes f)"
  by (auto simp: plain_field_def tag_bytes_def wire_type_of_ltype_def split: option.split)

lemma entry_succeeds:
  assumes f: "safe_field f" and sub: "submessages_in (safe_schema n (rdescr env)) (rdescr env) f"
    and rec: "\<And>fs src. safe_schema n (rdescr env) fs \<Longrightarrow> succeeds (rec fs src m)"
  shows "succeeds (entry_bytes env (Suc n) rec f data m)"
proof -
  have val: "succeeds (value_bytes env rec f src m)" for src
    using f sub rec by (rule value_succeeds)
  have tag: "succeeds (tag_bytes f)" using f by (simp add: safe_field_def tag_succeeds)
  have arr: "succeeds (array_bytes env rec f src count m)" if "PB_HTYPE (ftype f) = PB_HTYPE_REPEATED" for src count
    unfolding array_bytes_def
    by (intro succeeds_intros succeeds_items val tag) (use that f in \<open>auto simp: safe_field_def\<close>)
  have "field_nested n (rdescr env) f"
    using f sub safe_nested by (auto simp: field_nested_def safe_field_def submessages_in_def)
  then have "returns (pb_check_proto3_default_value (Suc n) (rdescr env) m f data)" by (rule check_returns)
  then have "has_value env (Suc n) f data m \<noteq> None"
    by (auto simp: has_value_def returns_def simp del: pb_check_proto3_default_value.simps)
  then obtain has where has: "has_value env (Suc n) f data m = Some has" by blast
  have "succeeds (basic_bytes env (Suc n) rec f data m)"
    unfolding basic_bytes_def has Let_def option.case
    by (intro succeeds_intros tag val arr)
      (use f PB_HTYPE_cases [of "ftype f"] in \<open>auto simp: safe_field_def plain_field_def\<close>)
  then show ?thesis
    using f by (simp add: entry_bytes_def field_bytes_def safe_field_def plain_field_def)
qed

theorem safe_schema_succeeds:
  "safe_schema n (rdescr env) fs \<Longrightarrow> succeeds (message_bytes (Suc n) env fs src m)"
proof (induction n arbitrary: fs src)
  case (Suc n)
  then have "succeeds (entry_bytes env (Suc n) (message_bytes (Suc n) env) (fs ! i) data m)" if "i < length fs" for i data
    using that by (intro entry_succeeds) (auto simp: list_all_iff)
  then show ?case
    unfolding message_bytes.simps(2) [of "Suc n"] by (intro succeeds_sequence) auto
qed simp

section \<open>The tables of the program\<close>

text \<open>An environment without callbacks; none of the tables has a field that would call one.\<close>

definition plain_env :: "(addr \<Rightarrow> pb_field list) \<Rightarrow> 't enc_env" where
  "plain_env d = \<lparr>descr = d, enc_cb = (\<lambda>a s f arg m. None), ext_enc = (\<lambda>a s e m. None)\<rparr>"

definition plain_ref :: "(addr \<Rightarrow> pb_field list) \<Rightarrow> ref_env" where
  "plain_ref d = \<lparr>rdescr = d, cb_bytes = (\<lambda>a f arg m. None), ext_bytes = (\<lambda>a e m. None)\<rparr>"

lemma plain_simps [simp]: "descr (plain_env d) = d" "rdescr (plain_ref d) = d"
  by (simp_all add: plain_env_def plain_ref_def)

lemma tables_wf:
  assumes "list_all (\<lambda>(a, st, fs, ms, ts). describes st fs ms \<and> Q fs ts) tabs"
  shows "wf_fields (case map_of tabs a of None \<Rightarrow> [] | Some (st, fs, ms, ts) \<Rightarrow> fs)"
proof (cases "map_of tabs a")
  case (Some e)
  obtain st fs ms ts where e: "e = (st, fs, ms, ts)" by (cases e) auto
  have "(a, st, fs, ms, ts) \<in> set tabs" using map_of_SomeD [OF Some] e by simp
  then have "describes st fs ms" using assms by (auto simp: list_all_iff)
  then show ?thesis using Some e by (simp add: describes_wf)
qed (simp add: wf_fields_def)

interpretation cct: encoder "plain_env cct_descr" "plain_ref cct_descr"
  by unfold_locales (simp_all add: plain_env_def plain_ref_def cct_descr_def tables_wf [OF cct_ok])

interpretation metrics: encoder "plain_env client_metrics_descr" "plain_ref client_metrics_descr"
  by unfold_locales (simp_all add: plain_env_def plain_ref_def client_metrics_descr_def tables_wf [OF metrics_ok])

interpretation core: encoder "plain_env firebase_core_descr" "plain_ref firebase_core_descr"
  by unfold_locales (simp_all add: plain_env_def plain_ref_def firebase_core_descr_def tables_wf [OF core_ok])

text \<open>The checks, over the evaluated entries.\<close>

lemmas schema_checks = safe_field_def plain_field_def submessages_in_def integer_sizes_def
  PB_LTYPE_def PB_HTYPE_def PB_ATYPE_def pb_consts

lemma cct_safe: "safe_schema (Suc (Suc (Suc (Suc 0)))) cct_descr gdt_cct_BatchedLogRequest_fields"
  by (simp add: table_entries schema_checks)

lemma metrics_safe: "safe_schema (Suc (Suc (Suc 0))) client_metrics_descr gdt_client_metrics_ClientMetrics_fields"
  by (simp add: table_entries schema_checks)

lemma core_safe: "safe_schema (Suc 0) firebase_core_descr logs_proto_mobilesdk_ios_ICoreConfiguration_fields"
  by (simp add: table_entries schema_checks)

end
