(* ===== verification/Pb_Encode_Props.thy ===== *)
theory Pb_Encode_Props
  imports Pb_Encode_Safe
begin

text \<open>
  What the contract says of whole messages: the sizing pass and the writing pass agree with the reference encoder,
  a buffer that is too small is not overrun, and the callers in GoogleDataTransport and FirebaseCoreDiagnostics,
  which encode twice, hand on exactly the encoding.
\<close>

context encoder begin

lemma buffer_pass:
  assumes "wf_fields fs" and "message_bytes n ref fs src m = Some (True, out)"
    and "length out < 2 ^ 63" and "unat cap < 2 ^ 63"
  shows "if length out \<le> unat cap then pb_encode n env (pb_ostream_from_buffer cap) fs src m = Some (True, written cap out)
    else \<exists>s' p. pb_encode n env (pb_ostream_from_buffer cap) fs src m = Some (False, s') \<and>
         osink s' = BufWrite p \<and> prefix p out \<and> length p \<le> unat cap"
proof -
  let ?s = "pb_ostream_from_buffer cap :: 't pb_ostream"
  have "ready ?s" using assms(4) by (simp add: ready_def wf_obuf_def is_buf_write_def pb_ostream_from_buffer_def)
  moreover have "has_room ?s k \<longleftrightarrow> k \<le> unat cap" for k by (simp add: has_room_def pb_ostream_from_buffer_def)
  moreover have "obuf ?s p = written cap p" for p by (simp add: obuf_def written_def pb_ostream_from_buffer_def)
  moreover have "stores (\<lambda>s. pb_encode n env s fs src m) True out"
    using message_implements [OF assms(1), of n src m] assms(2,3) by (simp add: implements_def)
  ultimately have "if length out \<le> unat cap then pb_encode n env ?s fs src m = Some (True, written cap out)
      else \<exists>s'. pb_encode n env ?s fs src m = Some (False, s') \<and> partial_out ?s out s'"
    unfolding stores_def by metis
  then show ?thesis
    using \<open>\<And>k. has_room ?s k \<longleftrightarrow> k \<le> unat cap\<close> \<open>\<And>p. obuf ?s p = written cap p\<close>
    by (auto simp: partial_out_def written_def)
qed

lemma sizing_pass:
  assumes "wf_fields fs" and "message_bytes n ref fs src m = Some (True, out)"
  shows "pb_encode n env PB_OSTREAM_SIZING fs src m = Some (True, PB_OSTREAM_SIZING\<lparr>bytes_written := of_nat (length out)\<rparr>)"
proof -
  have "sizes (\<lambda>s. pb_encode n env s fs src m) True out"
    using message_implements [OF assms(1), of n src m] assms(2) by (simp add: implements_def)
  then show ?thesis by (simp add: sizes_def obuf_def PB_OSTREAM_SIZING_def is_sizing_def)
qed

lemma sizing_failure:
  assumes "wf_fields fs" and "message_bytes n ref fs src m = Some (False, out)"
  shows "pb_get_encoded_size n env fs src m = Some None"
proof -
  have "sizes (\<lambda>s. pb_encode n env s fs src m) False out"
    using message_implements [OF assms(1), of n src m] assms(2) by (simp add: implements_def)
  then show ?thesis
    by (auto simp: sizes_def pb_get_encoded_size_def dest!: spec [of _ PB_OSTREAM_SIZING])
qed

end

section \<open>The callers\<close>

text \<open>
  A sizing pass, then a second pass into a buffer of that size.  Failures are only logged; the buffer starts
  with zeros (\<open>CFDataSetLength\<close>).
\<close>

definition encode_twice :: "nat \<Rightarrow> 't enc_env \<Rightarrow> pb_field list \<Rightarrow> addr \<Rightarrow> mem \<Rightarrow> (size_t \<times> 't pb_ostream) option" where
  "encode_twice n env fs src m =
     (case pb_encode n env PB_OSTREAM_SIZING fs src m of
        None \<Rightarrow> None
      | Some (ok, sizestream) \<Rightarrow>
          let bufferSize = bytes_written sizestream in
          map_option (\<lambda>(ok, ostream). (bufferSize, ostream))
            (pb_encode n env (pb_ostream_from_buffer bufferSize) fs src m))"

definition stored :: "'t pb_ostream \<Rightarrow> byte list" where
  "stored s = (case osink s of BufWrite bs \<Rightarrow> bs | Sizing \<Rightarrow> [] | UserWrite cb st \<Rightarrow> [])"

definition GDTCCTEncodeBatchedLogRequest :: "addr \<Rightarrow> mem \<Rightarrow> byte list option" where
  "GDTCCTEncodeBatchedLogRequest batchedLogRequest m =
     map_option (\<lambda>(bufferSize, ostream :: unit pb_ostream). buf_take (unat bufferSize) (stored ostream))
       (encode_twice 5 (plain_env cct_descr) gdt_cct_BatchedLogRequest_fields batchedLogRequest m)"

definition metrics_transportBytes :: "addr \<Rightarrow> mem \<Rightarrow> byte list option" where
  "metrics_transportBytes clientMetricsProto m =
     map_option (\<lambda>(bufferSize, ostream :: unit pb_ostream). buf_take (unat (bytes_written ostream)) (stored ostream))
       (encode_twice 4 (plain_env client_metrics_descr) gdt_client_metrics_ClientMetrics_fields clientMetricsProto m)"

definition config_transportBytes :: "addr \<Rightarrow> mem \<Rightarrow> byte list option" where
  "config_transportBytes config m =
     map_option (\<lambda>(bufferSize, ostream :: unit pb_ostream). buf_take (unat (bytes_written ostream)) (stored ostream))
       (encode_twice 2 (plain_env firebase_core_descr) logs_proto_mobilesdk_ios_ICoreConfiguration_fields config m)"

context encoder begin

lemma encode_twice_exact:
  assumes "wf_fields fs" and "message_bytes n ref fs src m = Some (True, out)" and "length out < 2 ^ 63"
  shows "encode_twice n env fs src m = Some (of_nat (length out), written (of_nat (length out)) out)"
proof -
  have "unat (of_nat (length out) :: size_t) = length out" using assms(3) by (simp add: unat_of_nat64)
  then show ?thesis
    using buffer_pass [OF assms, of "of_nat (length out)"] assms(3)
    by (simp add: encode_twice_def sizing_pass [OF assms(1,2)] Let_def)
qed

lemma encode_twice_safe:
  assumes "wf_fields fs" and "safe_schema n (descr env) fs" and k: "k = Suc n"
  shows "\<exists>out. message_bytes k ref fs src m = Some (True, out) \<and>
    (length out < 2 ^ 63 \<longrightarrow> encode_twice k env fs src m = Some (of_nat (length out), written (of_nat (length out)) out))"
proof -
  have "succeeds (message_bytes (Suc n) ref fs src m)"
    using assms(2) by (intro safe_schema_succeeds) (simp add: descr)
  then obtain out where "message_bytes k ref fs src m = Some (True, out)" by (auto simp: succeeds_def k)
  then show ?thesis using encode_twice_exact [OF assms(1)] by blast
qed

end

lemma fields_wf:
  "wf_fields gdt_cct_BatchedLogRequest_fields" "wf_fields gdt_client_metrics_ClientMetrics_fields"
  "wf_fields logs_proto_mobilesdk_ios_ICoreConfiguration_fields"
  by code_simp+

lemma stored_written:
  "length out < 2 ^ 63 \<Longrightarrow> buf_take (unat (of_nat (length out) :: size_t)) (stored (written n out)) = out"
  "bytes_written (written n out) = of_nat (length out)"
  by (simp_all add: stored_def written_def unat_of_nat64)

lemma callers_exact:
  "\<exists>out. message_bytes 5 (plain_ref cct_descr) gdt_cct_BatchedLogRequest_fields src m = Some (True, out) \<and>
     (length out < 2 ^ 63 \<longrightarrow> GDTCCTEncodeBatchedLogRequest src m = Some out)" (is ?A)
  "\<exists>out. message_bytes 4 (plain_ref client_metrics_descr) gdt_client_metrics_ClientMetrics_fields src m = Some (True, out) \<and>
     (length out < 2 ^ 63 \<longrightarrow> metrics_transportBytes src m = Some out)" (is ?B)
  "\<exists>out. message_bytes 2 (plain_ref firebase_core_descr) logs_proto_mobilesdk_ios_ICoreConfiguration_fields src m =
       Some (True, out) \<and> (length out < 2 ^ 63 \<longrightarrow> config_transportBytes src m = Some out)" (is ?C)
proof -
  show ?A
  proof -
    have "\<exists>out. message_bytes 5 (plain_ref cct_descr) gdt_cct_BatchedLogRequest_fields src m = Some (True, out) \<and>
      (length out < 2 ^ 63 \<longrightarrow> encode_twice 5 (plain_env cct_descr :: unit enc_env) gdt_cct_BatchedLogRequest_fields src m =
         Some (of_nat (length out), written (of_nat (length out)) out))"
      by (rule cct.encode_twice_safe, rule fields_wf(1), unfold plain_simps, rule cct_safe, simp)
    then show ?thesis by (auto simp: GDTCCTEncodeBatchedLogRequest_def stored_written)
  qed
  show ?B
  proof -
    have "\<exists>out. message_bytes 4 (plain_ref client_metrics_descr) gdt_client_metrics_ClientMetrics_fields src m = Some (True, out) \<and>
      (length out < 2 ^ 63 \<longrightarrow> encode_twice 4 (plain_env client_metrics_descr :: unit enc_env) gdt_client_metrics_ClientMetrics_fields src m =
         Some (of_nat (length out), written (of_nat (length out)) out))"
      by (rule metrics.encode_twice_safe, rule fields_wf(2), unfold plain_simps, rule metrics_safe, simp)
    then show ?thesis by (auto simp: metrics_transportBytes_def stored_written)
  qed
  show ?C
  proof -
    have "\<exists>out. message_bytes 2 (plain_ref firebase_core_descr) logs_proto_mobilesdk_ios_ICoreConfiguration_fields src m = Some (True, out) \<and>
      (length out < 2 ^ 63 \<longrightarrow> encode_twice 2 (plain_env firebase_core_descr :: unit enc_env) logs_proto_mobilesdk_ios_ICoreConfiguration_fields src m =
         Some (of_nat (length out), written (of_nat (length out)) out))"
      by (rule core.encode_twice_safe, rule fields_wf(3), unfold plain_simps, rule core_safe, simp)
    then show ?thesis by (auto simp: config_transportBytes_def stored_written)
  qed
qed

text \<open>C19: The three callers return the encoding of their message, whatever the structure holds: the reference
  encoder succeeds on these schemas, and the sizing pass, the buffer of that size and the second pass yield
  exactly its bytes (as long as they are fewer than 2 to the 63).\<close>

theorem transport_bytes_exact:
  "(\<exists>out. message_bytes 5 (plain_ref cct_descr) gdt_cct_BatchedLogRequest_fields src m = Some (True, out) \<and>
      (length out < 2 ^ 63 \<longrightarrow> GDTCCTEncodeBatchedLogRequest src m = Some out)) \<and>
   (\<exists>out. message_bytes 4 (plain_ref client_metrics_descr) gdt_client_metrics_ClientMetrics_fields src m = Some (True, out) \<and>
      (length out < 2 ^ 63 \<longrightarrow> metrics_transportBytes src m = Some out)) \<and>
   (\<exists>out. message_bytes 2 (plain_ref firebase_core_descr) logs_proto_mobilesdk_ios_ICoreConfiguration_fields src m =
        Some (True, out) \<and>
      (length out < 2 ^ 63 \<longrightarrow> config_transportBytes src m = Some out))"
  by (intro conjI callers_exact)

text \<open>A message of two integers, 1 and 300, at address 4096.\<close>

definition window_mem :: mem where
  "window_mem = \<lparr>mbytes = (\<lambda>x. if x = 4096 \<or> x = 4105 then 1 else if x = 4104 then 44 else 0), mblocks = []\<rparr>"

text \<open>A structure of zeros: nothing is present, and the message is empty.\<close>

definition zero_mem :: mem where
  "zero_mem = \<lparr>mbytes = (\<lambda>x. 0), mblocks = []\<rparr>"

lemma zero_loads: "load_int zero_mem a k = 0" "load32 zero_mem a = 0" "load_ptr zero_mem a = 0" "safe_read_bool zero_mem a = False"
proof -
  have "le_word (replicate k 0) = 0" for k by (induction k) simp_all
  moreover have bytes: "load_bytes zero_mem a k = replicate k 0" for a k
    by (intro nth_equalityI) (simp_all add: load_bytes_def zero_mem_def)
  ultimately show load: "load_int zero_mem a k = 0" for k by (simp add: load_int_def)
  show "load32 zero_mem a = 0" "load_ptr zero_mem a = 0" by (simp_all add: load32_def load_ptr_def load)
  show "safe_read_bool zero_mem a = False" by (simp add: safe_read_bool_def bytes list_ex_iff)
qed

lemma zero_bytes:
  "message_bytes 5 (plain_ref cct_descr) gdt_cct_BatchedLogRequest_fields 4096 zero_mem = Some (True, [])"
proof -
  have "entry_bytes env n rec (gdt_cct_BatchedLogRequest_fields ! 0) data zero_mem = emit []" for env n rec data
    by (simp add: table_entries entry_bytes_def field_bytes_def basic_bytes_def has_value_def array_bytes_def zero_loads
        PB_LTYPE_def PB_ATYPE_def PB_HTYPE_def pb_consts Let_def)
  then have "message_bytes (Suc n) env gdt_cct_BatchedLogRequest_fields 4096 zero_mem = Some (True, [])" for n env
    by (simp add: emit_def table_entries)
  then show ?thesis by (simp only: eval_nat_numeral BitM.simps)
qed

theorem transport_bytes_exact_witness:
  "GDTCCTEncodeBatchedLogRequest 4096 zero_mem = Some []"
  using transport_bytes_exact [of 4096 zero_mem] unfolding zero_bytes by auto

section \<open>The encoder returns\<close>

text \<open>C21: On every stream and for every memory \<open>pb_encode\<close> returns, when the schema has finite nesting depth
  \<open>n\<close> and no callback fields or extensions: fuel \<open>n + 1\<close> is enough, whatever the structure holds.\<close>

theorem pb_encode_terminates:
  assumes "nested n (descr env) fs"
  shows "\<exists>ok s'. pb_encode (Suc n) env s fs src m = Some (ok, s')"
  using encode_returns [OF assms, of s src m] by (auto simp: returns_def)

theorem pb_encode_terminates_witness:
  "\<exists>ok s'. pb_encode 5 (plain_env cct_descr) (PB_OSTREAM_SIZING :: unit pb_ostream) gdt_cct_BatchedLogRequest_fields
     4096 window_mem = Some (ok, s')"
proof -
  have "nested (Suc (Suc (Suc (Suc 0)))) (descr (plain_env cct_descr :: unit enc_env)) gdt_cct_BatchedLogRequest_fields"
    unfolding plain_simps by (rule safe_nested [OF cct_safe])
  from pb_encode_terminates [OF this] show ?thesis by (simp only: eval_nat_numeral BitM.simps numeral_nat One_nat_def)
qed

section \<open>The encoder and the reference encoder\<close>

text \<open>C20: On a fresh buffer \<open>pb_encode\<close> stores exactly the bytes of the reference encoder when they fit; when
  they do not, it fails and has stored a prefix of them that fits.  The sizing stream counts their number.  The
  user callbacks are assumed to put out the same bytes in every pass, as nanopb asks of them.\<close>

theorem pb_encode_refines_reference:
  fixes env :: "'t enc_env"
  assumes callbacks: "\<And>a field arg m. implements (\<lambda>s. enc_cb env a s field arg m) (cb_bytes ref a field arg m)"
    and extensions: "\<And>a e m. implements (\<lambda>s. ext_enc env a s e m) (ext_bytes ref a e m)"
    and descriptors: "rdescr ref = descr env" "\<And>a. wf_fields (descr env a)" "wf_fields fs"
    and reference: "message_bytes n ref fs src m = Some (True, out)"
    and bounds: "length out < 2 ^ 63" "unat cap < 2 ^ 63"
  shows "pb_get_encoded_size n env fs src m = Some (Some (of_nat (length out))) \<and>
    (if length out \<le> unat cap
     then pb_encode n env (pb_ostream_from_buffer cap) fs src m = Some (True, written cap out)
     else \<exists>s' p. pb_encode n env (pb_ostream_from_buffer cap) fs src m = Some (False, s') \<and>
            osink s' = BufWrite p \<and> prefix p out \<and> length p \<le> unat cap)"
proof -
  have enc: "encoder env ref" by unfold_locales (use assms in auto)
  show ?thesis
    using encoder.buffer_pass [OF enc descriptors(3) reference bounds]
      encoder.sizing_pass [OF enc descriptors(3) reference]
    by (simp add: pb_get_encoded_size_def PB_OSTREAM_SIZING_def)
qed

lemma window_bytes:
  "message_bytes 2 (plain_ref client_metrics_descr) gdt_client_metrics_TimeWindow_fields 4096 window_mem =
     Some (True, [8, 1, 16, 0xAC, 2])"
  unfolding table_entries by code_simp

theorem pb_encode_refines_reference_witness:
  "pb_get_encoded_size 2 (plain_env client_metrics_descr :: unit enc_env) gdt_client_metrics_TimeWindow_fields 4096 window_mem =
     Some (Some 5) \<and>
   (\<exists>s' p. pb_encode 2 (plain_env client_metrics_descr :: unit enc_env) (pb_ostream_from_buffer 3)
       gdt_client_metrics_TimeWindow_fields 4096 window_mem = Some (False, s') \<and>
     osink s' = BufWrite p \<and> prefix p [8, 1, 16, 0xAC, 2] \<and> length p \<le> 3)"
proof -
  have "wf_fields gdt_client_metrics_TimeWindow_fields"
    by (simp add: table_entries wf_fields_def)
  from pb_encode_refines_reference [of "plain_env client_metrics_descr :: unit enc_env" "plain_ref client_metrics_descr",
      OF metrics.cb metrics.ext metrics.descr metrics.wf this window_bytes, of 3]
  show ?thesis by simp
qed

end
