(* ===== verification/Pb_Codec_Props.thy ===== *)
theory Pb_Codec_Props
  imports Pb_Codec Pb_Encode_Props
begin

text \<open>Properties of the encoder and the decoder together.\<close>

section \<open>Fields\<close>

lemma pointer_value:
  fixes env :: "'s dec_env"
  assumes "holds_value f m src" and "value_target env f dest (value_width f m src) m' = Some (p, m1)"
    and "PB_ATYPE (ftype f) = PB_ATYPE_POINTER" and "PB_LTYPE (ftype f) \<in> {PB_LTYPE_BYTES, PB_LTYPE_STRING}"
    and "disjoint_ranges p (value_width f m src) dest 8"
  defines "m2 \<equiv> store_bytes m1 p (load_bytes m src (value_width f m src))"
  shows "p \<noteq> 0 \<and> load_ptr m2 dest = p \<and> block_size m2 p = of_nat (value_width f m src) \<and>
    load_bytes m2 p (value_width f m src) = load_bytes m src (value_width f m src)"
proof -
  let ?w = "value_width f m src"
  have nb: "new_block env dest ?w m' = Some (p, m1)" using assms(2-4) by (simp add: value_target_def)
  have "?w \<le> 2 ^ 64"
    using assms(4) unsigned_less [of "load32 m src", where 'a = nat] unat_lt64 [of "string_length f m src"]
    by (auto simp: value_width_def Let_def pb_consts)
  then have "load_bytes m2 p ?w = load_bytes m src ?w"
    using load_store_bytes [of "load_bytes m src ?w" m1 p] by (simp add: m2_def)
  moreover have "load_ptr m2 dest = load_ptr m1 dest"
    using load_store_disjoint [of p "load_bytes m src ?w" dest 8 m1] assms(5) by (simp add: m2_def load_ptr_def load_int_def)
  ultimately show ?thesis
    using nb new_block_ptr [OF nb]
    by (auto simp: m2_def new_block_def pb_realloc_def block_size_def Let_def split: if_splits prod.splits)
qed

text \<open>C22: For every type of field but submessages and extensions, the decoder of \<open>PB_DECODERS\<close> inverts the encoder
  of \<open>PB_ENCODERS\<close>.  From the encoding of a value it restores the bytes of memory that hold the value, whatever was
  there, and leaves the stream right behind the encoding.  A value of a static field, and the item of a pointer field of
  a scalar type, is restored at the address the decoder is called with.  For a bytes or string field that is a pointer
  it goes to a block obtained from \<open>realloc\<close>, whose address is stored in the structure; the block has
  exactly the size of the value, so that all of it is restored, and when there is no room for it the decoder
  returns false and leaves the memory alone.\<close>

theorem value_round_trip:
  assumes "holds_value f m src" and "length (value_encoding f m src) \<le> unat n"
    and "length (value_encoding f m src @ rest) < 2 ^ 64"
  shows "PB_ENCODERS eenv rec (PB_LTYPE (ftype f)) (pb_ostream_from_buffer n) f src m =
      Some (True, written n (value_encoding f m src)) \<and>
    (let w = value_width f m src; value = load_bytes m src w;
         r = PB_DECODERS denv k noinit (PB_LTYPE (ftype f)) (stream_of (value_encoding f m src @ rest)) f dest m'
     in case value_target denv f dest w m' of
          None \<Rightarrow> \<exists>s'. r = Some (False, s', m')
        | Some (p, m1) \<Rightarrow>
            let m2 = store_bytes m1 p value in
            r = Some (True, stream_of rest, m2) \<and>
            (if PB_ATYPE (ftype f) = PB_ATYPE_POINTER \<and> PB_LTYPE (ftype f) \<in> {PB_LTYPE_BYTES, PB_LTYPE_STRING}
             then disjoint_ranges p w dest 8 \<longrightarrow>
               p \<noteq> 0 \<and> load_ptr m2 dest = p \<and> block_size m2 p = of_nat w \<and> load_bytes m2 p w = value
             else p = dest \<and> m1 = m'))"
  using tables_encode [OF assms(1,2), of eenv rec] tables_decode [OF assms(1,3), of denv dest m' k noinit]
    pointer_value [OF assms(1), of denv dest m']
  by (auto simp: reads_back_def Let_def value_target_def split: option.splits)

text \<open>The second integer, 300, of the message at 4096 is written in two bytes and read back to address 80; the
  two bytes \<open>DE\<close> of a pointer field, the country of a client, are read back to a new block at 8192.\<close>

definition block_env :: "descriptors \<Rightarrow> unit dec_env" where
  "block_env d = \<lparr>ddescr = d, pick = (\<lambda>m p n. 8192), dec_cb = (\<lambda>a s f arg m. None), ext_dec = (\<lambda>a s e t wt m. None)\<rparr>"

definition block_mem :: mem where
  "block_mem = store_bytes \<lparr>mbytes = (\<lambda>x. 0), mblocks = []\<rparr> 4096 [2, 0, 0, 0, 68, 69]"

lemma integer_300:
  defines "f \<equiv> gdt_client_metrics_TimeWindow_fields ! 1"
  shows "PB_LTYPE (ftype f) = PB_LTYPE_VARINT" "value_encoding f window_mem 4104 = [0xAC, 2]"
    "holds_value f window_mem 4104" "value_width f window_mem 4104 = 8"
    "load_bytes window_mem 4104 8 = [44, 1, 0, 0, 0, 0, 0, 0]"
    "value_target (block_env d) f 80 8 window_mem = Some (80, window_mem)"
  unfolding f_def table_entries by code_simp+

lemma country_DE:
  defines "f \<equiv> gdt_cct_IosClientInfo_fields ! 3"
  shows "PB_LTYPE (ftype f) = PB_LTYPE_BYTES" "PB_ATYPE (ftype f) = PB_ATYPE_POINTER"
    "value_encoding f block_mem 4096 = [2, 68, 69]"
    "holds_value f block_mem 4096" "value_width f block_mem 4096 = 6"
    "load_bytes block_mem 4096 6 = [2, 0, 0, 0, 68, 69]"
  unfolding f_def table_entries by code_simp+

lemma all_less_4: "(\<forall>i < 4. P i) \<longleftrightarrow> P 0 \<and> P 1 \<and> P 2 \<and> P (3 :: nat)"
proof (intro iffI allI impI)
  fix i assume "i < (4 :: nat)" "P 0 \<and> P 1 \<and> P 2 \<and> P 3"
  moreover from \<open>i < 4\<close> have "i = 0 \<or> i = 1 \<or> i = 2 \<or> i = 3" by linarith
  ultimately show "P i" by (elim disjE) simp_all
qed simp

lemma all_less_8:
  "(\<forall>i < 8. P i) \<longleftrightarrow> P 0 \<and> P 1 \<and> P 2 \<and> P 3 \<and> P 4 \<and> P 5 \<and> P 6 \<and> P (7 :: nat)"
proof (intro iffI allI impI)
  fix i assume "i < (8 :: nat)" "P 0 \<and> P 1 \<and> P 2 \<and> P 3 \<and> P 4 \<and> P 5 \<and> P 6 \<and> P 7"
  moreover from \<open>i < 8\<close> have "i = 0 \<or> i = 1 \<or> i = 2 \<or> i = 3 \<or> i = 4 \<or> i = 5 \<or> i = 6 \<or> i = 7" by linarith
  ultimately show "P i" by (elim disjE) simp_all
qed simp

lemma country_apart: "disjoint_ranges 8192 6 80 8"
  by (simp add: disjoint_ranges_def all_less_8 in_range_def)

lemma country_block:
  "value_target (block_env d) (gdt_cct_IosClientInfo_fields ! 3) 80 6 block_mem =
     Some (8192, store_ptr (snd (pb_realloc (\<lambda>m p n. 8192) block_mem (load_ptr block_mem 80) 6)) 80 8192)"
  using country_DE(1,2) by (simp add: value_target_def new_block_def block_env_def pb_realloc_def Let_def)

theorem value_round_trip_witness:
  "PB_DECODERS (block_env client_metrics_descr) 1 (\<lambda>s fs dest m. None) PB_LTYPE_VARINT (stream_of [0xAC, 2, 7])
       (gdt_client_metrics_TimeWindow_fields ! 1) 80 window_mem =
     Some (True, stream_of [7], store_bytes window_mem 80 [44, 1, 0, 0, 0, 0, 0, 0]) \<and>
   (\<exists>m2. PB_DECODERS (block_env cct_descr) 1 (\<lambda>s fs dest m. None) PB_LTYPE_BYTES (stream_of [2, 68, 69, 7])
       (gdt_cct_IosClientInfo_fields ! 3) 80 block_mem = Some (True, stream_of [7], m2) \<and>
     load_ptr m2 80 = 8192 \<and> load_bytes m2 8192 6 = [2, 0, 0, 0, 68, 69])"
proof
  show "PB_DECODERS (block_env client_metrics_descr) 1 (\<lambda>s fs dest m. None) PB_LTYPE_VARINT (stream_of [0xAC, 2, 7])
       (gdt_client_metrics_TimeWindow_fields ! 1) 80 window_mem =
     Some (True, stream_of [7], store_bytes window_mem 80 [44, 1, 0, 0, 0, 0, 0, 0])"
    using value_round_trip [OF integer_300(3), of 2 "[7]" "plain_env client_metrics_descr :: unit enc_env"
        "\<lambda>s fs src m. None" "block_env client_metrics_descr" 1 "\<lambda>s fs dest m. None" 80 window_mem]
    by (simp add: integer_300 Let_def del: One_nat_def)
  show "\<exists>m2. PB_DECODERS (block_env cct_descr) 1 (\<lambda>s fs dest m. None) PB_LTYPE_BYTES (stream_of [2, 68, 69, 7])
       (gdt_cct_IosClientInfo_fields ! 3) 80 block_mem = Some (True, stream_of [7], m2) \<and>
     load_ptr m2 80 = 8192 \<and> load_bytes m2 8192 6 = [2, 0, 0, 0, 68, 69]"
    using value_round_trip [OF country_DE(4), of 3 "[7]" "plain_env cct_descr :: unit enc_env"
        "\<lambda>s fs src m. None" "block_env cct_descr" 1 "\<lambda>s fs dest m. None" 80 block_mem]
    by (simp add: country_DE country_block country_apart Let_def)
qed

end
