(* ===== verification/Pb_Decode_Props.thy ===== *)
theory Pb_Decode_Props
  imports Pb_Decode_Safe Pb_Codec_Props
begin

text \<open>Properties of the decoder: memory safety on arbitrary input, and required fields.\<close>

section \<open>Memory safety\<close>

text \<open>A byte of a block that the allocator may return; and blocks that keep off a structure.\<close>

definition handed_out :: "allocator \<Rightarrow> addr \<Rightarrow> bool" where
  "handed_out pck x \<longleftrightarrow> (\<exists>m p n. pck m p n \<noteq> 0 \<and> in_range (pck m p n) (unat n) x)"

definition blocks_apart :: "allocator \<Rightarrow> addr \<Rightarrow> nat \<Rightarrow> bool" where
  "blocks_apart pck dest sz \<longleftrightarrow>
     (\<forall>m p n. pck m p n \<noteq> 0 \<longrightarrow> unat (pck m p n) + unat n < 2 ^ 64 \<and>
        (\<forall>x. in_range (pck m p n) (unat n) x \<longrightarrow> \<not> in_range dest sz x))"

lemma decode_safe:
  assumes "owned_schema n (ddescr env) True sz fs" and "dest \<noteq> 0" and "unat dest + sz < 2 ^ 64"
    and "blocks_apart (pick env) dest sz"
  shows "\<exists>ok s' m'. pb_decode n env s fs dest m = Some (ok, s', m') \<and> bytes_left s' \<le> bytes_left s \<and>
    (\<forall>x. \<not> in_range dest sz x \<and> \<not> handed_out (pick env) x \<longrightarrow> mbytes m' x = mbytes m x)"
proof -
  let ?R = "\<lambda>x. in_range dest sz x \<or> handed_out (pick env) x"
  have "room ?R dest sz" "room (in_range dest sz) dest sz" using assms(2,3) by (simp_all add: room_def)
  moreover have "allocates ?R (in_range dest sz) (pick env)"
    using assms(4) by (auto simp: allocates_def blocks_apart_def handed_out_def room_def)
  ultimately have "confined ?R (bytes_left s) m (pb_decode n env s fs dest m)"
    using assms(1) by (intro decode_confined)
  then show ?thesis by (simp add: confined_def unchanged_outside_def)
qed

text \<open>C23: Whatever the input is, \<open>pb_decode\<close> returns, does not grow the stream, and changes no byte of memory
  outside the structure and outside the blocks that the allocator has handed out.  The schemas may contain scalars,
  strings, bytes, submessages, pointers to values, and arrays of submessages.\<close>

theorem pb_decode_memory_safe:
  assumes "owned_schema n (ddescr env) True sz fs" and "dest \<noteq> 0" and "unat dest + sz < 2 ^ 64"
    and "blocks_apart (pick env) dest sz"
  shows "\<exists>ok s' m'. pb_decode n env s fs dest m = Some (ok, s', m') \<and> bytes_left s' \<le> bytes_left s \<and>
    (\<forall>x. \<not> in_range dest sz x \<and> \<not> handed_out (pick env) x \<longrightarrow> mbytes m' x = mbytes m x)"
  using assms by (rule decode_safe)

section \<open>The response of the transport backend\<close>

definition sizeof_LogResponse :: nat where
  "sizeof_LogResponse = nat (sizeof (CStruct gdt_cct_LogResponse))"

text \<open>
  \<open>GDTCCTDecodeLogResponse\<close>: the message is decoded into a local variable at \<open>response\<close>; the first component of
  the result is the nanopb error that is put into the \<open>NSError\<close>.  All members are 0 in
  \<open>gdt_cct_LogResponse_init_default\<close>.
\<close>

definition gdt_cct_LogResponse_init_default :: "mem \<Rightarrow> addr \<Rightarrow> mem" where
  "gdt_cct_LogResponse_init_default m response = memset0 m response sizeof_LogResponse"

definition GDTCCTDecodeLogResponse :: "unit dec_env \<Rightarrow> byte list \<Rightarrow> addr \<Rightarrow> mem \<Rightarrow> (string option \<times> mem) option" where
  "GDTCCTDecodeLogResponse env data response m =
     (let m = gdt_cct_LogResponse_init_default m response;
          istream = pb_istream_from_buffer data (of_nat (length data)) in
      case pb_decode 3 env istream gdt_cct_LogResponse_fields response m of
        None \<Rightarrow> None
      | Some (True, istream, m) \<Rightarrow> Some (None, m)
      | Some (False, istream, m) \<Rightarrow>
          Some (Some (PB_GET_ERROR (ierrmsg istream)), gdt_cct_LogResponse_init_default m response))"

lemma sizeof_LogResponse: "sizeof_LogResponse = 56"
  by code_simp

lemmas owned_checks = owned_field_def value_fits_def field_extent_def PB_LTYPE_def PB_HTYPE_def PB_ATYPE_def pb_consts Let_def
  sizeof_ptr_def

lemma LogResponse_owned: "owned_schema (Suc (Suc (Suc 0))) cct_descr True sizeof_LogResponse gdt_cct_LogResponse_fields"
  unfolding sizeof_LogResponse by (simp add: table_entries owned_checks)

text \<open>An allocator that serves blocks of up to 4096 bytes, always at the same address.\<close>

definition small_env :: "unit dec_env" where
  "small_env = \<lparr>ddescr = cct_descr, pick = (\<lambda>m p n. if n \<le> 4096 then 0x100000 else 0), dec_cb = (\<lambda>a s f arg m. None),
     ext_dec = (\<lambda>a s e t wt m. None)\<rparr>"

lemma small_env_apart: "blocks_apart (pick small_env) 4096 sizeof_LogResponse"
proof -
  have "\<not> in_range 4096 sizeof_LogResponse x" if "in_range 0x100000 (unat n) x" and "n \<le> 4096" for x and n :: size_t
  proof
    assume "in_range 4096 sizeof_LogResponse x"
    then have "unat (x - 4096) < 56" by (simp add: in_range_def sizeof_LogResponse)
    moreover have "x - 0x100000 = (x - 4096) - 0xFF000" by simp
    ultimately have "x - 0x100000 = of_nat (unat (x - 4096)) - 0xFF000 \<and> unat (x - 4096) < 56" by simp
    then obtain k where "x - 0x100000 = of_nat k - 0xFF000" "k < 56" by blast
    then have "unat (x - 0x100000) = 2 ^ 64 - 0xFF000 + k"
      by (simp add: unat_sub_if' unat_of_nat64)
    moreover have "unat n \<le> 4096" using that(2) by (simp add: word_le_nat_alt)
    ultimately show False using that(1) by (simp add: in_range_def)
  qed
  then show ?thesis by (auto simp: blocks_apart_def small_env_def word_le_nat_alt)
qed

text \<open>The qos override of this response is cut off in its first array entry.\<close>

theorem pb_decode_memory_safe_witness:
  "\<exists>ok s' m'. pb_decode 3 small_env (pb_istream_from_buffer [26, 4, 10, 9] 4) gdt_cct_LogResponse_fields 4096 window_mem =
       Some (ok, s', m') \<and>
     (\<forall>x. \<not> in_range 4096 sizeof_LogResponse x \<and> \<not> handed_out (pick small_env) x \<longrightarrow> mbytes m' x = mbytes window_mem x)"
proof -
  have "owned_schema 3 (ddescr small_env) True sizeof_LogResponse gdt_cct_LogResponse_fields"
    using LogResponse_owned by (simp only: small_env_def dec_env.simps eval_nat_numeral BitM.simps)
  then have "\<exists>ok s' m'. pb_decode 3 small_env (pb_istream_from_buffer [26, 4, 10, 9] 4) gdt_cct_LogResponse_fields 4096 window_mem =
       Some (ok, s', m') \<and> bytes_left s' \<le> bytes_left (pb_istream_from_buffer [26, 4, 10, 9] 4 :: unit pb_istream) \<and>
     (\<forall>x. \<not> in_range 4096 sizeof_LogResponse x \<and> \<not> handed_out (pick small_env) x \<longrightarrow> mbytes m' x = mbytes window_mem x)"
    by (rule pb_decode_memory_safe) (use small_env_apart in \<open>simp_all add: sizeof_LogResponse\<close>)
  then show ?thesis by blast
qed

text \<open>C24: \<open>GDTCCTDecodeLogResponse\<close> returns for every response of a server.  It reports an error exactly when
  \<open>pb_decode\<close> fails, and the structure then holds the default values; it writes only to the structure and
  to blocks of the allocator.\<close>

theorem GDTCCTDecodeLogResponse_safe:
  assumes "ddescr env = cct_descr" and "response \<noteq> 0" and "unat response + sizeof_LogResponse < 2 ^ 64"
    and "blocks_apart (pick env) response sizeof_LogResponse"
  shows "\<exists>err m'. GDTCCTDecodeLogResponse env data response m = Some (err, m') \<and>
    (\<forall>x. \<not> in_range response sizeof_LogResponse x \<and> \<not> handed_out (pick env) x \<longrightarrow> mbytes m' x = mbytes m x) \<and>
    (err \<noteq> None \<longrightarrow> load_bytes m' response sizeof_LogResponse = replicate sizeof_LogResponse 0)"
proof -
  let ?m = "gdt_cct_LogResponse_init_default m response"
  have "owned_schema 3 (ddescr env) True sizeof_LogResponse gdt_cct_LogResponse_fields"
    using LogResponse_owned by (simp only: assms(1) eval_nat_numeral BitM.simps)
  from decode_safe [OF this assms(2-4), of "pb_istream_from_buffer data (of_nat (length data))" ?m] obtain ok s' m'
    where d: "pb_decode 3 env (pb_istream_from_buffer data (of_nat (length data))) gdt_cct_LogResponse_fields response ?m = Some (ok, s', m')"
      and frame: "\<And>x. \<not> in_range response sizeof_LogResponse x \<and> \<not> handed_out (pick env) x \<Longrightarrow> mbytes m' x = mbytes ?m x"
    by blast
  have init: "\<not> in_range response sizeof_LogResponse x \<Longrightarrow> mbytes (gdt_cct_LogResponse_init_default m0 response) x = mbytes m0 x"
    and zero: "load_bytes (gdt_cct_LogResponse_init_default m0 response) response sizeof_LogResponse = replicate sizeof_LogResponse 0"
    for m0 x
    using load_store_bytes [of "replicate sizeof_LogResponse 0" m0 response]
    by (simp_all add: gdt_cct_LogResponse_init_default_def memset0_def mbytes_store_bytes sizeof_LogResponse)
  show ?thesis
    using d frame init zero by (cases ok) (auto simp: GDTCCTDecodeLogResponse_def Let_def)
qed

theorem GDTCCTDecodeLogResponse_safe_witness:
  "\<exists>err m'. GDTCCTDecodeLogResponse small_env [26, 4, 10, 9] 4096 window_mem = Some (err, m') \<and>
    (\<forall>x. \<not> in_range 4096 sizeof_LogResponse x \<and> \<not> handed_out (pick small_env) x \<longrightarrow> mbytes m' x = mbytes window_mem x) \<and>
    (err \<noteq> None \<longrightarrow> load_bytes m' 4096 sizeof_LogResponse = replicate sizeof_LogResponse 0)"
  by (rule GDTCCTDecodeLogResponse_safe) (simp_all add: small_env_apart, simp_all add: small_env_def sizeof_LogResponse)

section \<open>Required fields\<close>

text \<open>The bit of \<open>fields_seen\<close> for the required field with index \<open>i\<close>.\<close>

definition seen_bit :: "u32 list \<Rightarrow> nat \<Rightarrow> bool" where
  "seen_bit seen i \<longleftrightarrow> bit (seen ! (i div 32)) (i mod 32)"

text \<open>\<open>fields_seen\<close> after the fields that the iterators \<open>its\<close> stand on have been read, from the start of a message.\<close>

definition seen_after :: "noinit_vars \<Rightarrow> pb_field_iter list \<Rightarrow> u32 list" where
  "seen_after v its = fields_seen (fold (\<lambda>it v. note_required (v\<lparr>iter := it\<rparr>)) its v)"

lemma drop_5_and_31: "unat (drop_bit 5 (i :: u32)) = unat i div 32" "unat (i AND 31) = unat i mod 32"
proof -
  show "unat (drop_bit 5 i) = unat i div 32" by (simp add: unat_drop_bit_eq drop_bit_eq_div unat_div)
  have "i AND 31 = take_bit 5 i" by (simp add: take_bit_eq_mask mask_numeral)
  then show "unat (i AND 31) = unat i mod 32" by (simp add: unsigned_take_bit_eq take_bit_eq_mod unat_mod)
qed

lemma note_required_seen:
  assumes "length (fields_seen v) = 2" and "i < 64"
  shows "length (fields_seen (note_required v)) = 2"
    and "seen_bit (fields_seen (note_required v)) i \<longleftrightarrow> seen_bit (fields_seen v) i \<or>
      PB_HTYPE (ftype (cur (iter v))) = PB_HTYPE_REQUIRED \<and> unat (required_field_index (iter v)) = i"
proof -
  let ?j = "required_field_index (iter v)"
  show "length (fields_seen (note_required v)) = 2" using assms by (simp add: note_required_def Let_def)
  have lt: "?j < PB_MAX_REQUIRED_FIELDS \<longleftrightarrow> unat ?j < 64" by (simp add: word_less_nat_alt pb_consts)
  have eq: "unat ?j = i \<longleftrightarrow> unat ?j div 32 = i div 32 \<and> unat ?j mod 32 = i mod 32"
    by (metis div_mult_mod_eq)
  have bit: "bit (2 ^ k :: u32) l \<longleftrightarrow> k = l" if "l < 32" for k l
    using that by (auto simp: bit_simps)
  show "seen_bit (fields_seen (note_required v)) i \<longleftrightarrow> seen_bit (fields_seen v) i \<or>
      PB_HTYPE (ftype (cur (iter v))) = PB_HTYPE_REQUIRED \<and> unat ?j = i"
  proof (cases "PB_HTYPE (ftype (cur (iter v))) = PB_HTYPE_REQUIRED \<and> unat ?j < 64")
    case True
    then have seen: "fields_seen (note_required v) =
        (fields_seen v)[unat ?j div 32 := (fields_seen v ! (unat ?j div 32)) OR 2 ^ (unat ?j mod 32)]"
      by (simp add: note_required_def Let_def lt drop_5_and_31)
    have "unat ?j div 32 < 2" using True by (simp add: div_less_iff_less_mult)
    then show ?thesis
      using True assms eq unfolding seen seen_bit_def
      by (cases "unat ?j div 32 = i div 32") (auto simp: bit bit_or_iff)
  next
    case False
    then show ?thesis using assms(2) by (auto simp: note_required_def Let_def lt)
  qed
qed

lemma seen_after_bit:
  assumes "length (fields_seen v) = 2" and "i < 64"
  shows "length (seen_after v its) = 2 \<and> (seen_bit (seen_after v its) i \<longleftrightarrow> seen_bit (fields_seen v) i \<or>
    (\<exists>it \<in> set its. PB_HTYPE (ftype (cur it)) = PB_HTYPE_REQUIRED \<and> unat (required_field_index it) = i))"
  using assms(1) unfolding seen_after_def
proof (induction its arbitrary: v)
  case (Cons it its)
  have "length (fields_seen (note_required (v\<lparr>iter := it\<rparr>))) = 2"
    using Cons.prems assms(2) by (intro note_required_seen(1)) simp_all
  from Cons.IH [OF this] show ?case
    using note_required_seen(2) [of "v\<lparr>iter := it\<rparr>" i] Cons.prems assms(2) by auto
qed simp

lemma seen_start: "i < 64 \<Longrightarrow> \<not> seen_bit (fields_seen (noinit_start fs dest)) i"
proof -
  assume "i < 64"
  then have "i div 32 < 2" by (simp add: div_less_iff_less_mult)
  then have "i div 32 = 0 \<or> i div 32 = 1" by linarith
  then show ?thesis by (auto simp: seen_bit_def noinit_start_def)
qed

text \<open>Whole words of the array, and the part of a word at its end.\<close>

lemma all_in_words:
  "(\<forall>i < n. P i) \<longleftrightarrow> (\<forall>w < n div 32. \<forall>j < 32. P (32 * w + j)) \<and> (\<forall>j < n mod 32. P (32 * (n div 32) + j))" for n :: nat
proof (intro iffI conjI allI impI)
  fix i assume parts: "(\<forall>w < n div 32. \<forall>j < 32. P (32 * w + j)) \<and> (\<forall>j < n mod 32. P (32 * (n div 32) + j))" and "i < n"
  have i: "32 * (i div 32) + i mod 32 = i" and n: "32 * (n div 32) + n mod 32 = n" by simp_all
  have "i mod 32 < 32" "i div 32 \<le> n div 32" using \<open>i < n\<close> by (simp_all add: div_le_mono)
  moreover have "i mod 32 < n mod 32" if "i div 32 = n div 32" using i n \<open>i < n\<close> unfolding that by linarith
  ultimately have "P (32 * (i div 32) + i mod 32)" using parts by (metis le_neq_implies_less)
  then show "P i" by (simp only: i)
next
  fix w j assume all: "\<forall>i < n. P i" and "w < n div 32" "j < (32 :: nat)"
  then have "32 * w + j < 32 * (n div 32) + n mod 32" by linarith
  then show "P (32 * w + j)" using all by simp
next
  fix j assume all: "\<forall>i < n. P i" and "j < n mod 32"
  then have "32 * (n div 32) + j < 32 * (n div 32) + n mod 32" by linarith
  then show "P (32 * (n div 32) + j)" using all by simp
qed

lemma all_required_seen_iff:
  assumes "length seen = 2" and "unat count \<le> 64" and "\<And>i. i < 64 \<Longrightarrow> seen_bit seen i \<Longrightarrow> i < unat count"
  shows "all_required_seen seen count \<longleftrightarrow> (\<forall>i < unat count. seen_bit seen i)"
proof -
  let ?n = "unat count"
  let ?q = "?n div 32" and ?r = "?n mod 32"
  have n: "?n = 32 * ?q + ?r" by simp
  have whole: "seen ! w = - 1 \<longleftrightarrow> (\<forall>j < 32. seen_bit seen (32 * w + j))" for w
  proof
    assume "\<forall>j < 32. seen_bit seen (32 * w + j)"
    then show "seen ! w = - 1" by (intro bit_word_eqI) (auto simp: seen_bit_def)
  qed (simp add: seen_bit_def)
  have part: "seen ! ?q = drop_bit (32 - ?r) (- 1) \<longleftrightarrow> (\<forall>j < ?r. seen_bit seen (32 * ?q + j))" if "?r \<noteq> 0"
  proof
    assume eq: "seen ! ?q = drop_bit (32 - ?r) (- 1)"
    show "\<forall>j < ?r. seen_bit seen (32 * ?q + j)" using that by (auto simp: seen_bit_def eq bit_simps)
  next
    assume all: "\<forall>j < ?r. seen_bit seen (32 * ?q + j)"
    have "?q < 2" using n assms(2) that by presburger
    have high: "\<not> bit (seen ! ?q) j" if "?r \<le> j" "j < 32" for j
    proof -
      have "\<not> 32 * ?q + j < ?n" "32 * ?q + j < 64" using n that \<open>?q < 2\<close> by linarith+
      then show ?thesis using assms(3) [of "32 * ?q + j"] that by (auto simp: seen_bit_def)
    qed
    have high: "bit (seen ! ?q) j \<Longrightarrow> j < 32 \<Longrightarrow> j < ?r" for j using high [of j] by linarith
    show "seen ! ?q = drop_bit (32 - ?r) (- 1)"
      using all that high by (intro bit_word_eqI) (auto simp: seen_bit_def bit_simps not_le not_less)
  qed
  have "count AND 31 \<noteq> 0 \<longleftrightarrow> ?r \<noteq> 0" using drop_5_and_31(2) [of count] by (metis unat_eq_zero)
  then show ?thesis
    using part whole unfolding all_required_seen_def drop_5_and_31 all_in_words [of ?n "seen_bit seen"]
    by (auto simp: list_all_iff)
qed

text \<open>The number of elements with \<open>P\<close> before position \<open>i\<close> numbers these elements.\<close>

abbreviation rank :: "('a \<Rightarrow> bool) \<Rightarrow> 'a list \<Rightarrow> nat \<Rightarrow> nat" where
  "rank P xs i \<equiv> length (filter P (take i xs))"

lemma rank_less: "i < length xs \<Longrightarrow> P (xs ! i) \<Longrightarrow> rank P xs i < length (filter P xs)"
  by (subst (2) id_take_nth_drop [of i xs]) simp_all

lemma rank_mono: "i < k \<Longrightarrow> k \<le> length xs \<Longrightarrow> P (xs ! i) \<Longrightarrow> rank P xs i < rank P xs k"
  using rank_less [of i "take k xs" P] by (simp add: min_def)

lemma rank_inject:
  "i < length xs \<Longrightarrow> k < length xs \<Longrightarrow> P (xs ! i) \<Longrightarrow> P (xs ! k) \<Longrightarrow> rank P xs i = rank P xs k \<Longrightarrow> i = k"
  using rank_mono [of i k xs P] rank_mono [of k i xs P] by (cases i k rule: linorder_cases) auto

lemma rank_surj: "j < length (filter P xs) \<Longrightarrow> \<exists>i < length xs. P (xs ! i) \<and> rank P xs i = j"
proof (induction xs arbitrary: j)
  case (Cons x xs)
  show ?case
  proof (cases "P x \<and> j = 0")
    case False
    then have "j - (if P x then 1 else 0) < length (filter P xs)" using Cons.prems by (auto split: if_splits)
    from Cons.IH [OF this] obtain i where i: "i < length xs" "P (xs ! i)" "rank P xs i = j - (if P x then 1 else 0)" by blast
    then have "rank P (x # xs) (Suc i) = j" using False by (auto split: if_splits)
    then show ?thesis using i by (intro exI [of _ "Suc i"]) simp
  qed (auto intro: exI [of _ 0])
qed simp

definition is_required :: "pb_field \<Rightarrow> bool" where
  "is_required f \<longleftrightarrow> PB_HTYPE (ftype f) = PB_HTYPE_REQUIRED"

lemma required_index_at:
  assumes "wf_fields fs" and "no_oneofs fs" and "i < length fs"
  shows "required_field_index (iter_at fs dest i) = of_nat (rank is_required fs i)"
  using assms(3)
proof (induction i)
  case (Suc i)
  have pos: "pos (iter_at fs dest i) = i" using pos_iter_at [OF assms(1)] Suc.prems by simp
  have "PB_HTYPE (ftype (fs ! i)) \<noteq> PB_HTYPE_ONEOF"
    using assms(2) Suc.prems by (simp add: no_oneofs_def list_all_length)
  then show ?case
    using Suc next_step [of "iter_at fs dest i"] assms(1) pos
    by (simp add: Let_def take_Suc_conv_app_nth is_required_def)
qed simp

lemma required_index:
  assumes "on_entry fs dest it" and "no_oneofs fs"
  shows "required_field_index it = of_nat (rank is_required fs (pos it))"
  using assms required_index_at [of fs "pos it" dest]
  by (auto simp: on_entry_def exact_iter_def wf_iter_def Let_def)

lemma last_required_at:
  assumes "on_entry fs dest it"
  shows "\<exists>it1 it2. last_required it = (required_field_index it1, ftype (cur it1), it2) \<and>
    on_entry fs dest it1 \<and> pos it1 = length fs - 1 \<and> tag (cur it2) \<noteq> 0"
  using assms
proof (induction it rule: last_required.induct)
  case (1 it)
  then have it: "exact_iter it" "start it = fs" "dest_struct it = dest" "pos it < length fs" and wf: "wf_fields fs" "wf_iter it"
    by (auto simp: on_entry_def exact_iter_def wf_iter_def)
  define nx where "nx = snd (pb_field_iter_next it)"
  have nx: "pb_field_iter_next it = (Suc (pos it) < length fs, nx)"
    and pos: "pos nx = (if Suc (pos it) < length fs then Suc (pos it) else 0)"
    using next_pos [of it] it wf by (simp_all add: prod_eq_iff nx_def)
  have on: "on_entry fs dest nx" using exact_iter_next [OF wf(2)] it pos by (auto simp: on_entry_def nx_def)
  show ?case
  proof (cases "Suc (pos it) < length fs")
    case True
    from "1.IH" [OF nx [symmetric] True on] show ?thesis using True nx by (subst last_required.simps) simp
  next
    case False
    have "tag (cur nx) \<noteq> 0" using on wf(1) by (auto simp: on_entry_def wf_fields_def)
    then show ?thesis
      using False nx "1.prems" it(4) by (subst last_required.simps) (auto intro!: exI [of _ it])
  qed
qed

lemma required_count_exact:
  assumes "on_entry fs dest it" and "no_oneofs fs" and "length (filter is_required fs) \<le> 64"
  shows "unat (required_count it) = length (filter is_required fs)"
proof -
  obtain it1 it2 where l: "last_required it = (required_field_index it1, ftype (cur it1), it2)"
    and it1: "on_entry fs dest it1" "pos it1 = length fs - 1" and t: "tag (cur it2) \<noteq> 0"
    using last_required_at [OF assms(1)] by blast
  let ?k = "rank is_required fs (length fs - 1)"
  have ne: "fs \<noteq> []" using it1(1) by (auto simp: on_entry_def)
  then have cur: "cur it1 = last fs" using it1 last_conv_nth [OF ne] by (auto simp: on_entry_def)
  have "filter is_required fs = filter is_required (take (length fs - 1) fs) @ (if is_required (last fs) then [last fs] else [])"
    by (subst append_butlast_last_id [OF ne, symmetric], subst filter_append) (simp add: butlast_conv_take)
  then have len: "length (filter is_required fs) = ?k + (if is_required (last fs) then 1 else 0)" by simp
  have "required_field_index it1 = of_nat ?k" using required_index [OF it1(1) assms(2)] it1(2) by simp
  moreover have u: "unat (of_nat n :: u32) = n" if "n \<le> 64" for n using that by (intro unat_of_nat32) simp
  moreover have "unat (of_nat ?k + 1 :: u32) = Suc ?k" if "Suc ?k \<le> 64" using u [OF that] by (simp add: add.commute)
  ultimately have "unat (if PB_HTYPE (ftype (cur it1)) = PB_HTYPE_REQUIRED \<and> tag (cur it2) \<noteq> 0
      then required_field_index it1 + 1 else required_field_index it1) = length (filter is_required fs)"
    using len t assms(3) cur by (auto simp: is_required_def simp flip: of_nat_Suc)
  then show ?thesis
    using assms(3) l unfolding required_count_def by (simp add: Let_def word_less_nat_alt pb_consts split: if_splits)
qed

text \<open>C25: The check at the end of \<open>pb_decode_noinit\<close> passes exactly when every required field of the message has been
  read, for messages with up to 64 of them.  \<open>its\<close> are the iterators on the fields that were read, in any order and
  with repetitions; \<open>it\<close> is the iterator that the loop has ended with.\<close>

theorem required_fields_checked:
  assumes "no_oneofs fs" and "length (filter is_required fs) \<le> 64"
    and "on_entry fs dest it" and "\<forall>r \<in> set its. on_entry fs dest r"
  shows "all_required_seen (seen_after (noinit_start fs dest) its) (required_count it) \<longleftrightarrow>
    (\<forall>i < length fs. is_required (fs ! i) \<longrightarrow> (\<exists>r \<in> set its. pos r = i))"
proof -
  let ?seen = "seen_after (noinit_start fs dest) its" and ?rank = "rank is_required fs"
  have read: "is_required (cur r) \<longleftrightarrow> is_required (fs ! pos r)" "pos r < length fs"
    "is_required (fs ! pos r) \<Longrightarrow> unat (required_field_index r) = ?rank (pos r)" if "r \<in> set its" for r
    using assms(4) that required_index [of fs dest r, OF _ assms(1)] rank_less [of "pos r" fs is_required] assms(2)
    by (auto simp: on_entry_def unat_of_nat32)
  have bit: "seen_bit ?seen j \<longleftrightarrow> (\<exists>r \<in> set its. is_required (fs ! pos r) \<and> ?rank (pos r) = j)" if "j < 64" for j
  proof -
    have "seen_bit ?seen j \<longleftrightarrow> (\<exists>r \<in> set its. is_required (cur r) \<and> unat (required_field_index r) = j)"
      using seen_after_bit [of "noinit_start fs dest" j its] seen_start [OF that] that
      by (simp add: noinit_start_def is_required_def)
    then show ?thesis using read by metis
  qed
  have len: "length ?seen = 2" using seen_after_bit [of "noinit_start fs dest" 0 its] by (simp add: noinit_start_def)
  have count: "unat (required_count it) = length (filter is_required fs)" by (rule required_count_exact [OF assms(3,1,2)])
  have "all_required_seen ?seen (required_count it) \<longleftrightarrow> (\<forall>j < length (filter is_required fs). seen_bit ?seen j)"
    using len count assms(2) bit read(2) rank_less [of _ fs is_required]
    by (subst all_required_seen_iff) auto
  also have "\<dots> \<longleftrightarrow> (\<forall>i < length fs. is_required (fs ! i) \<longrightarrow> (\<exists>r \<in> set its. pos r = i))"
  proof (intro iffI allI impI)
    fix i assume all: "\<forall>j < length (filter is_required fs). seen_bit ?seen j" and i: "i < length fs" "is_required (fs ! i)"
    then have "?rank i < length (filter is_required fs)" by (simp add: rank_less)
    then obtain r where "r \<in> set its" "is_required (fs ! pos r)" "?rank (pos r) = ?rank i"
      using all bit [of "?rank i"] assms(2) by auto
    then show "\<exists>r \<in> set its. pos r = i" using rank_inject [of "pos r" fs i is_required] read(2) i by blast
  next
    fix j assume all: "\<forall>i < length fs. is_required (fs ! i) \<longrightarrow> (\<exists>r \<in> set its. pos r = i)"
      and j: "j < length (filter is_required fs)"
    obtain i where i: "i < length fs" "is_required (fs ! i)" "?rank i = j" using rank_surj [OF j] by blast
    then show "seen_bit ?seen j" using all bit [of j] j assms(2) by fastforce
  qed
  finally show ?thesis .
qed

text \<open>A message with a required, an optional and a required field, of which only the first, or all, have been read.\<close>

definition three_fields :: "pb_field list" where
  "three_fields =
     [\<lparr>tag = 1, ftype = PB_HTYPE_REQUIRED OR PB_LTYPE_VARINT, data_offset = 0, size_offset = 0, data_size = 4, array_size = 0, fptr = 0\<rparr>,
      \<lparr>tag = 2, ftype = PB_HTYPE_OPTIONAL OR PB_LTYPE_VARINT, data_offset = 0, size_offset = 0, data_size = 4, array_size = 0, fptr = 0\<rparr>,
      \<lparr>tag = 3, ftype = PB_HTYPE_REQUIRED OR PB_LTYPE_VARINT, data_offset = 0, size_offset = 0, data_size = 4, array_size = 0, fptr = 0\<rparr>]"

theorem required_fields_checked_witness:
  "\<not> all_required_seen (seen_after (noinit_start three_fields 16) [iter_at three_fields 16 0])
     (required_count (iter_at three_fields 16 0)) \<and>
   all_required_seen (seen_after (noinit_start three_fields 16) [iter_at three_fields 16 2, iter_at three_fields 16 0])
     (required_count (iter_at three_fields 16 0))"
proof -
  have req: "map is_required three_fields = [True, False, True]" "length three_fields = 3" "no_oneofs three_fields"
    and wf: "wf_fields three_fields" unfolding wf_fields_def by code_simp+
  have at: "on_entry three_fields 16 (iter_at three_fields 16 i) \<and> pos (iter_at three_fields 16 i) = i" if "i < 3" for i
    using that exact_iter_at [OF wf] pos_iter_at [OF wf] by (simp add: on_entry_def req(2) del: iter_at.simps)
  have "length (filter is_required three_fields) = length (filter id (map is_required three_fields))"
    by (simp add: filter_map o_def)
  then have count: "length (filter is_required three_fields) \<le> 64" unfolding req(1) by simp
  have "is_required (three_fields ! i) = map is_required three_fields ! i" if "i < 3" for i using that req(2) by simp
  then have some: "is_required (three_fields ! 2)" "\<not> is_required (three_fields ! 1)" unfolding req(1) by simp_all
  show ?thesis
    using required_fields_checked [OF req(3) count, of 16 "iter_at three_fields 16 0" "[iter_at three_fields 16 0]"]
      required_fields_checked [OF req(3) count, of 16 "iter_at three_fields 16 0" "[iter_at three_fields 16 2, iter_at three_fields 16 0]"]
      at [of 0] at [of 2] some
    by (auto simp: req(2) less_Suc_eq numeral_3_eq_3 numeral_2_eq_2 simp del: iter_at.simps)
qed

end
