(* ===== verification/Pb_Release.thy ===== *)
theory Pb_Release
  imports Pb_Decode_Safe Pb_Codec_Props
begin

text \<open>
  What \<open>pb_release_single_field\<close> of \<open>pb_decode.c\<close> does with a pointer: the blocks it gives back, the bytes it
  writes, and that a second call finds nothing to do.  Blocks and zeroed ranges are kept apart: a release is
  \<open>without\<close> some blocks on a memory with some ranges set to zero.
\<close>

section \<open>Ranges and zeroed memory\<close>









section \<open>The blocks of a pointer field\<close>

text \<open>The blocks that the entries of a repeated string or bytes field own, in the order they are freed.\<close>

definition has_entry_blocks :: "pb_field_iter \<Rightarrow> bool" where
  "has_entry_blocks it \<longleftrightarrow> PB_HTYPE (ftype (cur it)) = PB_HTYPE_REPEATED \<and>
     (PB_LTYPE (ftype (cur it)) = PB_LTYPE_STRING \<or> PB_LTYPE (ftype (cur it)) = PB_LTYPE_BYTES)"



text \<open>The memory after \<open>free\<close> of all the pointers; \<open>free(NULL)\<close> does nothing.\<close>

definition without :: "addr list \<Rightarrow> mem \<Rightarrow> mem" where
  "without ps m = m\<lparr>mblocks := filter (\<lambda>b. fst b = 0 \<or> fst b \<notin> set ps) (mblocks m)\<rparr>"


lemma without_simps [simp]:
  "mbytes (without ps m) = mbytes m" "load_bytes (without ps m) a n = load_bytes m a n"
  "without ps (without qs m) = without (qs @ ps) m"
  "memset0 (without ps m) a n = without ps (memset0 m a n)"
  by (auto simp: without_def load_bytes_def memset0_def store_bytes_def conj_commute intro!: mem.equality filter_cong)

lemma without_Nil [simp]: "without [] m = m"
  by (simp add: without_def)






definition pointer_array :: "pb_field_iter \<Rightarrow> mem \<Rightarrow> nat" where
  "pointer_array it m = (if has_entry_blocks it then 8 * unat (size_load it m) else 0)"


lemma pointer_array_bound: "pointer_array it m \<le> 2 ^ 64"
  using unsigned_less [of "size_load it m", where 'a = nat] by (simp add: pointer_array_def)

section \<open>Releasing a field\<close>






text \<open>A member that is no current one of its union is not touched.\<close>

lemma release_other_member:
  "PB_HTYPE (ftype (cur it)) = PB_HTYPE_ONEOF \<Longrightarrow> size_load it m \<noteq> tag (cur it) \<Longrightarrow>
     pb_release_single_field (Suc n) d it m = Some m"
  by (simp add: release_field_def Let_def)






end
