(* ===== verification/Pb_Table_Props.thy ===== *)
theory Pb_Table_Props
  imports Pb_Tables
begin

text \<open>Properties of the generated tables: the iterators find the members of the structures.\<close>

definition all_tables :: "(addr \<times> cstruct \<times> pb_field list \<times> string list \<times> u32 list) list" where
  "all_tables = cct_tables @ client_metrics_tables @ firebase_core_tables"

lemma all_tables_ok:
  "(a, st, fs, ms, ts) \<in> set all_tables \<Longrightarrow> describes st fs ms \<and> map tag fs = ts"
  using cct_ok metrics_ok core_ok unfolding list_all_iff all_tables_def by auto

text \<open>C27: In every generated table the entry at position \<open>i\<close> has the tag of the generated header, and an iterator that
  has stepped to it points to the member of that name, and to its \<open>has_\<close> or \<open>_count\<close> member (or to the member itself,
  when it has neither), wherever the structure is.\<close>

theorem struct_members_found:
  assumes "(a, st, fs, ms, ts) \<in> set all_tables" and "dest \<noteq> 0" and "i < length fs"
  shows "tag (fs ! i) = ts ! i \<and> pos (iter_at fs dest i) = i \<and>
    pData (iter_at fs dest i) = dest + of_int (offset_of st (ms ! i)) \<and>
    pSize (iter_at fs dest i) = PMem (dest + of_int (offset_of st (size_member (fs ! i) (ms ! i))))"
proof -
  have d: "describes st fs ms" and ts: "ts = map tag fs" using all_tables_ok [OF assms(1)] by auto
  show ?thesis
    using describes_addresses [OF d assms(2,3)] pos_iter_at [OF describes_wf [OF d] assms(3)] assms(3) by (simp add: ts)
qed

theorem struct_members_found_witness:
  "pData (iter_at gdt_cct_LogResponse_fields 4096 1) = 4120 \<and> pSize (iter_at gdt_cct_LogResponse_fields 4096 1) = PMem 4112"
proof -
  let ?ms = "[''next_request_wait_millis'', ''qos_tier'']"
  have m: "(gdt_cct_LogResponse_fields_at, gdt_cct_LogResponse, gdt_cct_LogResponse_fields, ?ms,
      [gdt_cct_LogResponse_next_request_wait_millis_tag, gdt_cct_LogResponse_qos_tier_tag]) \<in> set all_tables"
    by (simp add: all_tables_def cct_tables_def)
  have len: "1 < length gdt_cct_LogResponse_fields" by (simp add: table_entries)
  have n: "?ms ! 1 = ''qos_tier''" by simp
  have "offset_of gdt_cct_LogResponse ''qos_tier'' = 24"
    "offset_of gdt_cct_LogResponse (size_member (gdt_cct_LogResponse_fields ! 1) ''qos_tier'') = 16"
    unfolding table_entries by code_simp+
  note offs = this
  have dest: "(4096 :: addr) \<noteq> 0" by simp
  note found = struct_members_found [OF m dest len, unfolded n offs]
  have "(4096 :: addr) + of_int 24 = 4120" "(4096 :: addr) + of_int 16 = 4112" by simp_all
  with found show ?thesis by simp
qed

end
