(* ===== verification/Base64.thy ===== *)
theory Base64
  imports Pb_Prelude "HOL-Library.Char_ord"
begin

text \<open>
  The base64 codec \<open>fbase64.c\<close> that the web socket of the database client uses for its handshake, and
  its callers in \<open>NSData+SRB64Additions.m\<close> and \<open>FSRWebSocket.m\<close>.

  A source of \<open>srclength\<close> bytes is the list of these bytes; a C string is the list of the characters
  before its terminating NUL; a target is the list of the cells of the memory it points to, updated in
  place.  The result is the C \<open>int\<close>, at its 32 bits.
\<close>

type_synonym i32 = "32 word"

section \<open>Tables\<close>

definition Base64 :: string where
  "Base64 = ''ABCDEFGHIJKLMNOPQRSTUVWXYZabcdefghijklmnopqrstuvwxyz0123456789+/''"

definition Pad64 :: char where "Pad64 = CHR ''=''"

definition NUL :: char where "NUL = CHR 0x00"

text \<open>The standard library's \<open>isspace\<close> in the C locale and \<open>strchr (Base64, ch) - Base64\<close>.\<close>

definition isspace :: "char \<Rightarrow> bool" where
  "isspace c \<longleftrightarrow> c \<in> {CHR '' '', CHR 0x09, CHR 0x0A, CHR 0x0B, CHR 0x0C, CHR 0x0D}"

fun strchr_from :: "nat \<Rightarrow> string \<Rightarrow> char \<Rightarrow> nat option" where
  "strchr_from i [] ch = None"
| "strchr_from i (c # cs) ch = (if c = ch then Some i else strchr_from (Suc i) cs ch)"

definition strchr :: "string \<Rightarrow> char \<Rightarrow> nat option" where
  "strchr s ch = strchr_from 0 s ch"

section \<open>Encoding\<close>

definition b64char :: "byte \<Rightarrow> char" where
  "b64char x = Base64 ! unat x"

text \<open>The four output digits of an input group.\<close>

definition output0 :: "byte \<Rightarrow> byte" where "output0 a = drop_bit 2 a"
definition output1 :: "byte \<Rightarrow> byte \<Rightarrow> byte" where
  "output1 a b = push_bit 4 (a AND 0x03) + drop_bit 4 b"
definition output2 :: "byte \<Rightarrow> byte \<Rightarrow> byte" where
  "output2 b c = push_bit 2 (b AND 0x0f) + drop_bit 6 c"
definition output3 :: "byte \<Rightarrow> byte" where "output3 c = c AND 0x3f"

text \<open>\<open>target[datalength++] = x\<close> for the four characters of a group.\<close>

definition put4 :: "char list \<Rightarrow> size_t \<Rightarrow> char \<Rightarrow> char \<Rightarrow> char \<Rightarrow> char \<Rightarrow> char list" where
  "put4 target datalength w x y z =
     target[unat datalength := w, unat (datalength + 1) := x, unat (datalength + 2) := y,
            unat (datalength + 3) := z]"

text \<open>The \<open>while (2 < srclength)\<close> loop: what is left of the source, the new \<open>datalength\<close>, and the target.\<close>

fun ntop_groups :: "byte list \<Rightarrow> char list \<Rightarrow> size_t \<Rightarrow> size_t \<Rightarrow> (byte list \<times> size_t) option \<times> char list" where
  "ntop_groups (a # b # c # src) target targsize datalength =
     (if targsize < datalength + 4 then (None, target)
      else ntop_groups src
             (put4 target datalength (b64char (output0 a)) (b64char (output1 a b))
               (b64char (output2 b c)) (b64char (output3 c)))
             targsize (datalength + 4))"
| "ntop_groups src target targsize datalength = (Some (src, datalength), target)"

text \<open>The padding of the last one or two bytes.\<close>

definition ntop_padding :: "byte list \<Rightarrow> char list \<Rightarrow> size_t \<Rightarrow> size_t \<Rightarrow> size_t option \<times> char list" where
  "ntop_padding src target targsize datalength =
     (if length src \<noteq> 0 then
        (let input0 = (if 0 < length src then src ! 0 else 0);
             input1 = (if 1 < length src then src ! 1 else 0);
             input2 = (if 2 < length src then src ! 2 else 0)
         in if targsize < datalength + 4 then (None, target)
            else (Some (datalength + 4),
                  put4 target datalength (b64char (output0 input0)) (b64char (output1 input0 input1))
                    (if length src = 1 then Pad64 else b64char (output2 input1 input2)) Pad64))
      else (Some datalength, target))"

definition f_b64_ntop :: "byte list \<Rightarrow> char list \<Rightarrow> size_t \<Rightarrow> i32 \<times> char list" where
  "f_b64_ntop src target targsize =
     (case ntop_groups src target targsize 0 of
        (None, target) \<Rightarrow> (- 1, target)
      | (Some (rest, datalength), target) \<Rightarrow>
          (case ntop_padding rest target targsize datalength of
             (None, target) \<Rightarrow> (- 1, target)
           | (Some datalength, target) \<Rightarrow>
               if targsize \<le> datalength then (- 1, target)
               else (ucast datalength, target[unat datalength := NUL])))"

section \<open>Decoding\<close>

text \<open>
  The variables of \<open>f_b64_pton\<close>.  \<open>target\<close> is \<open>None\<close> for the null pointer, with which the function
  only counts.
\<close>

record pton_vars =
  tarindex :: u32
  state :: nat
  target :: "byte list option"

text \<open>\<open>target[i] = x\<close> and \<open>target[i] |= x\<close>.\<close>

definition store :: "byte list \<Rightarrow> u32 \<Rightarrow> byte \<Rightarrow> byte list" where
  "store t i x = t[unat i := x]"

definition store_or :: "byte list \<Rightarrow> u32 \<Rightarrow> byte \<Rightarrow> byte list" where
  "store_or t i x = t[unat i := t ! unat i OR x]"

text \<open>The \<open>switch (state)\<close> for one digit; \<open>None\<close> for \<open>return (-1)\<close>.\<close>

definition pton_digit :: "nat \<Rightarrow> size_t \<Rightarrow> pton_vars \<Rightarrow> pton_vars option" where
  "pton_digit digit targsize v =
     (let pos = of_nat digit :: byte; i = tarindex v in
      if state v = 0 then
        (case target v of
           None \<Rightarrow> Some (v\<lparr>state := 1\<rparr>)
         | Some t \<Rightarrow>
             if targsize \<le> ucast i then None
             else Some (v\<lparr>target := Some (store t i (push_bit 2 pos)), state := 1\<rparr>))
      else if state v = 1 then
        (case target v of
           None \<Rightarrow> Some (v\<lparr>tarindex := i + 1, state := 2\<rparr>)
         | Some t \<Rightarrow>
             if targsize \<le> ucast (i + 1) then None
             else Some (v\<lparr>target := Some (store (store_or t i (drop_bit 4 pos)) (i + 1)
                                            (push_bit 4 (pos AND 0x0f))),
                          tarindex := i + 1, state := 2\<rparr>))
      else if state v = 2 then
        (case target v of
           None \<Rightarrow> Some (v\<lparr>tarindex := i + 1, state := 3\<rparr>)
         | Some t \<Rightarrow>
             if targsize \<le> ucast (i + 1) then None
             else Some (v\<lparr>target := Some (store (store_or t i (drop_bit 2 pos)) (i + 1)
                                            (push_bit 6 (pos AND 0x03))),
                          tarindex := i + 1, state := 3\<rparr>))
      else
        (case target v of
           None \<Rightarrow> Some (v\<lparr>tarindex := i + 1, state := 0\<rparr>)
         | Some t \<Rightarrow>
             if targsize \<le> ucast i then None
             else Some (v\<lparr>target := Some (store_or t i pos), tarindex := i + 1, state := 0\<rparr>)))"

text \<open>The main loop: the last \<open>ch\<close> and the source behind it, or \<open>None\<close> for \<open>return (-1)\<close>.\<close>

fun pton_loop :: "string \<Rightarrow> size_t \<Rightarrow> pton_vars \<Rightarrow> (char \<times> string) option \<times> pton_vars" where
  "pton_loop [] targsize v = (Some (NUL, []), v)"
| "pton_loop (ch # src) targsize v =
     (if ch = NUL then (Some (NUL, []), v)
      else if isspace ch then pton_loop src targsize v
      else if ch = Pad64 then (Some (Pad64, src), v)
      else case strchr Base64 ch of
             None \<Rightarrow> (None, v)
           | Some digit \<Rightarrow>
               (case pton_digit digit targsize v of
                  None \<Rightarrow> (None, v)
                | Some v' \<Rightarrow> pton_loop src targsize v'))"

text \<open>\<open>ch = *src++\<close>.\<close>

definition next_char :: "string \<Rightarrow> char \<times> string" where
  "next_char src = (case src of [] \<Rightarrow> (NUL, []) | c # cs \<Rightarrow> (c, cs))"

text \<open>\<open>for (; ch != '\0'; ch = *src++) if (!isspace(ch)) break;\<close>\<close>

fun skip_spaces :: "char \<Rightarrow> string \<Rightarrow> char \<times> string" where
  "skip_spaces ch [] = (if ch \<noteq> NUL \<and> isspace ch then (NUL, []) else (ch, []))"
| "skip_spaces ch (c # src) = (if ch \<noteq> NUL \<and> isspace ch then skip_spaces c src else (ch, c # src))"

text \<open>The single trailing \<open>=\<close>: only white space may follow, and no bits may be left over.\<close>

definition pton_single_pad :: "char \<Rightarrow> string \<Rightarrow> pton_vars \<Rightarrow> bool" where
  "pton_single_pad ch src v \<longleftrightarrow>
     fst (skip_spaces ch src) = NUL \<and>
     (case target v of None \<Rightarrow> True | Some t \<Rightarrow> t ! unat (tarindex v) = 0)"

definition pton_pad :: "string \<Rightarrow> pton_vars \<Rightarrow> bool" where
  "pton_pad src v =
     (case next_char src of (ch, src) \<Rightarrow>
        if state v = 0 \<or> state v = 1 then False
        else if state v = 2 then
          (case skip_spaces ch src of (ch, src) \<Rightarrow>
             if ch \<noteq> Pad64 then False
             else (case next_char src of (ch, src) \<Rightarrow> pton_single_pad ch src v))
        else pton_single_pad ch src v)"

definition f_b64_pton :: "string \<Rightarrow> byte list option \<Rightarrow> size_t \<Rightarrow> i32 \<times> byte list option" where
  "f_b64_pton src tgt targsize =
     (case pton_loop src targsize \<lparr>tarindex = 0, state = 0, target = tgt\<rparr> of
        (None, v) \<Rightarrow> (- 1, target v)
      | (Some (ch, src), v) \<Rightarrow>
          if ch = Pad64 then (if pton_pad src v then tarindex v else - 1, target v)
          else (if state v = 0 then tarindex v else - 1, target v))"

section \<open>The callers\<close>

text \<open>
  \<open>base64EncodedStringFromData:\<close>; the fresh buffer of \<open>malloc\<close> holds unspecified characters,
  and \<open>nil\<close> is \<open>None\<close>.
\<close>

definition encode_buffer_size :: "size_t \<Rightarrow> size_t" where
  "encode_buffer_size n = (n * 3 + 2) div 2"

definition base64EncodedStringFromData :: "byte list \<Rightarrow> char list \<Rightarrow> string option" where
  "base64EncodedStringFromData bytes malloced =
     (case f_b64_ntop bytes malloced (encode_buffer_size (of_nat (length bytes))) of
        (len, buffer) \<Rightarrow> if len = - 1 then None else Some (take (unat len) buffer))"

definition CC_SHA1_DIGEST_LENGTH :: nat where "CC_SHA1_DIGEST_LENGTH = 20"

text \<open>\<open>newSHA1String\<close>; the digest function of the system library is a parameter.  It gets the length as an \<open>int\<close>, which
  \<open>CC_SHA1\<close> takes as 32 unsigned bits: of \<open>2^32\<close> bytes and more only a beginning is digested.\<close>

definition newSHA1String :: "(byte list \<Rightarrow> byte list) \<Rightarrow> byte list \<Rightarrow> char list \<Rightarrow> string option" where
  "newSHA1String CC_SHA1 bytes malloced =
     (let md = CC_SHA1 (take (unat (of_nat (length bytes) :: u32)) bytes) in
      case f_b64_ntop md malloced (encode_buffer_size (of_nat CC_SHA1_DIGEST_LENGTH)) of
        (len, buffer) \<Rightarrow> if len = - 1 then None else Some (take (unat len) buffer))"

end
