(* ===== verification/Base64_Codec.thy ===== *)
theory Base64_Codec
  imports Base64
begin

text \<open>
  Correctness of the base64 codec against RFC 4648: the encoder writes exactly the text of the
  specification \<open>base64_text\<close> and its NUL inside the target or reports that the target is too small; the
  decoder inverts it, accepts nothing but encodings (up to white space), and never writes outside its target.
\<close>

section \<open>Specification\<close>

text \<open>The 24-bit group of three bytes and its \<open>k\<close>-th digit in base 64.\<close>

definition group24 :: "byte \<Rightarrow> byte \<Rightarrow> byte \<Rightarrow> nat" where
  "group24 a b c = unat a * 65536 + unat b * 256 + unat c"

definition group_char :: "byte \<Rightarrow> byte \<Rightarrow> byte \<Rightarrow> nat \<Rightarrow> char" where
  "group_char a b c k = Base64 ! (group24 a b c div 64 ^ k mod 64)"

fun base64_text :: "byte list \<Rightarrow> string" where
  "base64_text (a # b # c # bs) = map (group_char a b c) [3, 2, 1, 0] @ base64_text bs"
| "base64_text [a, b] = map (group_char a b 0) [3, 2, 1] @ [Pad64]"
| "base64_text [a] = map (group_char a 0 0) [3, 2] @ [Pad64, Pad64]"
| "base64_text [] = []"

lemma length_base64_text: "length (base64_text bs) = 4 * ((length bs + 2) div 3)"
proof (induction bs rule: base64_text.induct)
  case (1 a b c bs)
  have "(length (a # b # c # bs) + 2) div 3 = Suc ((length bs + 2) div 3)"
    using div_add_self2 [of 3 "length bs + 2"] by (simp del: div_add_self2)
  then show ?case by (simp add: 1)
qed auto

section \<open>Digits\<close>

lemma unat_byte_less: "unat (a :: byte) < 256"
  using unsigned_less [of a, where 'a = nat] by simp

lemma unat_add_noovf: "unat x + unat y < 256 \<Longrightarrow> unat (x + y :: byte) = unat x + unat y"
  by (simp add: unat_word_ariths)

lemma unat_push: "unat (push_bit k (x :: byte)) = unat x * 2 ^ k mod 256"
  by (simp only: unsigned_push_bit_eq push_bit_eq_mult [where 'a = nat] take_bit_eq_mod) simp

lemma unat_take: "unat (take_bit k (x :: byte)) = unat x mod 2 ^ k"
  by (simp only: unsigned_take_bit_eq take_bit_eq_mod [where 'a = nat])

lemma unat_drop: "unat (drop_bit k (x :: byte)) = unat x div 2 ^ k"
  by (simp only: unat_drop_bit_eq drop_bit_eq_div [where 'a = nat])

lemma masks: "x AND 3 = take_bit 2 (x :: byte)" "x AND 0xF = take_bit 4 x" "x AND 0x3F = take_bit 6 x"
  by (simp_all add: take_bit_eq_mask mask_eq_exp_minus_1)

lemma unat_output:
  "unat (output0 a) = unat a div 4"
  "unat (output1 a b) = unat a mod 4 * 16 + unat b div 16"
  "unat (output2 b c) = unat b mod 16 * 4 + unat c div 64"
  "unat (output3 c) = unat c mod 64"
  using unat_byte_less [of a] unat_byte_less [of b] unat_byte_less [of c]
  by (simp_all add: output0_def output1_def output2_def output3_def masks unat_drop unat_take unat_push unat_word_ariths)

lemma digit_at:
  "n = (64 * q + d) * k + r \<Longrightarrow> d < 64 \<Longrightarrow> r < k \<Longrightarrow> n div k mod 64 = (d :: nat)"
  by simp

lemma output_digits:
  "unat (output0 a) = group24 a b c div 64 ^ 3 mod 64"
  "unat (output1 a b) = group24 a b c div 64 ^ 2 mod 64"
  "unat (output2 b c) = group24 a b c div 64 ^ 1 mod 64"
  "unat (output3 c) = group24 a b c div 64 ^ 0 mod 64"
proof -
  define x1 x0 y1 y0 z1 z0 where "x1 = unat a div 4" and "x0 = unat a mod 4"
    and "y1 = unat b div 16" and "y0 = unat b mod 16" and "z1 = unat c div 64" and "z0 = unat c mod 64"
  note xyz = this
  have lt: "x1 < 64" "x0 < 4" "y1 < 16" "y0 < 16" "z1 < 4" "z0 < 64"
    using unat_byte_less [of a] unat_byte_less [of b] unat_byte_less [of c] by (auto simp: xyz)
  have "unat a = 4 * x1 + x0" "unat b = 16 * y1 + y0" "unat c = 64 * z1 + z0"
    by (simp_all add: xyz)
  then have g: "group24 a b c = 262144 * x1 + 65536 * x0 + 4096 * y1 + 256 * y0 + 64 * z1 + z0"
    by (simp add: group24_def)
  have "group24 a b c div 262144 mod 64 = x1"
    by (rule digit_at [where q = 0 and r = "65536 * x0 + 4096 * y1 + 256 * y0 + 64 * z1 + z0"]) (use lt g in auto)
  moreover have "group24 a b c div 4096 mod 64 = 16 * x0 + y1"
    by (rule digit_at [where q = x1 and r = "256 * y0 + 64 * z1 + z0"]) (use lt g in auto)
  moreover have "group24 a b c div 64 mod 64 = 4 * y0 + z1"
    by (rule digit_at [where q = "64 * x1 + 16 * x0 + y1" and r = z0]) (use lt g in auto)
  moreover have "group24 a b c div 1 mod 64 = z0"
    by (rule digit_at [where q = "4096 * x1 + 1024 * x0 + 64 * y1 + 4 * y0 + z1" and r = 0]) (use lt g in auto)
  ultimately show "unat (output0 a) = group24 a b c div 64 ^ 3 mod 64"
    "unat (output1 a b) = group24 a b c div 64 ^ 2 mod 64"
    "unat (output2 b c) = group24 a b c div 64 ^ 1 mod 64"
    "unat (output3 c) = group24 a b c div 64 ^ 0 mod 64"
    by (simp_all add: unat_output xyz)
qed

lemma b64char_group:
  "b64char (output0 a) = group_char a b c 3"
  "b64char (output1 a b) = group_char a b c 2"
  "b64char (output2 b c) = group_char a b c 1"
  "b64char (output3 c) = group_char a b c 0"
  unfolding b64char_def group_char_def
  by (simp_all only: output_digits [where a = a and b = b and c = c])

section \<open>The encoder\<close>

definition ntop_run :: "byte list \<Rightarrow> char list \<Rightarrow> size_t \<Rightarrow> size_t \<Rightarrow> size_t option \<times> char list" where
  "ntop_run src buf targsize d =
     (case ntop_groups src buf targsize d of
        (None, buf) \<Rightarrow> (None, buf)
      | (Some (rest, d'), buf) \<Rightarrow> ntop_padding rest buf targsize d')"

lemma length_put4 [simp]: "length (put4 t d w x y z) = length t"
  by (simp add: put4_def)

lemma unat_step:
  "unat d + n \<le> unat (ts :: size_t) \<Longrightarrow> unat ts < 2 ^ 63 \<Longrightarrow> n < 2 ^ 63 \<Longrightarrow> unat (d + of_nat n :: size_t) = unat d + n"
  by (simp add: unat_word_ariths unat_of_nat64)

lemma take_update4:
  assumes "k + 4 \<le> length t"
  shows "take (k + 4) (t[k := w, k + 1 := x, k + 2 := y, k + 3 := z]) = take k t @ [w, x, y, z]"
  using assms by (intro nth_equalityI) (auto simp: nth_append nth_list_update nth_Cons' split: if_splits)

lemma put4_room:
  fixes ts :: size_t
  assumes "unat d + 4 \<le> unat ts" "unat ts \<le> length t" "unat ts < 2 ^ 63"
  shows "put4 t d w x y z = t[unat d := w, unat d + 1 := x, unat d + 2 := y, unat d + 3 := z]"
  using assms unat_step [of d 1 ts] unat_step [of d 2 ts] unat_step [of d 3 ts]
  by (simp add: put4_def)

lemma put4_take:
  fixes ts :: size_t
  assumes "unat d + 4 \<le> unat ts" "unat ts \<le> length t" "unat ts < 2 ^ 63"
  shows "take (unat d + 4) (put4 t d w x y z) = take (unat d) t @ [w, x, y, z]"
  using take_update4 [of "unat d" t] assms by (simp add: put4_room [OF assms])

lemma put4_drop:
  fixes ts :: size_t
  assumes "unat d + 4 \<le> unat ts" "unat ts \<le> length t" "unat ts < 2 ^ 63" "unat d + 4 \<le> n"
  shows "drop n (put4 t d w x y z) = drop n t"
  using assms(4) by (simp add: put4_room [OF assms(1-3)])

lemma room4: "unat ts < 2 ^ 63 \<Longrightarrow> unat d \<le> unat ts \<Longrightarrow> (ts :: size_t) < d + 4 \<longleftrightarrow> unat ts < unat d + 4"
  by (simp add: word_less_nat_alt unat_word_ariths)

lemma ntop_groups_step:
  assumes "unat d \<le> unat ts" "unat ts < 2 ^ 63"
  shows "ntop_run (a # b # c # src) t ts d =
    (if unat ts < unat d + 4 then (None, t)
     else ntop_run src (put4 t d (group_char a b c 3) (group_char a b c 2) (group_char a b c 1)
            (group_char a b c 0)) ts (d + 4))"
  using assms by (simp add: ntop_run_def room4 b64char_group [where a = a and b = b and c = c])

lemma ntop_last_step:
  assumes "unat d \<le> unat ts" "unat ts < 2 ^ 63"
  shows "ntop_run [a, b] t ts d =
      (if unat ts < unat d + 4 then (None, t)
       else (Some (d + 4), put4 t d (group_char a b 0 3) (group_char a b 0 2) (group_char a b 0 1) Pad64))"
    (is ?two)
    and "ntop_run [a] t ts d =
      (if unat ts < unat d + 4 then (None, t)
       else (Some (d + 4), put4 t d (group_char a 0 0 3) (group_char a 0 0 2) Pad64 Pad64))"
    (is ?one)
    and "ntop_run [] t ts d = (Some d, t)"
proof -
  show ?two
    using assms by (simp add: ntop_run_def ntop_padding_def room4 b64char_group [where a = a and b = b and c = 0])
  show ?one
    using assms by (simp add: ntop_run_def ntop_padding_def room4 b64char_group [where a = a and b = 0 and c = 0])
qed (simp add: ntop_run_def ntop_padding_def)

lemma ntop_run_ok:
  assumes "unat d + length (base64_text src) \<le> unat ts" "unat ts \<le> length t" "unat ts < 2 ^ 63"
  shows "\<exists>t'. ntop_run src t ts d = (Some (d + of_nat (length (base64_text src))), t') \<and> length t' = length t \<and>
    take (unat d + length (base64_text src)) t' = take (unat d) t @ base64_text src \<and>
    drop (unat d + length (base64_text src)) t' = drop (unat d + length (base64_text src)) t"
  using assms
proof (induction src arbitrary: t d rule: base64_text.induct)
  case (1 a b c src)
  let ?L = "length (base64_text src)"
  let ?t = "put4 t d (group_char a b c 3) (group_char a b c 2) (group_char a b c 1) (group_char a b c 0)"
  from 1(2) have room: "unat d + 4 \<le> unat ts" and rest: "unat d + 4 + ?L \<le> unat ts" by simp_all
  have d4: "unat (d + 4) = unat d + 4"
    using unat_step [of d 4 ts] room 1(4) by simp
  obtain t' where t': "ntop_run src ?t ts (d + 4) = (Some (d + 4 + of_nat ?L), t')" "length t' = length t"
    "take (unat d + 4 + ?L) t' = take (unat d + 4) ?t @ base64_text src"
    "drop (unat d + 4 + ?L) t' = drop (unat d + 4 + ?L) ?t"
    using 1(1) [of "d + 4" ?t] rest 1(3,4) by (auto simp: d4)
  have "take (unat d + 4) ?t = take (unat d) t @ map (group_char a b c) [3, 2, 1, 0]"
    using put4_take [OF room 1(3,4)] by simp
  moreover have "drop (unat d + 4 + ?L) ?t = drop (unat d + 4 + ?L) t"
    by (rule put4_drop [OF room 1(3,4)]) simp
  moreover have len: "length (base64_text (a # b # c # src)) = 4 + ?L" by simp
  ultimately show ?case
    unfolding len using t' room 1(4)
    by (simp add: ntop_groups_step add.assoc)
next
  case (2 a b)
  have len: "length (base64_text [a, b]) = 4" by simp
  show ?case
    using 2 unfolding len by (simp add: ntop_last_step put4_take put4_drop)
next
  case (3 a)
  have len: "length (base64_text [a]) = 4" by simp
  show ?case
    using 3 unfolding len by (simp add: ntop_last_step put4_take put4_drop)
qed (simp add: ntop_last_step)

lemma ntop_run_full:
  assumes "unat d \<le> unat ts" "unat ts < unat d + length (base64_text src)" "unat ts \<le> length t" "unat ts < 2 ^ 63"
  shows "\<exists>t'. ntop_run src t ts d = (None, t') \<and> length t' = length t \<and> drop (unat ts) t' = drop (unat ts) t"
  using assms
proof (induction src arbitrary: t d rule: base64_text.induct)
  case (1 a b c src)
  let ?t = "put4 t d (group_char a b c 3) (group_char a b c 2) (group_char a b c 1) (group_char a b c 0)"
  show ?case
  proof (cases "unat ts < unat d + 4")
    case True
    then show ?thesis using 1(2,5) by (simp add: ntop_groups_step)
  next
    case False
    then have d4: "unat (d + 4) = unat d + 4"
      using unat_step [of d 4 ts] 1(5) by simp
    have "\<exists>t'. ntop_run src ?t ts (d + 4) = (None, t') \<and> length t' = length ?t \<and> drop (unat ts) t' = drop (unat ts) ?t"
      using 1(1) [of "d + 4" ?t] 1(3-5) False by (simp add: d4)
    moreover have "drop (unat ts) ?t = drop (unat ts) t"
      by (rule put4_drop) (use False 1(4,5) in simp_all)
    ultimately show ?thesis
      using False 1(2,5) by (simp add: ntop_groups_step)
  qed
qed (auto simp: ntop_last_step)

lemma ntop_alt:
  "f_b64_ntop src t ts =
     (case ntop_run src t ts 0 of
        (None, t) \<Rightarrow> (- 1, t)
      | (Some d, t) \<Rightarrow> if ts \<le> d then (- 1, t) else (ucast d, t[unat d := NUL]))"
  by (auto simp: f_b64_ntop_def ntop_run_def split: prod.splits option.splits)

lemma ntop_ok:
  assumes "length (base64_text src) < unat ts" "unat ts \<le> length t" "unat ts < 2 ^ 63"
  obtains t' where "f_b64_ntop src t ts = (of_nat (length (base64_text src)), t')" and "length t' = length t"
    and "take (length (base64_text src)) t' = base64_text src"
    and "t' ! length (base64_text src) = NUL"
    and "drop (Suc (length (base64_text src))) t' = drop (Suc (length (base64_text src))) t"
proof -
  let ?L = "length (base64_text src)"
  obtain t' where t': "ntop_run src t ts 0 = (Some (of_nat ?L), t')" "length t' = length t"
    "take ?L t' = base64_text src" "drop ?L t' = drop ?L t"
    using ntop_run_ok [of 0 src ts t] assms by auto
  have L: "unat (of_nat ?L :: size_t) = ?L"
    using assms by (intro unat_of_nat64) simp
  have "ucast (of_nat ?L :: size_t) = (of_nat (unat (of_nat ?L :: size_t)) :: i32)"
    by (simp only: of_nat_unat)
  then have "f_b64_ntop src t ts = (of_nat ?L, t'[?L := NUL])"
    using assms L by (simp add: ntop_alt t'(1) word_le_nat_alt)
  moreover have "drop (Suc ?L) t' = drop (Suc ?L) t"
    using arg_cong [OF t'(4), of "drop 1"] by simp
  ultimately show thesis
    using that [of "t'[?L := NUL]"] t' assms by simp
qed

lemma ntop_full:
  assumes "unat ts \<le> length (base64_text src)" "unat ts \<le> length t" "unat ts < 2 ^ 63"
  obtains t' where "f_b64_ntop src t ts = (- 1, t')" and "length t' = length t"
    and "drop (unat ts) t' = drop (unat ts) t"
proof (cases "unat ts = length (base64_text src)")
  case True
  obtain t' where t': "ntop_run src t ts 0 = (Some (of_nat (unat ts)), t')" "length t' = length t"
    "drop (unat ts) t' = drop (unat ts) t"
    using ntop_run_ok [of 0 src ts t] assms True by auto
  then have "f_b64_ntop src t ts = (- 1, t')"
    by (simp add: ntop_alt)
  then show thesis using that t' by blast
next
  case False
  obtain t' where "ntop_run src t ts 0 = (None, t')" "length t' = length t" "drop (unat ts) t' = drop (unat ts) t"
    using ntop_run_full [of 0 ts src t] assms False by auto
  then show thesis using that by (simp add: ntop_alt)
qed

section \<open>The decoder\<close>

text \<open>The alphabet and its inverse.\<close>

lemma Base64_digits:
  "\<forall>d \<in> set [0..<64]. strchr Base64 (Base64 ! d) = Some d \<and> Base64 ! d \<noteq> NUL \<and> Base64 ! d \<noteq> Pad64 \<and>
     \<not> isspace (Base64 ! d)"
  by code_simp

lemma Base64_digit:
  assumes "d < 64"
  shows "strchr Base64 (Base64 ! d) = Some d" "Base64 ! d \<noteq> NUL" "Base64 ! d \<noteq> Pad64" "\<not> isspace (Base64 ! d)"
  using Base64_digits assms by auto

lemma strchr_from_Some: "strchr_from i s c = Some d \<Longrightarrow> i \<le> d \<and> d < i + length s \<and> s ! (d - i) = c"
proof (induction s arbitrary: i)
  case (Cons x s)
  show ?case
  proof (cases "x = c")
    case False
    then have "Suc i \<le> d \<and> d < Suc i + length s \<and> s ! (d - Suc i) = c"
      using Cons.prems Cons.IH [of "Suc i"] by simp
    then show ?thesis by (auto simp: nth_Cons' Suc_le_eq)
  qed (use Cons.prems in auto)
qed simp

lemma strchr_Base64:
  assumes "strchr Base64 c = Some d"
  shows "d < 64" and "c = Base64 ! d"
proof -
  have "length Base64 = 64" by code_simp
  then show "d < 64" and "c = Base64 ! d"
    using strchr_from_Some [OF assms [unfolded strchr_def]] by auto
qed

text \<open>The bytes that four digits make up.\<close>

definition dec0 :: "byte \<Rightarrow> byte \<Rightarrow> byte" where "dec0 d0 d1 = push_bit 2 d0 OR drop_bit 4 d1"
definition dec1 :: "byte \<Rightarrow> byte \<Rightarrow> byte" where "dec1 d1 d2 = push_bit 4 (d1 AND 0x0f) OR drop_bit 2 d2"
definition dec2 :: "byte \<Rightarrow> byte \<Rightarrow> byte" where "dec2 d2 d3 = push_bit 6 (d2 AND 0x03) OR d3"

lemma output_or:
  "output1 a b = push_bit 4 (take_bit 2 a) OR drop_bit 4 b"
  "output2 b c = push_bit 2 (take_bit 4 b) OR drop_bit 6 c"
proof -
  show "output1 a b = push_bit 4 (take_bit 2 a) OR drop_bit 4 b"
    unfolding output1_def masks
    by (rule disjunctive_add) (auto simp: bit_simps dest: bit_imp_le_length)
  show "output2 b c = push_bit 2 (take_bit 4 b) OR drop_bit 6 c"
    unfolding output2_def masks
    by (rule disjunctive_add) (auto simp: bit_simps dest: bit_imp_le_length)
qed

lemma byte_eqI:
  assumes "bit x 0 = bit y 0" "bit x 1 = bit y 1" "bit x 2 = bit y 2" "bit x 3 = bit y 3"
    "bit x 4 = bit y 4" "bit x 5 = bit y 5" "bit x 6 = bit y 6" "bit x 7 = bit (y :: byte) 7"
  shows "x = y"
proof (rule bit_word_eqI)
  fix n assume "n < LENGTH(8)"
  then have "n = 0 \<or> n = 1 \<or> n = 2 \<or> n = 3 \<or> n = 4 \<or> n = 5 \<or> n = 6 \<or> n = 7" by auto
  with assms show "bit x n = bit y n" by (elim disjE) simp_all
qed

lemma dec_output:
  "dec0 (output0 a) (output1 a b) = a"
  "dec1 (output1 a b) (output2 b c) = b"
  "dec2 (output2 b c) (output3 c) = c"
  unfolding dec0_def dec1_def dec2_def output_or output0_def output3_def masks
  by (rule byte_eqI; simp add: bit_simps)+

lemma small_digit: "d < 64 \<Longrightarrow> take_bit 6 (of_nat d :: byte) = of_nat d"
  by (simp add: take_bit_of_nat take_bit_nat_eq_self)

lemma bit_byte_high: "8 \<le> n \<Longrightarrow> \<not> bit (d :: byte) n"
  by (auto dest: bit_imp_le_length)

lemma no_bits: "take_bit 6 (d :: byte) = d \<Longrightarrow> \<not> bit d 6 \<and> \<not> bit d 7"
  using take_bit_self_bit [of 6 d 6] take_bit_self_bit [of 6 d 7] by auto

lemma output_dec:
  assumes "take_bit 6 d0 = d0" "take_bit 6 d1 = d1" "take_bit 6 d2 = d2" "take_bit 6 d3 = d3"
  shows "output0 (dec0 d0 d1) = d0" "output1 (dec0 d0 d1) (dec1 d1 d2) = d1"
    "output2 (dec1 d1 d2) (dec2 d2 d3) = d2" "output3 (dec2 d2 d3) = d3"
  using no_bits [OF assms(1)] no_bits [OF assms(2)] no_bits [OF assms(3)] no_bits [OF assms(4)]
  unfolding dec0_def dec1_def dec2_def output_or output0_def output3_def masks
  by (auto intro!: byte_eqI simp: bit_simps bit_byte_high)

section \<open>Decoding text\<close>

definition pton_from :: "string \<Rightarrow> size_t \<Rightarrow> pton_vars \<Rightarrow> i32 \<times> byte list option" where
  "pton_from src targsize v =
     (case pton_loop src targsize v of
        (None, v) \<Rightarrow> (- 1, target v)
      | (Some (ch, src), v) \<Rightarrow>
          if ch = Pad64 then (if pton_pad src v then tarindex v else - 1, target v)
          else (if state v = 0 then tarindex v else - 1, target v))"

lemma pton_alt: "f_b64_pton src tgt ts = pton_from src ts \<lparr>tarindex = 0, state = 0, target = tgt\<rparr>"
  by (simp add: f_b64_pton_def pton_from_def)

lemma NUL_Pad64 [simp]: "NUL \<noteq> Pad64" "Pad64 \<noteq> NUL" "\<not> isspace NUL" "\<not> isspace Pad64"
  by code_simp+

lemma pton_from_end: "pton_from [] ts v = (if state v = 0 then tarindex v else - 1, target v)"
  by (simp add: pton_from_def)

lemma pton_from_pad: "pton_from (Pad64 # src) ts v = (if pton_pad src v then tarindex v else - 1, target v)"
  by (simp add: pton_from_def)

lemma pton_from_char:
  assumes "c \<noteq> NUL" "\<not> isspace c" "c \<noteq> Pad64"
  shows "pton_from (c # src) ts v =
    (case strchr Base64 c of
       None \<Rightarrow> (- 1, target v)
     | Some d \<Rightarrow> (case pton_digit d ts v of None \<Rightarrow> (- 1, target v) | Some v' \<Rightarrow> pton_from src ts v'))"
  using assms by (simp add: pton_from_def split: option.splits)

lemma pton_from_digit:
  assumes "d < 64"
  shows "pton_from (Base64 ! d # src) ts v =
    (case pton_digit d ts v of None \<Rightarrow> (- 1, target v) | Some v' \<Rightarrow> pton_from src ts v')"
  using Base64_digit [OF assms] by (simp add: pton_from_char)

text \<open>The states in the middle of a group at index \<open>k\<close>: one, two or three digits read.\<close>

definition pton0 :: "u32 \<Rightarrow> byte list \<Rightarrow> pton_vars" where
  "pton0 k t = \<lparr>tarindex = k, state = 0, target = Some t\<rparr>"
definition pton1 :: "u32 \<Rightarrow> byte list \<Rightarrow> byte \<Rightarrow> pton_vars" where
  "pton1 k t d0 = \<lparr>tarindex = k, state = 1, target = Some (t[unat k := push_bit 2 d0])\<rparr>"
definition pton2 :: "u32 \<Rightarrow> byte list \<Rightarrow> byte \<Rightarrow> byte \<Rightarrow> pton_vars" where
  "pton2 k t d0 d1 = \<lparr>tarindex = k + 1, state = 2,
     target = Some (t[unat k := dec0 d0 d1, unat k + 1 := push_bit 4 (d1 AND 0x0f)])\<rparr>"
definition pton3 :: "u32 \<Rightarrow> byte list \<Rightarrow> byte \<Rightarrow> byte \<Rightarrow> byte \<Rightarrow> pton_vars" where
  "pton3 k t d0 d1 d2 = \<lparr>tarindex = k + 2, state = 3,
     target = Some (t[unat k := dec0 d0 d1, unat k + 1 := dec1 d1 d2, unat k + 2 := push_bit 6 (d2 AND 0x03)])\<rparr>"

lemma pton_digits:
  assumes ts: "unat ts < 2 ^ 31" "unat ts \<le> length t" and k: "unat k \<le> unat ts"
  shows "pton_digit d ts (pton0 k t) = (if unat k < unat ts then Some (pton1 k t (of_nat d)) else None)"
    and "pton_digit d ts (pton1 k t d0) =
      (if unat k + 1 < unat ts then Some (pton2 k t d0 (of_nat d)) else None)"
    and "unat k + 1 < unat ts \<Longrightarrow> pton_digit d ts (pton2 k t d0 d1) =
      (if unat k + 2 < unat ts then Some (pton3 k t d0 d1 (of_nat d)) else None)"
    and "unat k + 2 < unat ts \<Longrightarrow> pton_digit d ts (pton3 k t d0 d1 d2) =
      Some (pton0 (k + 3) (t[unat k := dec0 d0 d1, unat k + 1 := dec1 d1 d2, unat k + 2 := dec2 d2 (of_nat d)]))"
proof -
  have k1: "unat (k + 1) = unat k + 1" and k2: "unat (k + 2) = unat k + 2"
    using ts k by (simp_all add: unat_word_ariths)
  then have k2': "unat (2 + k) = unat k + 2" by (simp add: add.commute)
  have k3: "1 + (2 + k) = k + 3" by simp
  show "pton_digit d ts (pton0 k t) = (if unat k < unat ts then Some (pton1 k t (of_nat d)) else None)"
    by (auto simp: pton_digit_def pton0_def pton1_def store_def word_le_nat_alt)
  show "pton_digit d ts (pton1 k t d0) =
      (if unat k + 1 < unat ts then Some (pton2 k t d0 (of_nat d)) else None)"
    using ts k1 by (auto simp: pton_digit_def pton1_def pton2_def store_def store_or_def Let_def dec0_def word_le_nat_alt)
  show "unat k + 1 < unat ts \<Longrightarrow> pton_digit d ts (pton2 k t d0 d1) =
      (if unat k + 2 < unat ts then Some (pton3 k t d0 d1 (of_nat d)) else None)"
    using ts k1 k2 k2' by (auto simp: pton_digit_def pton2_def pton3_def store_def store_or_def Let_def dec1_def word_le_nat_alt)
  show "unat k + 2 < unat ts \<Longrightarrow> pton_digit d ts (pton3 k t d0 d1 d2) =
      Some (pton0 (k + 3) (t[unat k := dec0 d0 d1, unat k + 1 := dec1 d1 d2, unat k + 2 := dec2 d2 (of_nat d)]))"
    using ts k1 k2 k3 by (auto simp: pton_digit_def pton0_def pton3_def store_def store_or_def Let_def dec2_def word_le_nat_alt)
qed

lemma pton_pad_states:
  assumes "state v = 2 \<or> state v = 3" "state v = 2 \<Longrightarrow> src = [Pad64]" "state v = 3 \<Longrightarrow> src = []" and "target v = Some t"
  shows "pton_pad src v \<longleftrightarrow> t ! unat (tarindex v) = 0"
  using assms by (auto simp: pton_pad_def pton_single_pad_def next_char_def)

lemma pton_group:
  assumes "unat ts < 2 ^ 31" "unat ts \<le> length t" "unat k + 3 \<le> unat ts"
    and "d0 < 64" "d1 < 64" "d2 < 64" "d3 < 64"
  shows "pton_from (Base64 ! d0 # Base64 ! d1 # Base64 ! d2 # Base64 ! d3 # src) ts (pton0 k t) =
    pton_from src ts (pton0 (k + 3) (t[unat k := dec0 (of_nat d0) (of_nat d1),
      unat k + 1 := dec1 (of_nat d1) (of_nat d2), unat k + 2 := dec2 (of_nat d2) (of_nat d3)]))"
  using assms by (simp add: pton_from_digit pton_digits)

lemma group_char_output:
  "group_char a b c 3 = Base64 ! unat (output0 a)" "group_char a b c 2 = Base64 ! unat (output1 a b)"
  "group_char a b c 1 = Base64 ! unat (output2 b c)" "group_char a b c 0 = Base64 ! unat (output3 c)"
  "group_char a b c (Suc 0) = Base64 ! unat (output2 b c)"
  by (simp_all only: b64char_group [where a = a and b = b and c = c, symmetric] b64char_def One_nat_def [symmetric])

lemma output_less:
  "unat (output0 a) < 64" "unat (output1 a b) < 64" "unat (output2 b c) < 64" "unat (output3 c) < 64"
  unfolding output_digits [where a = a and b = b and c = c] by simp_all

lemma take_update3:
  assumes "k + 3 \<le> length t"
  shows "take (k + 3) (t[k := x, k + 1 := y, k + 2 := z]) = take k t @ [x, y, z]"
  using assms by (intro nth_equalityI) (auto simp: nth_append nth_list_update nth_Cons' split: if_splits)

lemma pton_text:
  assumes "unat k + length bs < unat ts" "unat ts \<le> length t" "unat ts < 2 ^ 31"
  shows "\<exists>t'. pton_from (base64_text bs) ts (pton0 k t) = (k + of_nat (length bs), Some t') \<and>
    length t' = length t \<and> take (unat k + length bs) t' = take (unat k) t @ bs"
  using assms
proof (induction bs arbitrary: k t rule: base64_text.induct)
  case (1 a b c bs)
  let ?t = "t[unat k := a, unat k + 1 := b, unat k + 2 := c]"
  have k3: "unat (k + 3) = unat k + 3"
    using 1(2-4) by (simp add: unat_word_ariths)
  have "pton_from (base64_text (a # b # c # bs)) ts (pton0 k t) = pton_from (base64_text bs) ts (pton0 (k + 3) ?t)"
    using pton_group [of ts t k "unat (output0 a)" "unat (output1 a b)" "unat (output2 b c)" "unat (output3 c)"]
      1(2-4) by (simp add: group_char_output output_less dec_output)
  moreover obtain t' where "pton_from (base64_text bs) ts (pton0 (k + 3) ?t) = (k + 3 + of_nat (length bs), Some t')"
    "length t' = length t" "take (unat k + 3 + length bs) t' = take (unat k + 3) ?t @ bs"
    using 1(1) [of "k + 3" ?t] 1(2-4) by (auto simp: k3)
  moreover have len: "length (a # b # c # bs) = 3 + length bs" by simp
  ultimately show ?case
    unfolding len using take_update3 [of "unat k" t a b c] 1(2-4)
    by (auto simp: add.assoc)
next
  case (2 a b)
  let ?d0 = "output0 a" and ?d1 = "output1 a b" and ?d2 = "output2 b 0"
  have k2: "unat (k + 2) = unat k + 2"
    using 2 by (simp add: unat_word_ariths)
  have z: "push_bit 6 (?d2 AND 0x03) = 0"
    unfolding output_or masks by (rule byte_eqI; simp add: bit_simps)
  let ?t = "t[unat k := a, unat k + 1 := b, unat k + 2 := 0]"
  have "pton_from (base64_text [a, b]) ts (pton0 k t) = (k + 2, Some ?t)"
    using 2 k2 z pton_pad_states [of "pton3 k t ?d0 ?d1 ?d2" "[]"]
    by (simp add: group_char_output pton_from_digit output_less pton_digits pton_from_pad)
      (simp add: pton3_def dec_output)
  moreover have "take (unat k + 2) ?t = take (unat k) t @ [a, b]"
    using arg_cong [OF take_update3 [of "unat k" t a b 0], of "take (unat k + 2)"] 2 by (simp add: min_def)
  moreover have len: "length [a, b] = 2" by simp
  ultimately show ?case unfolding len by auto
next
  case (3 a)
  let ?d0 = "output0 a" and ?d1 = "output1 a 0"
  have k1: "unat (k + 1) = unat k + 1"
    using 3 by (simp add: unat_word_ariths)
  have z: "push_bit 4 (?d1 AND 0x0f) = 0"
    unfolding output_or masks by (rule byte_eqI; simp add: bit_simps)
  let ?t = "t[unat k := a, unat k + 1 := 0]"
  have "pton_from (base64_text [a]) ts (pton0 k t) = (k + 1, Some ?t)"
    using 3 k1 z pton_pad_states [of "pton2 k t ?d0 ?d1" "[Pad64]"]
    by (simp add: group_char_output pton_from_digit output_less pton_digits pton_from_pad)
      (simp add: pton2_def dec_output)
  moreover have "take (unat k + 1) ?t = take (unat k) t @ [a]"
    using 3 by (simp add: take_Suc_conv_app_nth)
  ultimately show ?case by auto
qed (auto simp: pton_from_end pton0_def)

section \<open>Only encodings are accepted\<close>

abbreviation no_space :: "string \<Rightarrow> string" where
  "no_space \<equiv> filter (\<lambda>c. \<not> isspace c)"

lemma skip_spaces_drop:
  "NUL \<notin> set (ch # src) \<Longrightarrow> skip_spaces ch src = next_char (dropWhile isspace (ch # src))"
  by (induction ch src rule: skip_spaces.induct) (auto simp: next_char_def)

lemma skip_next: "NUL \<notin> set src \<Longrightarrow>
    (case next_char src of (ch, src') \<Rightarrow> skip_spaces ch src') = next_char (dropWhile isspace src)"
  by (cases src) (auto simp: next_char_def skip_spaces_drop simp del: dropWhile.simps(2))

lemma dropWhile_filter: "dropWhile isspace s = [] \<longleftrightarrow> no_space s = []"
  by (induction s) auto

lemma dropWhile_Cons: "dropWhile isspace s = c # s' \<Longrightarrow> no_space s = c # no_space s'"
  by (induction s) (auto split: if_splits)

lemma single_pad_space:
  assumes "NUL \<notin> set src"
  shows "(case next_char src of (ch, src') \<Rightarrow> pton_single_pad ch src' v) \<longleftrightarrow>
    no_space src = [] \<and> (case target v of None \<Rightarrow> True | Some t \<Rightarrow> t ! unat (tarindex v) = 0)"
proof -
  have "fst (next_char (dropWhile isspace src)) = NUL \<longleftrightarrow> dropWhile isspace src = []"
  proof (cases "dropWhile isspace src")
    case (Cons c cs)
    then have "c \<in> set src"
      using set_dropWhileD [of c isspace src] by simp
    with assms Cons show ?thesis by (auto simp: next_char_def)
  next
    case Nil
    show ?thesis unfolding Nil next_char_def by simp
  qed
  then show ?thesis
    using skip_next [OF assms] by (auto simp: pton_single_pad_def dropWhile_filter [symmetric] split: prod.splits)
qed

lemma pton_pad_iff:
  assumes "NUL \<notin> set src"
  shows "pton_pad src v \<longleftrightarrow>
    state v \<noteq> 0 \<and> state v \<noteq> 1 \<and> no_space src = (if state v = 2 then [Pad64] else []) \<and>
    (case target v of None \<Rightarrow> True | Some t \<Rightarrow> t ! unat (tarindex v) = 0)"
proof (cases "state v = 2")
  case True
  obtain ch rest where sk: "(case next_char src of (ch, src') \<Rightarrow> skip_spaces ch src') = (ch, rest)"
    by (cases "case next_char src of (ch, src') \<Rightarrow> skip_spaces ch src'")
  then have nc: "next_char (dropWhile isspace src) = (ch, rest)"
    by (simp add: skip_next [OF assms])
  have "pton_pad src v \<longleftrightarrow> ch = Pad64 \<and> (case next_char rest of (ch, src') \<Rightarrow> pton_single_pad ch src' v)"
    using True sk by (auto simp: pton_pad_def split: prod.splits if_splits)
  also have "\<dots> \<longleftrightarrow> no_space src = [Pad64] \<and> (case target v of None \<Rightarrow> True | Some t \<Rightarrow> t ! unat (tarindex v) = 0)"
  proof (cases "dropWhile isspace src")
    case Nil
    then have "no_space src = []" and "ch = NUL"
      using nc [unfolded Nil] dropWhile_filter [of src] by (simp_all add: next_char_def)
    then show ?thesis by simp
  next
    case (Cons c src')
    then have "c = ch" "src' = rest" using nc by (auto simp: next_char_def)
    moreover have "NUL \<notin> set src'"
      using assms Cons set_dropWhileD [of NUL isspace src] by auto
    ultimately show ?thesis
      using single_pad_space dropWhile_Cons [OF Cons] by auto
  qed
  finally show ?thesis using True by simp
next
  case False
  then show ?thesis
    using single_pad_space [OF assms, of v] by (auto simp: pton_pad_def split: prod.splits)
qed

lemma pton_from_no_space:
  "NUL \<notin> set src \<Longrightarrow> pton_from (no_space src) ts v = pton_from src ts v"
proof (induction src arbitrary: v)
  case (Cons c src)
  show ?case
  proof (cases "isspace c \<or> c = Pad64")
    case True
    then show ?thesis
      using Cons by (auto simp: pton_from_pad pton_pad_iff) (simp add: pton_from_def)
  next
    case False
    then show ?thesis
      using Cons by (auto simp: pton_from_char split: option.splits)
  qed
qed simp

section \<open>The decoder stays inside its target\<close>

definition pton_wf :: "size_t \<Rightarrow> byte list \<Rightarrow> pton_vars \<Rightarrow> bool" where
  "pton_wf ts t0 v \<longleftrightarrow>
     (case target v of
        None \<Rightarrow> False
      | Some t \<Rightarrow> length t = length t0 \<and> drop (unat ts) t = drop (unat ts) t0 \<and>
          (state v \<noteq> 0 \<longrightarrow> unat (tarindex v) < unat ts))"

lemma pton_wf_digit:
  assumes "pton_wf ts t0 v" and "pton_digit d ts v = Some v'"
  shows "pton_wf ts t0 v'"
  using assms
  by (auto simp: pton_wf_def pton_digit_def store_def store_or_def Let_def word_le_nat_alt not_le split: option.splits if_splits)

lemma pton_wf_loop:
  "pton_wf ts t0 v \<Longrightarrow> pton_wf ts t0 (snd (pton_loop src ts v))"
  by (induction src ts v rule: pton_loop.induct) (auto split: option.splits dest: pton_wf_digit)

lemma pton_target:
  assumes "f_b64_pton src (Some t) ts = (r, tgt)"
  obtains t' where "tgt = Some t'" and "length t' = length t" and "drop (unat ts) t' = drop (unat ts) t"
proof -
  let ?v = "snd (pton_loop src ts \<lparr>tarindex = 0, state = 0, target = Some t\<rparr>)"
  have "pton_wf ts t ?v"
    by (rule pton_wf_loop) (simp add: pton_wf_def)
  moreover have "tgt = target ?v"
    using assms by (auto simp: f_b64_pton_def split: prod.splits option.splits if_splits)
  ultimately show thesis
    using that by (auto simp: pton_wf_def split: option.splits)
qed

text \<open>The text of a successful run is the encoding of the bytes it stored.\<close>

lemma pton_pad_digits:
  assumes "take_bit 6 d0 = d0" "take_bit 6 d1 = d1" "take_bit 6 d2 = d2"
  shows "push_bit 4 (d1 AND 0x0f) = 0 \<Longrightarrow> output1 (dec0 d0 d1) 0 = d1"
    and "push_bit 6 (d2 AND 0x03) = 0 \<Longrightarrow> output2 (dec1 d1 d2) 0 = d2"
proof -
  have "output1 (dec0 d0 d1) (dec1 d1 0) = d1" "output2 (dec1 d1 d2) (dec2 d2 0) = d2"
    using output_dec [of d0 d1 0 0] output_dec [of 0 d1 d2 0] assms by simp_all
  then show "push_bit 4 (d1 AND 0x0f) = 0 \<Longrightarrow> output1 (dec0 d0 d1) 0 = d1"
    and "push_bit 6 (d2 AND 0x03) = 0 \<Longrightarrow> output2 (dec1 d1 d2) 0 = d2"
    by (simp_all add: dec1_def dec2_def)
qed

text \<open>One step of a successful run: the next character is a digit, or padding that ends the text.\<close>

lemma pton_from_SomeE:
  assumes "pton_from s ts v = (r, tgt)" and "r \<noteq> - 1" and "no_space s = s" and "NUL \<notin> set s"
  obtains (end_of_text) "s = []" "state v = 0" "r = tarindex v" "tgt = target v"
    | (padding) s' where "s = Pad64 # s'" "state v \<noteq> 0" "state v \<noteq> 1" "s' = (if state v = 2 then [Pad64] else [])"
        "case target v of None \<Rightarrow> True | Some t \<Rightarrow> t ! unat (tarindex v) = 0" "r = tarindex v" "tgt = target v"
    | (digit) d v' s' where "s = Base64 ! d # s'" "d < 64" "pton_digit d ts v = Some v'" "pton_from s' ts v' = (r, tgt)"
        "no_space s' = s'" "NUL \<notin> set s'"
proof (cases s)
  case Nil
  then show thesis using assms end_of_text by (auto simp: pton_from_end split: if_splits)
next
  case (Cons c s')
  have "no_space s' \<noteq> c # s'"
    using length_filter_le [of "\<lambda>c. \<not> isspace c" s'] by (metis impossible_Cons)
  then have ns: "\<not> isspace c" "no_space s' = s'"
    using assms(3) unfolding Cons by (auto split: if_splits)
  show thesis
  proof (cases "c = Pad64")
    case True
    then have "pton_pad s' v" "r = tarindex v" "tgt = target v"
      using assms(1,2) unfolding Cons by (auto simp: pton_from_pad split: if_splits)
    moreover have "NUL \<notin> set s'" using assms(4) Cons by simp
    ultimately show thesis
      using padding [of s'] True Cons ns by (simp add: pton_pad_iff)
  next
    case False
    have "c \<noteq> NUL" "NUL \<notin> set s'" using assms(4) Cons by auto
    moreover from this False ns obtain d v' where "strchr Base64 c = Some d" "pton_digit d ts v = Some v'"
      "pton_from s' ts v' = (r, tgt)"
      using assms(1,2) unfolding Cons by (auto simp: pton_from_char split: option.splits)
    ultimately show thesis
      using digit [of d s' v'] strchr_Base64 [of c d] ns Cons by simp
  qed
qed

lemma of_nat_digit: "d < 64 \<Longrightarrow> unat (of_nat d :: byte) = d"
  by (simp add: unat_of_nat take_bit_nat_eq_self)

lemma pton_canonical:
  assumes "pton_from s ts (pton0 k t) = (r, Some t')" and "r \<noteq> - 1" and "no_space s = s" and "NUL \<notin> set s"
    and ts: "unat ts < 2 ^ 31" "unat ts \<le> length t" and k: "unat k \<le> unat ts"
  shows "unat k \<le> unat r \<and> unat r \<le> unat ts \<and> take (unat k) t' = take (unat k) t \<and>
    s = base64_text (drop (unat k) (take (unat r) t'))"
  using assms
proof (induction "length s" arbitrary: s k t rule: less_induct)
  case less
  note dg = pton_digits [OF less.prems(5,6,7)]
  from less.prems(1-4) show ?case
  proof (cases rule: pton_from_SomeE)
    case end_of_text
    then show ?thesis using less.prems by (auto simp: pton0_def)
  next
    case padding
    then show ?thesis by (simp add: pton0_def)
  next
    case d0: (digit d0 v1 s1)
    then have v1: "unat k < unat ts" "v1 = pton1 k t (of_nat d0)"
      using dg(1) [of d0] by (auto split: if_splits)
    from d0(4) less.prems(2) d0(5,6) show ?thesis
    proof (cases rule: pton_from_SomeE)
      case d1: (digit d1 v2 s2)
      then have v2: "unat k + 1 < unat ts" "v2 = pton2 k t (of_nat d0) (of_nat d1)"
        using dg(2) [of d1 "of_nat d0"] v1 by (auto split: if_splits)
      have k1: "unat (k + 1) = unat k + 1"
        using v2 ts by (simp add: unat_word_ariths)
      note d01 = small_digit [OF d0(2)] small_digit [OF d1(2)]
      from d1(4) less.prems(2) d1(5,6) show ?thesis
      proof (cases rule: pton_from_SomeE)
        case pad: (padding s3)
        let ?x = "dec0 (of_nat d0) (of_nat d1)"
        from pad v2 have z: "push_bit 4 ((of_nat d1 :: byte) AND 0x0f) = 0" and t': "t' = t[unat k := ?x, unat k + 1 := 0]"
          and r: "r = k + 1" and s: "s = [Base64 ! d0, Base64 ! d1, Pad64, Pad64]"
          using d0(1) d1(1) k1 less.prems(6) by (auto simp: pton2_def)
        have "output0 ?x = of_nat d0" "output1 ?x 0 = of_nat d1"
          using output_dec(1) [of "of_nat d0" "of_nat d1" 0 0] pton_pad_digits(1) [OF d01 _ z, of 0] d01 by simp_all
        then have "base64_text [?x] = s"
          using s d0(2) d1(2) by (simp add: group_char_output of_nat_digit)
        moreover have "drop (unat k) (take (unat r) t') = [?x]"
          using t' r k1 v2(1) less.prems(6) by (simp add: take_Suc_conv_app_nth)
        ultimately show ?thesis
          using t' r k1 v2(1) by simp
      next
        case d2: (digit d2 v3 s3)
        then have v3: "unat k + 2 < unat ts" "v3 = pton3 k t (of_nat d0) (of_nat d1) (of_nat d2)"
          using dg(3) [OF v2(1), of d2 "of_nat d0" "of_nat d1"] v2 by (auto split: if_splits)
        have k2: "unat (k + 2) = unat k + 2" and k3: "unat (k + 3) = unat k + 3"
          using v3 ts by (simp_all add: unat_word_ariths)
        let ?x = "dec0 (of_nat d0) (of_nat d1)" and ?y = "dec1 (of_nat d1) (of_nat d2)"
        note d2s = small_digit [OF d2(2)]
        from d2(4) less.prems(2) d2(5,6) show ?thesis
        proof (cases rule: pton_from_SomeE)
          case pad: (padding s4)
          from pad v3 have z: "push_bit 6 ((of_nat d2 :: byte) AND 0x03) = 0"
            and t': "t' = t[unat k := ?x, unat k + 1 := ?y, unat k + 2 := 0]"
            and r: "r = k + 2" and s: "s = [Base64 ! d0, Base64 ! d1, Base64 ! d2, Pad64]"
            using d0(1) d1(1) d2(1) k2 less.prems(6) by (auto simp: pton3_def)
          have "output0 ?x = of_nat d0" "output1 ?x ?y = of_nat d1" "output2 ?y 0 = of_nat d2"
            using output_dec(1,2) [of "of_nat d0" "of_nat d1" "of_nat d2" 0]
              pton_pad_digits(2) [OF d01 d2s z] d01 d2s by simp_all
          then have "base64_text [?x, ?y] = s"
            using s d0(2) d1(2) d2(2) by (simp add: group_char_output of_nat_digit)
          moreover have "drop (unat k) (take (unat r) t') = [?x, ?y]"
            using arg_cong [OF take_update3 [of "unat k" t ?x ?y 0], of "take (unat k + 2)"] t' r k2 v3(1) less.prems(6)
            by (simp add: min_def)
          ultimately show ?thesis
            using t' r k2 v3(1) by simp
        next
          case d3: (digit d3 v4 s4)
          let ?z = "dec2 (of_nat d2) (of_nat d3)"
          let ?t = "t[unat k := ?x, unat k + 1 := ?y, unat k + 2 := ?z]"
          have v4: "v4 = pton0 (k + 3) ?t"
            using d3(3) dg(4) [OF v3(1), of d3 "of_nat d0" "of_nat d1" "of_nat d2"] v3 by simp
          have ih: "unat k + 3 \<le> unat r" "unat r \<le> unat ts" "take (unat k + 3) t' = take (unat k + 3) ?t"
            "s4 = base64_text (drop (unat k + 3) (take (unat r) t'))"
            using less.hyps [of s4 "k + 3" ?t] d3 v4 less.prems(2,5,6) v3(1) d0(1) d1(1) d2(1) by (auto simp: k3)
          note d3s = small_digit [OF d3(2)]
          have "output0 ?x = of_nat d0" "output1 ?x ?y = of_nat d1" "output2 ?y ?z = of_nat d2" "output3 ?z = of_nat d3"
            using output_dec [OF d01 d2s d3s] by simp_all
          then have "base64_text (?x # ?y # ?z # drop (unat k + 3) (take (unat r) t')) = s"
            using d0(1,2) d1(1,2) d2(1,2) d3(1,2) ih(4) by (simp add: group_char_output of_nat_digit)
          moreover have t3: "take (unat k + 3) t' = take (unat k) t @ [?x, ?y, ?z]"
            using take_update3 [of "unat k" t ?x ?y ?z] ih(3) v3(1) less.prems(6) by simp
          moreover have "drop (unat k) (take (unat r) t') = ?x # ?y # ?z # drop (unat k + 3) (take (unat r) t')"
          proof -
            have "take (unat r) t' = take (unat k + 3) t' @ drop (unat k + 3) (take (unat r) t')"
              using ih(1) by (metis append_take_drop_id min.absorb1 take_take)
            then have "take (unat r) t' = take (unat k) t @ (?x # ?y # ?z # drop (unat k + 3) (take (unat r) t'))"
              using t3 by simp
            moreover have "length (take (unat k) t) = unat k"
              using v3(1) less.prems(6) by simp
            ultimately show ?thesis
              by (metis append_eq_conv_conj)
          qed
          moreover have "take (unat k) t' = take (unat k) t"
            using arg_cong [OF t3, of "take (unat k)"] v3(1) less.prems(6) by (simp add: min_def)
          ultimately show ?thesis
            using ih by simp
        qed (use v3 in \<open>simp_all add: pton3_def\<close>)
      qed (use v2 in \<open>simp_all add: pton2_def\<close>)
    qed (use v1 in \<open>simp_all add: pton1_def\<close>)
  qed
qed

section \<open>The properties of the codec\<close>

text \<open>C13: \<open>f_b64_ntop\<close> with a target of \<open>targsize\<close> cells writes the RFC 4648 text and its NUL, leaves every other
  cell alone and returns the length of the text; when text and NUL do not fit it returns -1 and still
  touches no cell behind the first \<open>targsize\<close>.\<close>

theorem f_b64_ntop_correct:
  assumes "unat targsize \<le> length buf" and "unat targsize < 2 ^ 63"
  shows "case f_b64_ntop src buf targsize of (len, buf') \<Rightarrow>
    length buf' = length buf \<and> drop (unat targsize) buf' = drop (unat targsize) buf \<and>
    (let L = 4 * ((length src + 2) div 3) in
     if L < unat targsize
     then len = of_nat L \<and> buf' = base64_text src @ NUL # drop (Suc L) buf
     else len = - 1)"
proof (cases "length (base64_text src) < unat targsize")
  case True
  let ?L = "length (base64_text src)"
  obtain t' where t': "f_b64_ntop src buf targsize = (of_nat ?L, t')" "length t' = length buf"
    "take ?L t' = base64_text src" "t' ! ?L = NUL" "drop (Suc ?L) t' = drop (Suc ?L) buf"
    by (rule ntop_ok [OF True assms])
  have t'_eq: "t' = base64_text src @ NUL # drop (Suc ?L) buf"
    using id_take_nth_drop [of ?L t'] t' True assms by simp
  have "drop (unat targsize - Suc ?L) (drop (Suc ?L) t') = drop (unat targsize - Suc ?L) (drop (Suc ?L) buf)"
    by (simp only: t'(5))
  then have "drop (unat targsize) t' = drop (unat targsize) buf"
    using True by simp
  then show ?thesis
    using t'(1,2) t'_eq True by (simp add: Let_def length_base64_text)
next
  case False
  then obtain t' where "f_b64_ntop src buf targsize = (- 1, t')" "length t' = length buf"
    "drop (unat targsize) t' = drop (unat targsize) buf"
    using ntop_full [of targsize src buf] assms by auto
  with False show ?thesis by (simp add: length_base64_text)
qed

theorem f_b64_ntop_correct_witness:
  "case f_b64_ntop [77] (replicate 8 CHR ''x'') 5 of (len, buf') \<Rightarrow> len = 4 \<and> buf' = ''TQ=='' @ NUL # ''xxx''"
proof -
  have three: "replicate 3 c = [c, c, c]" for c :: char
    by (simp add: numeral_3_eq_3)
  have "base64_text [77] = ''TQ==''"
    by (simp add: group_char_def group24_def Base64_def Pad64_def)
  then show ?thesis
    using f_b64_ntop_correct [of 5 "replicate 8 CHR ''x''" "[77]"] by (simp add: Let_def three split: prod.splits)
qed

text \<open>C14: decoding the text of \<open>n\<close> bytes into a target with room for \<open>n + 1\<close> returns \<open>n\<close> and stores the bytes;
  so \<open>f_b64_pton\<close> inverts \<open>f_b64_ntop\<close>.\<close>

theorem base64_round_trip:
  assumes "length bytes < unat targsize" and "unat targsize \<le> length buf" and "unat targsize < 2 ^ 31"
    and "4 * ((length bytes + 2) div 3) < unat textsize" and "unat textsize \<le> length out" and "unat textsize < 2 ^ 31"
  shows "case f_b64_ntop bytes out textsize of (len, out') \<Rightarrow>
    (case f_b64_pton (take (unat len) out') (Some buf) targsize of
       (n, Some buf') \<Rightarrow> n = of_nat (length bytes) \<and> take (length bytes) buf' = bytes
     | (n, None) \<Rightarrow> False)"
proof -
  let ?L = "length (base64_text bytes)"
  obtain out' where out': "f_b64_ntop bytes out textsize = (of_nat ?L, out')"
    "take ?L out' = base64_text bytes"
    by (rule ntop_ok [of bytes textsize out]) (use assms in \<open>simp_all add: length_base64_text\<close>)
  have "?L < 2 ^ 32"
    using assms(4,6) by (simp add: length_base64_text)
  then have "unat (of_nat ?L :: i32) = ?L"
    by (rule unat_of_nat32)
  moreover obtain buf' where "pton_from (base64_text bytes) targsize (pton0 0 buf) = (of_nat (length bytes), Some buf')"
    "take (length bytes) buf' = bytes"
    using pton_text [of 0 bytes targsize buf] assms by auto
  ultimately show ?thesis
    using out' by (simp add: pton_alt pton0_def)
qed

theorem base64_round_trip_witness:
  "\<exists>buf'. f_b64_pton (take 4 (snd (f_b64_ntop [77, 97] (replicate 5 NUL) 5))) (Some [1, 2, 3]) 3 = (2, Some buf') \<and>
     take (length [77 :: byte, 97]) buf' = [77, 97]"
proof -
  have "unat (fst (f_b64_ntop [77, 97] (replicate 5 NUL) 5)) = 4" by code_simp
  then show ?thesis
    using base64_round_trip [of "[77, 97]" 3 "[1, 2, 3]" 5 "replicate 5 NUL"]
    by (auto split: prod.splits option.splits)
qed

text \<open>C15: \<open>f_b64_pton\<close> accepts nothing but encodings: when it returns \<open>n\<close>, the text without its white space
  is the RFC 4648 text of the \<open>n\<close> bytes it stored, so no two texts (up to white space) decode to the same bytes.\<close>

theorem f_b64_pton_canonical:
  assumes "f_b64_pton src (Some buf) targsize = (n, Some buf')" and "n \<noteq> - 1" and "NUL \<notin> set src"
    and "unat targsize \<le> length buf" and "unat targsize < 2 ^ 31"
  shows "filter (\<lambda>c. \<not> isspace c) src = base64_text (take (unat n) buf') \<and> unat n \<le> unat targsize"
proof -
  have "pton_from (no_space src) targsize (pton0 0 buf) = (n, Some buf')"
    using assms(1,3) by (simp add: pton_from_no_space pton_alt pton0_def)
  then show ?thesis
    using pton_canonical [of "no_space src" targsize 0 buf n buf'] assms by simp
qed

theorem f_b64_pton_canonical_witness:
  "filter (\<lambda>c. \<not> isspace c) '' T WE='' = base64_text [77, 97]"
proof -
  have run: "f_b64_pton '' T WE='' (Some [1, 2, 3]) 3 = (2, Some [77, 97, 0])" by code_simp
  have "NUL \<notin> set '' T WE=''" by code_simp
  then show ?thesis
    using f_b64_pton_canonical [OF run] by simp
qed

text \<open>C16: for every text, also a malformed one, \<open>f_b64_pton\<close> writes only into the \<open>targsize\<close> cells it was given.\<close>

theorem f_b64_pton_in_bounds:
  "case f_b64_pton src (Some buf) targsize of
     (n, Some buf') \<Rightarrow> length buf' = length buf \<and> drop (unat targsize) buf' = drop (unat targsize) buf
   | (n, None) \<Rightarrow> False"
proof (cases "f_b64_pton src (Some buf) targsize")
  case (Pair n tgt)
  then show ?thesis by (auto elim: pton_target)
qed

text \<open>The buffer of the callers.\<close>

lemma encode_buffer_size:
  assumes "n < 2 ^ 29"
  shows "unat (encode_buffer_size (of_nat n)) = (n * 3 + 2) div 2"
proof -
  have "unat (of_nat n :: size_t) = n"
    using assms by (intro unat_of_nat64) simp
  then have "unat (of_nat n * 3 + 2 :: size_t) = n * 3 + 2"
    using assms by (simp add: unat_word_ariths)
  then show ?thesis
    by (simp add: encode_buffer_size_def unat_div)
qed

lemma encode_buffer_enough:
  "4 * ((n + 2) div 3) < (n * 3 + 2) div 2 \<longleftrightarrow> n \<notin> {1, 2, 4, 5, 7, 10, 13 :: nat}"
proof (cases "n < 16")
  case True
  let ?P = "\<lambda>n. 4 * ((n + 2) div 3) < (n * 3 + 2) div 2 \<longleftrightarrow> n \<notin> {1, 2, 4, 5, 7, 10, 13 :: nat}"
  have "list_all (\<lambda>m. ?P (m - 2)) [2..<18]" by simp
  moreover have "n + 2 \<in> set [2..<18]" unfolding set_upt using True by simp
  ultimately have "?P (n + 2 - 2)" unfolding list_all_iff by blast
  then show ?thesis by simp
next
  case False
  have "3 * ((n + 2) div 3) \<le> n + 2" by simp
  with False have "8 * ((n + 2) div 3) + 2 \<le> n * 3 + 2" by linarith
  then have "4 * ((n + 2) div 3) < (n * 3 + 2) div 2" by linarith
  with False show ?thesis by auto
qed

lemma ntop_caller:
  assumes "n = length src" and "n < 2 ^ 29" and "unat (encode_buffer_size (of_nat n)) \<le> length buf"
  shows "(case f_b64_ntop src buf (encode_buffer_size (of_nat n)) of
      (len, b) \<Rightarrow> if len = - 1 then None else Some (take (unat len) b)) =
    (if n \<in> {1, 2, 4, 5, 7, 10, 13} then None else Some (base64_text src))"
proof -
  let ?ts = "encode_buffer_size (of_nat n)" and ?L = "length (base64_text src)"
  have ts: "unat ?ts = (n * 3 + 2) div 2"
    by (rule encode_buffer_size [OF assms(2)])
  then have "unat ?ts < 2 ^ 30 + 2 ^ 29" using assms(2) by simp
  then have ts31: "unat ?ts < 2 ^ 31" by simp
  have room: "?L < unat ?ts \<longleftrightarrow> n \<notin> {1, 2, 4, 5, 7, 10, 13}"
    using encode_buffer_enough [of n] by (simp only: length_base64_text ts flip: assms(1))
  show ?thesis
  proof (cases "?L < unat ?ts")
    case True
    obtain b where b: "f_b64_ntop src buf ?ts = (of_nat ?L, b)" "take ?L b = base64_text src"
      using ntop_ok [OF True assms(3)] ts31 by auto
    have L: "unat (of_nat ?L :: i32) = ?L"
      using True ts31 by (intro unat_of_nat32) simp
    have "(of_nat ?L :: i32) \<noteq> - 1"
    proof
      assume "(of_nat ?L :: i32) = - 1"
      then have "?L = 2 ^ 32 - 1" using L by (simp add: unsigned_minus_1_eq_mask mask_eq_exp_minus_1)
      then show False using True ts31 by simp
    qed
    then show ?thesis using b L True room by simp
  next
    case False
    then obtain b where "f_b64_ntop src buf ?ts = (- 1, b)"
      using ntop_full [of ?ts src buf] assms(3) ts31 by auto
    then show ?thesis using False room by simp
  qed
qed

text \<open>C17: the buffer that \<open>base64EncodedStringFromData:\<close> allocates is too small exactly for data of 1, 2, 4, 5, 7, 10
  or 13 bytes: for these the method returns \<open>nil\<close>, for every other length the RFC 4648 text.\<close>

theorem base64EncodedStringFromData_spec:
  assumes "length bytes < 2 ^ 29" and "(length bytes * 3 + 2) div 2 \<le> length malloced"
  shows "base64EncodedStringFromData bytes malloced =
    (if length bytes \<in> {1, 2, 4, 5, 7, 10, 13} then None else Some (base64_text bytes))"
  unfolding base64EncodedStringFromData_def
  by (rule ntop_caller [OF refl assms(1)]) (simp only: encode_buffer_size [OF assms(1)] assms(2))

theorem base64EncodedStringFromData_spec_witness:
  "base64EncodedStringFromData (replicate 16 0) (replicate 25 NUL) = Some (base64_text (replicate 16 0)) \<and>
   base64EncodedStringFromData [77] (replicate 2 NUL) = None"
  using base64EncodedStringFromData_spec [of "replicate 16 0" "replicate 25 NUL"]
    base64EncodedStringFromData_spec [of "[77]" "replicate 2 NUL"] by simp

text \<open>C18: the handshake hash \<open>newSHA1String\<close> always has room: for every digest function with 20-byte results it
  returns the RFC 4648 text of the digest, of all the bytes when they are fewer than \<open>2^32\<close> and of the first
  \<open>length mod 2^32\<close> otherwise.\<close>

theorem newSHA1String_spec:
  assumes "\<And>bs. length (CC_SHA1 bs) = CC_SHA1_DIGEST_LENGTH" and "31 \<le> length malloced"
  shows "newSHA1String CC_SHA1 bytes malloced =
    Some (base64_text (CC_SHA1 (if length bytes < 2 ^ 32 then bytes else take (length bytes mod 2 ^ 32) bytes)))"
proof -
  have "unat (encode_buffer_size (of_nat 20)) = 31"
    using encode_buffer_size [of 20] by simp
  then show ?thesis
    using ntop_caller [of CC_SHA1_DIGEST_LENGTH "CC_SHA1 (take (length bytes mod 2 ^ 32) bytes)" malloced] assms
    by (simp add: newSHA1String_def CC_SHA1_DIGEST_LENGTH_def unat_of_nat)
qed

theorem newSHA1String_spec_witness:
  "newSHA1String (\<lambda>bs. replicate 20 0) [1, 2] (replicate 31 NUL) = Some (base64_text (replicate 20 0))"
  using newSHA1String_spec [of "\<lambda>bs. replicate 20 0" "replicate 31 NUL" "[1, 2]"] by (simp add: CC_SHA1_DIGEST_LENGTH_def)

end
