(* ===== verification/Ldb_Coding.thy ===== *)
theory Ldb_Coding
  imports Pb_Wire
begin

text \<open>
  The byte encodings of LevelDB (\<open>util/coding.h\<close>, \<open>util/coding.cc\<close>): fixed-width little-endian integers, varints and
  length-prefixed slices.  A \<open>std::string\<close> and a \<open>Slice\<close> are lists of bytes; a pair of pointers \<open>p\<close>, \<open>limit\<close> is the
  list of the bytes between them, and \<open>nullptr\<close> is \<^const>\<open>None\<close>.
\<close>

type_synonym slice = "byte list"

section \<open>Fixed-width integers\<close>

text \<open>\<open>port::kLittleEndian\<close>; both values of it give the same bytes (lemma \<open>EncodeFixed32_on_any\<close>).\<close>

definition kLittleEndian :: bool where
  "kLittleEndian = True"

definition EncodeFixed32_on :: "bool \<Rightarrow> u32 \<Rightarrow> byte list" where
  "EncodeFixed32_on little value =
    (if little then le_bytes 4 (ucast value)
     else [ucast (value AND 0xff), ucast (drop_bit 8 value AND 0xff), ucast (drop_bit 16 value AND 0xff),
           ucast (drop_bit 24 value AND 0xff)])"

definition EncodeFixed64_on :: "bool \<Rightarrow> u64 \<Rightarrow> byte list" where
  "EncodeFixed64_on little value =
    (if little then le_bytes 8 value
     else [ucast (value AND 0xff), ucast (drop_bit 8 value AND 0xff), ucast (drop_bit 16 value AND 0xff),
           ucast (drop_bit 24 value AND 0xff), ucast (drop_bit 32 value AND 0xff), ucast (drop_bit 40 value AND 0xff),
           ucast (drop_bit 48 value AND 0xff), ucast (drop_bit 56 value AND 0xff)])"

definition EncodeFixed32 :: "u32 \<Rightarrow> byte list" where
  "EncodeFixed32 = EncodeFixed32_on kLittleEndian"

definition EncodeFixed64 :: "u64 \<Rightarrow> byte list" where
  "EncodeFixed64 = EncodeFixed64_on kLittleEndian"

definition DecodeFixed32_on :: "bool \<Rightarrow> byte list \<Rightarrow> u32" where
  "DecodeFixed32_on little ptr =
    (let p = buf_take 4 ptr in
     if little then ucast (le_word p)
     else ucast (p ! 0) OR push_bit 8 (ucast (p ! 1)) OR push_bit 16 (ucast (p ! 2)) OR push_bit 24 (ucast (p ! 3)))"

definition DecodeFixed32 :: "byte list \<Rightarrow> u32" where
  "DecodeFixed32 = DecodeFixed32_on kLittleEndian"

definition DecodeFixed64_on :: "bool \<Rightarrow> byte list \<Rightarrow> u64" where
  "DecodeFixed64_on little ptr =
    (if little then le_word (buf_take 8 ptr)
     else let lo = ucast (DecodeFixed32_on little ptr);
              hi = ucast (DecodeFixed32_on little (drop 4 ptr))
          in push_bit 32 hi OR lo)"

definition DecodeFixed64 :: "byte list \<Rightarrow> u64" where
  "DecodeFixed64 = DecodeFixed64_on kLittleEndian"

definition PutFixed32 :: "slice \<Rightarrow> u32 \<Rightarrow> slice" where
  "PutFixed32 dst value = dst @ EncodeFixed32 value"

definition PutFixed64 :: "slice \<Rightarrow> u64 \<Rightarrow> slice" where
  "PutFixed64 dst value = dst @ EncodeFixed64 value"

lemma le_bytes_4: "le_bytes 4 w = map (\<lambda>k. ucast (drop_bit (8 * k) w)) [0, 1, 2, 3]"
  by (simp add: numeral_eq_Suc)

lemma le_bytes_8: "le_bytes 8 w = map (\<lambda>k. ucast (drop_bit (8 * k) w)) [0, 1, 2, 3, 4, 5, 6, 7]"
  by (simp add: numeral_eq_Suc)

lemma low_byte_ucast: "k < 4 \<Longrightarrow> (ucast (drop_bit (8 * k) (ucast (v :: u32) :: u64)) :: byte) = ucast (drop_bit (8 * k) v)"
  by (rule bit_eqI) (auto simp: bit_simps)

lemma EncodeFixed32_on_any: "EncodeFixed32_on little v = fixed32_bytes v"
  using low_byte_ucast [of 0 v] low_byte_ucast [of 1 v] low_byte_ucast [of 2 v] low_byte_ucast [of 3 v]
  by (simp add: EncodeFixed32_on_def le_bytes_4 fixed32_bytes_def ucast_and_0xFF)

lemma EncodeFixed64_on_any: "EncodeFixed64_on little v = fixed64_bytes v"
  by (simp add: EncodeFixed64_on_def le_bytes_8 fixed64_bytes_def ucast_and_0xFF)

lemma EncodeFixed32_eq: "EncodeFixed32 v = fixed32_bytes v"
  by (simp add: EncodeFixed32_def EncodeFixed32_on_any)

lemma EncodeFixed64_eq: "EncodeFixed64 v = fixed64_bytes v"
  by (simp add: EncodeFixed64_def EncodeFixed64_on_any)

lemma length_EncodeFixed [simp]: "length (EncodeFixed32 v) = 4" "length (EncodeFixed64 w) = 8"
  by (simp_all add: EncodeFixed32_eq EncodeFixed64_eq)

lemma DecodeFixed32_on_bytes: "DecodeFixed32_on little (fixed32_bytes v @ rest) = v"
proof (cases little)
  case True
  have "fixed32_bytes v = le_bytes 4 (ucast v)"
    using EncodeFixed32_on_any [of True v] by (simp add: EncodeFixed32_on_def)
  moreover have "ucast (take_bit 32 (ucast v :: u64)) = v"
    by (rule bit_eqI) (auto simp: bit_simps)
  ultimately show ?thesis
    using True by (simp add: DecodeFixed32_on_def buf_take_append_eq le_word_le_bytes)
next
  case False
  then show ?thesis
    using fixed32_join [of v] by (simp add: DecodeFixed32_on_def buf_take_append_eq fixed32_bytes_def Let_def)
qed

lemma DecodeFixed32_EncodeFixed32 [simp]: "DecodeFixed32 (EncodeFixed32 v @ rest) = v" "DecodeFixed32 (EncodeFixed32 v) = v"
  using DecodeFixed32_on_bytes [of kLittleEndian v rest] DecodeFixed32_on_bytes [of kLittleEndian v "[]"]
  by (simp_all add: DecodeFixed32_def EncodeFixed32_eq)

lemma fixed64_split: "fixed64_bytes v = fixed32_bytes (ucast v) @ fixed32_bytes (ucast (drop_bit 32 v))"
proof -
  have lo: "(ucast (drop_bit (8 * k) (ucast v :: u32)) :: byte) = ucast (drop_bit (8 * k) v)" if "k < 4" for k
    using that by (intro bit_eqI) (auto simp: bit_simps)
  have hi: "(ucast (drop_bit (8 * k) (ucast (drop_bit 32 v) :: u32)) :: byte) = ucast (drop_bit (8 * (k + 4)) v)" if "k < 4" for k
    using that by (intro bit_eqI) (auto simp: bit_simps ac_simps)
  show ?thesis
    using lo [of 0] lo [of 1] lo [of 2] lo [of 3] hi [of 0] hi [of 1] hi [of 2] hi [of 3]
    by (simp add: fixed64_bytes_def fixed32_bytes_def)
qed

lemma DecodeFixed64_on_bytes: "DecodeFixed64_on little (fixed64_bytes v @ rest) = v"
proof (cases little)
  case True
  have "fixed64_bytes v = le_bytes 8 v"
    using EncodeFixed64_on_any [of True v] by (simp add: EncodeFixed64_on_def)
  moreover have "take_bit 64 v = v"
    by (rule take_bit_word_eq_self) simp
  ultimately show ?thesis
    using True by (simp add: DecodeFixed64_on_def buf_take_append_eq le_word_le_bytes)
next
  case False
  have "push_bit 32 (ucast (ucast (drop_bit 32 v) :: u32)) OR ucast (ucast v :: u32) = v"
  proof (rule bit_eqI)
    fix n
    show "bit (push_bit 32 (ucast (ucast (drop_bit 32 v) :: u32)) OR ucast (ucast v :: u32) :: u64) n = bit v n"
      by (cases "n < 32") (auto simp: bit_simps dest: bit_imp_le_length)
  qed
  then show ?thesis
    using False by (simp add: DecodeFixed64_on_def fixed64_split DecodeFixed32_on_bytes Let_def)
qed

lemma DecodeFixed64_EncodeFixed64 [simp]: "DecodeFixed64 (EncodeFixed64 v @ rest) = v" "DecodeFixed64 (EncodeFixed64 v) = v"
  using DecodeFixed64_on_bytes [of kLittleEndian v rest] DecodeFixed64_on_bytes [of kLittleEndian v "[]"]
  by (simp_all add: DecodeFixed64_def EncodeFixed64_eq)

text \<open>Both ways of reading give the same integer, whatever the bytes are.\<close>

lemma DecodeFixed32_on_4:
  "DecodeFixed32_on little (a # b # c # d # rest) =
    ucast a OR push_bit 8 (ucast b) OR push_bit 16 (ucast c) OR push_bit 24 (ucast d)"
proof -
  have "ucast (ucast a OR push_bit 8 (ucast b OR push_bit 8 (ucast c OR push_bit 8 (ucast d :: u64)))) =
      (ucast a OR push_bit 8 (ucast b) OR push_bit 16 (ucast c) OR push_bit 24 (ucast d) :: u32)"
    unfolding push_bit_or by (rule bit_word_eqI) (auto simp: bit_simps)
  then show ?thesis
    by (simp add: DecodeFixed32_on_def buf_take_append_eq [of "[a, b, c, d]" 4 rest, simplified] Let_def)
qed

section \<open>Varints\<close>

definition EncodeVarint32 :: "u32 \<Rightarrow> byte list" where
  "EncodeVarint32 v =
    (let B = 128 in
     if v < 2 ^ 7 then [ucast v]
     else if v < 2 ^ 14 then [ucast (v OR B), ucast (drop_bit 7 v)]
     else if v < 2 ^ 21 then [ucast (v OR B), ucast (drop_bit 7 v OR B), ucast (drop_bit 14 v)]
     else if v < 2 ^ 28 then
       [ucast (v OR B), ucast (drop_bit 7 v OR B), ucast (drop_bit 14 v OR B), ucast (drop_bit 21 v)]
     else [ucast (v OR B), ucast (drop_bit 7 v OR B), ucast (drop_bit 14 v OR B), ucast (drop_bit 21 v OR B),
           ucast (drop_bit 28 v)])"

definition PutVarint32 :: "slice \<Rightarrow> u32 \<Rightarrow> slice" where
  "PutVarint32 dst v = dst @ EncodeVarint32 v"

function EncodeVarint64 :: "u64 \<Rightarrow> byte list" where
  "EncodeVarint64 v =
    (let B = 128 in if B \<le> v then ucast (v OR B) # EncodeVarint64 (drop_bit 7 v) else [ucast v])"
  by pat_completeness auto
termination
  by (relation "measure unat") (auto intro!: unat_drop_bit_less)

declare EncodeVarint64.simps [simp del]

definition PutVarint64 :: "slice \<Rightarrow> u64 \<Rightarrow> slice" where
  "PutVarint64 dst v = dst @ EncodeVarint64 v"

text \<open>\<open>VarintLength\<close>: the loop with its counter \<open>len\<close>, an \<open>int\<close> that never passes 10.\<close>

function VarintLength_loop :: "u64 \<Rightarrow> int \<Rightarrow> int" where
  "VarintLength_loop v len = (if 128 \<le> v then VarintLength_loop (drop_bit 7 v) (len + 1) else len)"
  by pat_completeness auto
termination
  by (relation "measure (\<lambda>(v, len). unat v)") (auto intro!: unat_drop_bit_less)

declare VarintLength_loop.simps [simp del]

definition VarintLength :: "u64 \<Rightarrow> int" where
  "VarintLength v = VarintLength_loop v 1"

text \<open>The readers return the value and the bytes behind it up to \<open>limit\<close>.  The loop runs over the shifts of the source.\<close>

fun GetVarint32_loop :: "nat list \<Rightarrow> u32 \<Rightarrow> slice \<Rightarrow> (u32 \<times> slice) option" where
  "GetVarint32_loop [] result p = None"
| "GetVarint32_loop (shift # shifts) result [] = None"
| "GetVarint32_loop (shift # shifts) result (c # p) =
    (let b = ucast c in
     if b AND 128 \<noteq> 0 then GetVarint32_loop shifts (result OR push_bit shift (b AND 127)) p
     else Some (result OR push_bit shift b, p))"

definition GetVarint32PtrFallback :: "slice \<Rightarrow> (u32 \<times> slice) option" where
  "GetVarint32PtrFallback p = GetVarint32_loop [0, 7, 14, 21, 28] 0 p"

definition GetVarint32Ptr :: "slice \<Rightarrow> (u32 \<times> slice) option" where
  "GetVarint32Ptr p =
    (case p of
       [] \<Rightarrow> GetVarint32PtrFallback p
     | c # rest \<Rightarrow>
         let result = ucast c in if result AND 128 = 0 then Some (result, rest) else GetVarint32PtrFallback p)"

definition GetVarint32 :: "slice \<Rightarrow> (u32 \<times> slice) option" where
  "GetVarint32 input = (case GetVarint32Ptr input of None \<Rightarrow> None | Some (value, q) \<Rightarrow> Some (value, q))"

fun GetVarint64_loop :: "nat list \<Rightarrow> u64 \<Rightarrow> slice \<Rightarrow> (u64 \<times> slice) option" where
  "GetVarint64_loop [] result p = None"
| "GetVarint64_loop (shift # shifts) result [] = None"
| "GetVarint64_loop (shift # shifts) result (c # p) =
    (let b = ucast c in
     if b AND 128 \<noteq> 0 then GetVarint64_loop shifts (result OR push_bit shift (b AND 127)) p
     else Some (result OR push_bit shift b, p))"

definition GetVarint64Ptr :: "slice \<Rightarrow> (u64 \<times> slice) option" where
  "GetVarint64Ptr p = GetVarint64_loop [0, 7, 14, 21, 28, 35, 42, 49, 56, 63] 0 p"

definition GetVarint64 :: "slice \<Rightarrow> (u64 \<times> slice) option" where
  "GetVarint64 input = (case GetVarint64Ptr input of None \<Rightarrow> None | Some (value, q) \<Rightarrow> Some (value, q))"

section \<open>Length-prefixed slices\<close>

text \<open>\<open>value.size()\<close> is cut to 32 bits when it is passed to \<open>PutVarint32\<close>.\<close>

definition PutLengthPrefixedSlice :: "slice \<Rightarrow> slice \<Rightarrow> slice" where
  "PutLengthPrefixedSlice dst value = PutVarint32 dst (of_nat (length value)) @ value"

definition GetLengthPrefixedSlicePtr :: "slice \<Rightarrow> (slice \<times> slice) option" where
  "GetLengthPrefixedSlicePtr p =
    (case GetVarint32Ptr p of
       None \<Rightarrow> None
     | Some (len, p) \<Rightarrow> if length p < unat len then None else Some (take (unat len) p, drop (unat len) p))"

text \<open>On failure the code leaves \<open>*input\<close> where it is or behind the length; the model gives no input back, and no caller
  uses it then.\<close>

definition GetLengthPrefixedSlice :: "slice \<Rightarrow> (slice \<times> slice) option" where
  "GetLengthPrefixedSlice input =
    (case GetVarint32 input of
       None \<Rightarrow> None
     | Some (len, input) \<Rightarrow>
         if unat len \<le> length input then Some (take (unat len) input, drop (unat len) input) else None)"

end
