(* ===== verification/Ldb_Coding_Props.thy ===== *)
theory Ldb_Coding_Props
  imports Ldb_Coding
begin

text \<open>
  LevelDB's varints are the base-128 varints of the protocol buffers (\<^const>\<open>varint_enc\<close>), its readers invert its
  writers, and a length-prefixed slice is read back.
\<close>

section \<open>The writers\<close>

lemma ge_128: "(128 :: u64) \<le> v \<longleftrightarrow> \<not> v \<le> 0x7F"
  by (simp add: word_le_nat_alt) arith

lemma bit_128: "bit (128 :: 'a::len word) n \<longleftrightarrow> n = 7 \<and> n < LENGTH('a)"
proof -
  have "(128 :: 'a word) = push_bit 7 1" by simp
  then show ?thesis by (simp only: bit_push_bit_iff) (auto simp: bit_1_iff)
qed

lemma and_128_eq_0: "(x :: 'a::len word) AND 128 = 0 \<longleftrightarrow> \<not> bit x 7"
proof -
  have "(128 :: 'a word) = 2 ^ 7" by simp
  then show ?thesis by (simp only: and_exp_eq_0_iff_not_bit)
qed

lemma and_127: "(x :: 'a::len word) AND 127 = take_bit 7 x"
  using and_0x7F [of x] by simp

lemma ucast_or_128: "(ucast (v OR 128 :: u64) :: byte) = more_byte v"
  by (rule bit_word_eqI) (unfold bit_more_byte bit_or_iff bit_ucast_iff bit_128, auto)

lemma EncodeVarint64_eq: "EncodeVarint64 v = varint_enc v"
proof (induction v rule: EncodeVarint64.induct)
  case (1 v)
  show ?case
  proof (cases "v \<le> 0x7F")
    case True
    then show ?thesis by (subst EncodeVarint64.simps) (simp add: Let_def ge_128 varint_enc_small)
  next
    case False
    then have "EncodeVarint64 v = ucast (v OR 128) # EncodeVarint64 (drop_bit 7 v)"
      by (subst EncodeVarint64.simps) (simp only: Let_def ge_128 simp_thms if_True)
    with 1 [OF refl] False show ?thesis by (simp only: ge_128 ucast_or_128 varint_enc_more simp_thms)
  qed
qed

lemma ucast_or_128_32: "(ucast (drop_bit n w OR 128 :: u32) :: byte) = more_byte (drop_bit n (ucast w))"
  by (rule bit_word_eqI)
    (unfold bit_more_byte bit_or_iff bit_ucast_iff bit_128 bit_drop_bit_eq comp_def, auto dest: bit_imp_le_length)

lemma ucast_drop_32: "(ucast (drop_bit n (w :: u32)) :: byte) = ucast (drop_bit n (ucast w :: u64))"
  by (rule bit_word_eqI) (auto simp: bit_simps dest: bit_imp_le_length)

lemma drop_le_0x7F: "drop_bit n (ucast (w :: u32) :: u64) \<le> 0x7F \<longleftrightarrow> unat w < 2 ^ (n + 7)"
proof -
  have "unat (drop_bit n (ucast w :: u64)) = unat w div 2 ^ n"
    by (simp only: unat_drop_bit_eq unat_ucast32) (simp only: drop_bit_eq_div)
  then have "drop_bit n (ucast w :: u64) \<le> 0x7F \<longleftrightarrow> unat w div 2 ^ n < 128"
    by (simp add: word_le_nat_alt) arith
  then show ?thesis by (simp add: div_less_iff_less_mult power_add ac_simps)
qed

lemma EncodeVarint32_eq: "EncodeVarint32 w = varint_enc (ucast w)"
proof -
  have big: "unat w < 2 ^ (28 + 7)"
    using unsigned_less [of w, where 'a = nat] by simp
  have step: "varint_enc (drop_bit n (ucast w)) =
      (if unat w < 2 ^ (n + 7) then [ucast (drop_bit n w)]
       else ucast (drop_bit n w OR 128) # varint_enc (drop_bit (n + 7) (ucast w)))" for n
    using varint_enc_small [of "drop_bit n (ucast w)"] varint_enc_more [of "drop_bit n (ucast w)"]
    unfolding drop_le_0x7F ucast_or_128_32 ucast_drop_32 by (simp add: add.commute)
  have less: "w < 2 ^ 7 \<longleftrightarrow> unat w < 2 ^ (0 + 7)" "w < 2 ^ 14 \<longleftrightarrow> unat w < 2 ^ (7 + 7)"
    "w < 2 ^ 21 \<longleftrightarrow> unat w < 2 ^ (14 + 7)" "w < 2 ^ 28 \<longleftrightarrow> unat w < 2 ^ (21 + 7)"
    by (simp_all add: word_less_nat_alt)
  have "varint_enc (ucast w) = varint_enc (drop_bit 0 (ucast w))" by simp
  also have "\<dots> = EncodeVarint32 w"
    unfolding EncodeVarint32_def Let_def less
    by (subst step, subst step, subst step, subst step, subst step) (use big in simp)
  finally show ?thesis by simp
qed

lemma VarintLength_loop_eq: "VarintLength_loop v len = len - 1 + int (length (EncodeVarint64 v))"
proof (induction v len rule: VarintLength_loop.induct)
  case (1 v len)
  then show ?case
    by (cases "128 \<le> v") (simp_all add: VarintLength_loop.simps [of v] EncodeVarint64.simps [of v] Let_def)
qed

section \<open>The readers\<close>

lemma bit_7_more_byte: "bit (ucast (more_byte v) :: 'a::len word) 7" if "8 \<le> LENGTH('a)"
  using that by (auto simp: bit_simps bit_more_byte)

lemma not_bit_7_last: "\<not> bit (ucast (ucast v :: byte) :: 'a::len word) 7" if "v \<le> 0x7F" for v :: u64
  using le_0x7F_bit [OF that, of 7] by (auto simp: bit_simps)

lemma take_7_more_byte: "take_bit 7 (ucast (more_byte v) :: 'a::len word) = ucast (take_bit 7 v)"
  by (rule bit_word_eqI) (auto simp: bit_simps bit_more_byte)

lemma ucast_last: "ucast (ucast v :: byte) = (ucast v :: 'a::len word)" if "v \<le> 0x7F" for v :: u64
  using le_0x7F_bit [OF that] by (intro bit_word_eqI) (auto simp: bit_simps, fastforce)

lemma GetVarint64_loop_more:
  "GetVarint64_loop (s # ss) r (more_byte v # p) = GetVarint64_loop ss (r OR push_bit s (take_bit 7 v)) p"
proof -
  have "bit (ucast (more_byte v) :: u64) 7" by (rule bit_7_more_byte) simp
  then show ?thesis
    by (simp only: GetVarint64_loop.simps Let_def and_128_eq_0 and_127 take_7_more_byte simp_thms if_True ucast_id)
qed

lemma GetVarint64_loop_last:
  "v \<le> 0x7F \<Longrightarrow> GetVarint64_loop (s # ss) r (ucast v # p) = Some (r OR push_bit s v, p)"
  using not_bit_7_last [of v, where 'a = 64]
  by (simp only: GetVarint64_loop.simps Let_def and_128_eq_0 ucast_last simp_thms if_False ucast_id)

lemma GetVarint32_loop_more:
  "GetVarint32_loop (s # ss) r (more_byte v # p) = GetVarint32_loop ss (r OR push_bit s (ucast (take_bit 7 v))) p"
proof -
  have "bit (ucast (more_byte v) :: u32) 7" by (rule bit_7_more_byte) simp
  then show ?thesis
    by (simp only: GetVarint32_loop.simps Let_def and_128_eq_0 and_127 take_7_more_byte simp_thms if_True)
qed

lemma GetVarint32_loop_last:
  "(v :: u64) \<le> 0x7F \<Longrightarrow> GetVarint32_loop (s # ss) r (ucast v # p) = Some (r OR push_bit s (ucast v), p)"
  using not_bit_7_last [of v, where 'a = 32]
  by (simp only: GetVarint32_loop.simps Let_def and_128_eq_0 ucast_last simp_thms if_False)

lemma GetVarint64_loop_enc:
  "GetVarint64_loop (map ((*) 7) [k..<10]) (take_bit (7 * k) v) (varint_enc (drop_bit (7 * k) v) @ rest) = Some (v, rest)"
  if "k < 10"
  using that
proof (induction "10 - k" arbitrary: k)
  case (Suc d)
  have shifts: "map ((*) 7) [k..<10] = (7 * k) # map ((*) 7) [Suc k..<10]"
    using Suc.prems by (simp add: upt_conv_Cons)
  let ?u = "drop_bit (7 * k) v"
  show ?case
  proof (cases "?u \<le> 0x7F")
    case True
    then show ?thesis
      by (simp only: shifts varint_enc_small append_Cons GetVarint64_loop_last take_bit_last_group append_Nil)
  next
    case False
    then have nz: "drop_bit 7 ?u \<noteq> 0" by (simp add: le_0x7F_bits)
    have lt: "Suc k < 10"
    proof (rule ccontr)
      assume "\<not> Suc k < 10"
      then have "drop_bit (7 + 7 * k) v = 0" by (intro drop_bit_beyond) simp
      with nz show False by simp
    qed
    have "d = 10 - Suc k" using Suc.hyps(2) by simp
    note IH = Suc.hyps(1) [OF this lt]
    have "7 * Suc k = 7 * k + 7" "drop_bit 7 ?u = drop_bit (7 * k + 7) v" by (simp_all add: add.commute)
    with IH show ?thesis
      unfolding shifts varint_enc_more [OF False] append_Cons GetVarint64_loop_more take_bit_group by (simp only:)
  qed
qed simp

theorem GetVarint64_enc: "GetVarint64 (varint_enc v @ rest) = Some (v, rest)"
proof -
  have "map ((*) 7) [0..<10] = [0, 7, 14, 21, 28, 35, 42, 49, 56, 63 :: nat]" by (simp add: upt_conv_Cons)
  with GetVarint64_loop_enc [of 0 v rest] show ?thesis
    by (simp add: GetVarint64_def GetVarint64Ptr_def)
qed

lemma GetVarint32_loop_enc:
  "GetVarint32_loop (map ((*) 7) [k..<5]) (ucast (take_bit (7 * k) v)) (varint_enc (drop_bit (7 * k) v) @ rest) =
    Some (ucast v, rest)"
  if "k < 5" and "drop_bit 35 v = 0"
  using that(1)
proof (induction "5 - k" arbitrary: k)
  case (Suc d)
  have shifts: "map ((*) 7) [k..<5] = (7 * k) # map ((*) 7) [Suc k..<5]"
    using Suc.prems by (simp add: upt_conv_Cons)
  let ?u = "drop_bit (7 * k) v"
  show ?case
  proof (cases "?u \<le> 0x7F")
    case True
    then show ?thesis
      by (simp only: shifts varint_enc_small append_Cons GetVarint32_loop_last u32_last_group append_Nil)
  next
    case False
    then have nz: "drop_bit 7 ?u \<noteq> 0" by (simp add: le_0x7F_bits)
    have lt: "Suc k < 5"
    proof (rule ccontr)
      assume "\<not> Suc k < 5"
      then have "drop_bit (7 + 7 * k) v = 0" by (intro drop_bit_0_mono [OF that(2)]) simp
      with nz show False by simp
    qed
    have "d = 5 - Suc k" using Suc.hyps(2) by simp
    note IH = Suc.hyps(1) [OF this lt]
    have "7 * Suc k = 7 * k + 7" "drop_bit 7 ?u = drop_bit (7 * k + 7) v" by (simp_all add: add.commute)
    with IH show ?thesis
      unfolding shifts varint_enc_more [OF False] append_Cons GetVarint32_loop_more u32_group by (simp only:)
  qed
qed simp

text \<open>The short cut for one byte changes nothing.\<close>

lemma GetVarint32Ptr_fallback: "GetVarint32Ptr p = GetVarint32PtrFallback p"
  by (auto simp: GetVarint32Ptr_def GetVarint32PtrFallback_def Let_def split: list.split)

theorem GetVarint32_enc: "GetVarint32 (varint_enc (ucast w) @ rest) = Some (w, rest)"
proof -
  have "map ((*) 7) [0..<5] = [0, 7, 14, 21, 28 :: nat]" by (simp add: upt_conv_Cons)
  moreover have "drop_bit 35 (ucast w :: u64) = 0"
    by (rule bit_word_eqI) (auto simp: bit_simps dest: bit_imp_le_length)
  ultimately show ?thesis
    using GetVarint32_loop_enc [of 0 "ucast w" rest]
    by (simp add: GetVarint32_def GetVarint32Ptr_fallback GetVarint32PtrFallback_def)
qed

lemma GetVarint32_EncodeVarint32 [simp]: "GetVarint32 (EncodeVarint32 w @ rest) = Some (w, rest)"
  by (simp add: EncodeVarint32_eq GetVarint32_enc)

lemma GetVarint32Ptr_EncodeVarint32 [simp]: "GetVarint32Ptr (EncodeVarint32 w @ rest) = Some (w, rest)"
  using GetVarint32_EncodeVarint32 [of w rest] by (simp add: GetVarint32_def split: option.splits)

lemma GetVarint64_EncodeVarint64 [simp]: "GetVarint64 (EncodeVarint64 v @ rest) = Some (v, rest)"
  by (simp add: EncodeVarint64_eq GetVarint64_enc)

lemma EncodeVarint_nonempty [simp]: "EncodeVarint32 w \<noteq> []" "EncodeVarint64 v \<noteq> []"
  by (simp_all add: EncodeVarint32_eq EncodeVarint64_eq)

text \<open>A reader takes at least one byte.\<close>

lemma GetVarint32_loop_suffix: "GetVarint32_loop shifts r p = Some (v, q) \<Longrightarrow> \<exists>c cs. p = c # cs @ q"
proof (induction shifts r p rule: GetVarint32_loop.induct)
  case (3 s ss r c p)
  show ?case
  proof (cases "(ucast c :: u32) AND 128 = 0")
    case True
    with 3(2) have "c # p = c # [] @ q" by (simp add: Let_def)
    then show ?thesis by blast
  next
    case False
    with 3(2) have "GetVarint32_loop ss (r OR push_bit s (ucast c AND 127)) p = Some (v, q)" by (simp add: Let_def)
    from 3(1) [OF refl False this] obtain d ds where "p = d # ds @ q" by blast
    then have "c # p = c # (d # ds) @ q" by simp
    then show ?thesis by blast
  qed
qed simp_all

lemma GetVarint32_suffix: "GetVarint32 p = Some (v, q) \<Longrightarrow> \<exists>c cs. p = c # cs @ q"
  by (auto simp: GetVarint32_def GetVarint32Ptr_fallback GetVarint32PtrFallback_def
      dest!: GetVarint32_loop_suffix split: option.splits)

lemma GetVarint64_loop_suffix: "GetVarint64_loop shifts r p = Some (v, q) \<Longrightarrow> \<exists>c cs. p = c # cs @ q"
proof (induction shifts r p rule: GetVarint64_loop.induct)
  case (3 s ss r c p)
  show ?case
  proof (cases "(ucast c :: u64) AND 128 = 0")
    case True
    with 3(2) have "c # p = c # [] @ q" by (simp add: Let_def)
    then show ?thesis by blast
  next
    case False
    with 3(2) have "GetVarint64_loop ss (r OR push_bit s (ucast c AND 127)) p = Some (v, q)" by (simp add: Let_def)
    from 3(1) [OF refl False this] obtain d ds where "p = d # ds @ q" by blast
    then have "c # p = c # (d # ds) @ q" by simp
    then show ?thesis by blast
  qed
qed simp_all

lemma GetVarint64_suffix: "GetVarint64 p = Some (v, q) \<Longrightarrow> \<exists>c cs. p = c # cs @ q"
  by (auto simp: GetVarint64_def GetVarint64Ptr_def dest!: GetVarint64_loop_suffix split: option.splits)

lemma GetLengthPrefixedSlice_suffix:
  "GetLengthPrefixedSlice p = Some (v, q) \<Longrightarrow> \<exists>c cs. p = c # cs @ v @ q"
  by (auto simp: GetLengthPrefixedSlice_def split: option.splits if_splits dest!: GetVarint32_suffix)

section \<open>Properties\<close>

definition length_prefixed :: "slice \<Rightarrow> slice" where
  "length_prefixed value = EncodeVarint32 (of_nat (length value)) @ value"

lemma PutLengthPrefixedSlice_eq: "PutLengthPrefixedSlice dst value = dst @ length_prefixed value"
  by (simp add: PutLengthPrefixedSlice_def PutVarint32_def length_prefixed_def)

lemma GetLengthPrefixedSlice_put [simp]:
  assumes "length value < 2 ^ 32"
  shows "GetLengthPrefixedSlice (length_prefixed value @ rest) = Some (value, rest)"
    and "GetLengthPrefixedSlicePtr (length_prefixed value @ rest) = Some (value, rest)"
  using assms
  by (simp_all add: GetLengthPrefixedSlice_def GetLengthPrefixedSlicePtr_def length_prefixed_def unat_of_nat32)

lemma DecodeFixed32_on_any: "DecodeFixed32_on little p = DecodeFixed32_on False p"
proof -
  have "length (buf_take 4 p) = Suc (Suc (Suc (Suc 0)))" by simp
  then obtain a b c d where p: "buf_take 4 p = [a, b, c, d]"
    unfolding length_Suc_conv by auto
  then have "DecodeFixed32_on l p = DecodeFixed32_on l [a, b, c, d]" for l
    by (simp add: DecodeFixed32_on_def)
  then show ?thesis by (simp add: DecodeFixed32_on_4)
qed

text \<open>C29: The special cases of the encoders and decoders compute what the general ones do: the memory copies of a
  little-endian machine are the shifts of the portable branches; \<open>EncodeVarint32\<close>, written out for its five lengths, is
  \<open>EncodeVarint64\<close>, which writes what nanopb's \<open>pb_encode_varint\<close> writes; \<open>VarintLength\<close> is the length of it; and the
  short cut of \<open>GetVarint32Ptr\<close> for one byte agrees with the loop.\<close>

theorem coding_equivalences:
  "EncodeFixed32_on True w = EncodeFixed32_on False w \<and> EncodeFixed64_on True v = EncodeFixed64_on False v \<and>
   DecodeFixed32_on True p = DecodeFixed32_on False p \<and>
   EncodeVarint32 w = EncodeVarint64 (ucast w) \<and> emits (\<lambda>s. pb_encode_varint s v) (EncodeVarint64 v) \<and>
   VarintLength v = int (length (EncodeVarint64 v)) \<and> GetVarint32Ptr p = GetVarint32PtrFallback p"
  using DecodeFixed32_on_any [of True p]
  by (simp add: EncodeFixed32_on_any EncodeFixed64_on_any EncodeVarint32_eq EncodeVarint64_eq emits_varint VarintLength_def
      VarintLength_loop_eq GetVarint32Ptr_fallback)

text \<open>C30: What the \<open>Put\<close> routines append, the \<open>Get\<close> routines read back from the front of a longer slice, which they
  leave at the first byte behind it: fixed-width integers, varints of both widths, and slices shorter than \<open>2 ^ 32\<close>
  bytes.\<close>

theorem coding_round_trip:
  assumes "length value < 2 ^ 32"
  shows "DecodeFixed32 (drop (length dst) (PutFixed32 dst w) @ rest) = w \<and>
    DecodeFixed64 (drop (length dst) (PutFixed64 dst v) @ rest) = v \<and>
    GetVarint32 (drop (length dst) (PutVarint32 dst w) @ rest) = Some (w, rest) \<and>
    GetVarint64 (drop (length dst) (PutVarint64 dst v) @ rest) = Some (v, rest) \<and>
    GetLengthPrefixedSlice (drop (length dst) (PutLengthPrefixedSlice dst value) @ rest) = Some (value, rest)"
  using assms
  by (simp add: PutFixed32_def PutFixed64_def PutVarint32_def PutVarint64_def PutLengthPrefixedSlice_eq)

theorem coding_round_trip_witness:
  "GetLengthPrefixedSlice (PutLengthPrefixedSlice [] [1, 2, 3] @ [7]) = Some ([1, 2, 3], [7]) \<and>
   GetVarint32 (PutVarint32 [] 300 @ [7]) = Some (300, [7])"
proof -
  have "length ([1, 2, 3] :: slice) < 2 ^ 32" by simp
  from coding_round_trip [OF this, of "[]" 300 "[7]" 0] show ?thesis by simp
qed

end
