(* ===== verification/Ldb_Crc.thy ===== *)
theory Ldb_Crc
  imports Ldb_Crc_Tables Ldb_Coding
begin

text \<open>
  The checksum of LevelDB (\<open>util/crc32c.h\<close>, \<open>util/crc32c.cc\<close>): the portable routine, which works on four interleaved
  strides of words, and the masking of stored checksums.  The loops of the source consume the bytes between \<open>p\<close> and
  \<open>e\<close>, so a loop returns what it leaves of them.
\<close>

definition kCRC32Xor :: u32 where
  "kCRC32Xor = 0xffffffff"

definition ReadUint32LE :: "slice \<Rightarrow> u32" where
  "ReadUint32LE = DecodeFixed32"

definition RoundUp4 :: "addr \<Rightarrow> addr" where
  "RoundUp4 p = (p + (4 - 1)) AND NOT (4 - 1)"

text \<open>The macros of \<open>Extend\<close>.\<close>

definition STEP1 :: "u32 \<Rightarrow> byte \<Rightarrow> u32" where
  "STEP1 l b = (let c = (l AND 0xff) XOR ucast b in kByteExtensionTable ! unat c XOR drop_bit 8 l)"

definition STEP4 :: "u32 \<Rightarrow> slice \<Rightarrow> u32" where
  "STEP4 crc p =
    ReadUint32LE p XOR kStrideExtensionTable3 ! unat (crc AND 0xff)
      XOR kStrideExtensionTable2 ! unat (drop_bit 8 crc AND 0xff)
      XOR kStrideExtensionTable1 ! unat (drop_bit 16 crc AND 0xff)
      XOR kStrideExtensionTable0 ! unat (drop_bit 24 crc)"

type_synonym strides = "u32 \<times> u32 \<times> u32 \<times> u32"

fun STEP16 :: "strides \<Rightarrow> slice \<Rightarrow> strides" where
  "STEP16 (crc0, crc1, crc2, crc3) p =
    (STEP4 crc0 (drop (0 * 4) p), STEP4 crc1 (drop (1 * 4) p), STEP4 crc2 (drop (2 * 4) p), STEP4 crc3 (drop (3 * 4) p))"

definition byte_of_word :: "u32 \<Rightarrow> u32" where
  "byte_of_word w = drop_bit 8 w XOR kByteExtensionTable ! unat (w AND 0xff)"

definition STEP4W :: "u32 \<Rightarrow> u32 \<Rightarrow> u32" where
  "STEP4W l w = (byte_of_word ^^ 4) (w XOR l)"

text \<open>The loops.\<close>

definition each_byte :: "u32 \<Rightarrow> slice \<Rightarrow> u32" where
  "each_byte l p = fold (\<lambda>b l. STEP1 l b) p l"

function each_swath :: "strides \<Rightarrow> slice \<Rightarrow> strides \<times> slice" where
  "each_swath crcs p = (if 16 \<le> length p then each_swath (STEP16 crcs p) (drop 16 p) else (crcs, p))"
  by pat_completeness auto
termination
  by (relation "measure (\<lambda>(crcs, p). length p)") auto

declare each_swath.simps [simp del]

function each_word :: "strides \<Rightarrow> slice \<Rightarrow> strides \<times> slice" where
  "each_word (crc0, crc1, crc2, crc3) p =
    (if 4 \<le> length p then each_word (crc1, crc2, crc3, STEP4 crc0 p) (drop 4 p) else ((crc0, crc1, crc2, crc3), p))"
  by pat_completeness auto
termination
  by (relation "measure (\<lambda>(crcs, p). length p)") auto

declare each_word.simps [simp del]

definition combine_strides :: "strides \<Rightarrow> u32" where
  "combine_strides crcs =
    (case crcs of (crc0, crc1, crc2, crc3) \<Rightarrow> STEP4W (STEP4W (STEP4W (STEP4W 0 crc0) crc1) crc2) crc3)"

definition by_strides :: "u32 \<Rightarrow> slice \<Rightarrow> u32 \<times> slice" where
  "by_strides l p =
    (if 16 \<le> length p then
       let crcs = (ReadUint32LE (drop (0 * 4) p) XOR l, ReadUint32LE (drop (1 * 4) p),
                   ReadUint32LE (drop (2 * 4) p), ReadUint32LE (drop (3 * 4) p));
           (crcs, p) = each_swath crcs (drop 16 p);
           (crcs, p) = each_word crcs p
       in (combine_strides crcs, p)
     else (l, p))"

text \<open>
  \<open>port::AcceleratedCRC32C\<close>: without \<open>HAVE_CRC32C\<close>, which no build file of the repository sets, it returns 0, and
  \<open>CanAccelerateCRC32C\<close> recognizes that.
\<close>

definition AcceleratedCRC32C :: "u32 \<Rightarrow> slice \<Rightarrow> u32" where
  "AcceleratedCRC32C crc buf = 0"

definition kTestCRCBuffer :: slice where
  "kTestCRCBuffer = [0x54, 0x65, 0x73, 0x74, 0x43, 0x52, 0x43, 0x42, 0x75, 0x66, 0x66, 0x65, 0x72]"

definition CanAccelerateCRC32C :: bool where
  "CanAccelerateCRC32C \<longleftrightarrow> AcceleratedCRC32C 0 kTestCRCBuffer = 0xdcbc59fa"

text \<open>\<open>data\<close> is the address of the bytes \<open>bs\<close>; the prologue goes byte by byte to the first aligned address.\<close>

definition Extend :: "u32 \<Rightarrow> addr \<Rightarrow> slice \<Rightarrow> u32" where
  "Extend crc data bs =
    (if CanAccelerateCRC32C then AcceleratedCRC32C crc bs
     else
       let e = data + of_nat (length bs);
           l = crc XOR kCRC32Xor;
           x = RoundUp4 data;
           k = (if x \<le> e then unat (x - data) else 0);
           l = each_byte l (take k bs);
           (l, p) = by_strides l (drop k bs)
       in each_byte l p XOR kCRC32Xor)"

definition crc_Value :: "addr \<Rightarrow> slice \<Rightarrow> u32" where
  "crc_Value data bs = Extend 0 data bs"

definition kMaskDelta :: u32 where
  "kMaskDelta = 0xa282ead8"

definition Mask :: "u32 \<Rightarrow> u32" where
  "Mask crc = (drop_bit 15 crc OR push_bit 17 crc) + kMaskDelta"

definition Unmask :: "u32 \<Rightarrow> u32" where
  "Unmask masked_crc = (let rot = masked_crc - kMaskDelta in drop_bit 17 rot OR push_bit 15 rot)"

end
