(* ===== verification/Ldb_Crc_Props.thy ===== *)
theory Ldb_Crc_Props
  imports Ldb_Crc
begin

text \<open>
  The routine of \<open>util/crc32c.cc\<close> computes CRC-32C: the reference is the bit-by-bit definition with the reflected
  polynomial \<open>0x82F63B78\<close>.  The register is moved over a byte by a linear map \<open>crc8\<close>; the tables hold its values, the
  words and the strides are sums of its powers.
\<close>

section \<open>The reference\<close>

definition crc_bit :: "u32 \<Rightarrow> u32" where
  "crc_bit l = (if bit l 0 then drop_bit 1 l XOR 0x82F63B78 else drop_bit 1 l)"

definition crc8 :: "u32 \<Rightarrow> u32" where
  "crc8 = crc_bit ^^ 8"

definition crc_bytes :: "u32 \<Rightarrow> byte list \<Rightarrow> u32" where
  "crc_bytes l bs = fold (\<lambda>b l. crc8 (l XOR ucast b)) bs l"

definition crc32c :: "u32 \<Rightarrow> byte list \<Rightarrow> u32" where
  "crc32c crc bs = NOT (crc_bytes (NOT crc) bs)"

lemma crc_bytes_append: "crc_bytes l (xs @ ys) = crc_bytes (crc_bytes l xs) ys"
  by (simp add: crc_bytes_def)

lemma crc_bytes_Nil [simp]: "crc_bytes l [] = l"
  by (simp add: crc_bytes_def)

lemma crc_bytes_Cons: "crc_bytes l (b # bs) = crc_bytes (crc8 (l XOR ucast b)) bs"
  by (simp add: crc_bytes_def)

section \<open>Linear maps\<close>

definition linear :: "(u32 \<Rightarrow> u32) \<Rightarrow> bool" where
  "linear f \<longleftrightarrow> (\<forall>x y. f (x XOR y) = f x XOR f y)"

lemma linearD: "linear f \<Longrightarrow> f (x XOR y) = f x XOR f y"
  by (simp add: linear_def)

lemma linear_0: "linear f \<Longrightarrow> f 0 = 0"
  using linearD [of f 0 0] by simp

lemma linear_funpow: "linear f \<Longrightarrow> linear (f ^^ n)"
  by (induction n) (auto simp: linear_def)

lemma linear_comp: "linear f \<Longrightarrow> linear g \<Longrightarrow> linear (\<lambda>x. f (g x))"
  by (simp add: linear_def)

lemma linear_push_bit: "linear (push_bit n)"
  by (simp add: linear_def push_bit_xor)

lemma linear_crc_bit: "linear crc_bit"
  unfolding linear_def crc_bit_def
  by (auto simp: bit_xor_iff drop_bit_xor xor.assoc xor.commute xor.left_commute)

lemma linear_crc8: "linear crc8"
  unfolding crc8_def by (rule linear_funpow [OF linear_crc_bit])

text \<open>The table of a linear map is built by doubling from its values at the powers of two.\<close>

primrec span :: "u32 list \<Rightarrow> u32 list" where
  "span [] = [0]"
| "span (b # bs) = span bs @ map ((XOR) b) (span bs)"

lemma length_span [simp]: "length (span bs) = 2 ^ length bs"
  by (induction bs) auto

lemma of_nat_add_power: "i < 2 ^ k \<Longrightarrow> (of_nat (2 ^ k + i) :: u32) = 2 ^ k XOR of_nat i" if "k < 32"
proof -
  assume i: "i < 2 ^ k"
  have "(2 ^ k :: u32) AND of_nat i = 0"
  proof (rule bit_word_eqI)
    fix n
    assume "n < LENGTH(32)"
    have "\<not> bit i k" using i by (metis bit_take_bit_iff less_irrefl take_bit_nat_eq_self)
    then show "bit ((2 ^ k :: u32) AND of_nat i) n = bit (0 :: u32) n"
      by (auto simp: bit_and_iff bit_exp_iff bit_of_nat_iff)
  qed
  then show ?thesis
    by (simp add: disjunctive_add_eq_xor)
qed

lemma span_nth:
  assumes "linear f" and "k \<le> 8" and "i < 2 ^ k"
  shows "span (map (\<lambda>j. f (2 ^ j)) (rev [0..<k])) ! i = f (of_nat i)"
  using assms(2,3)
proof (induction k arbitrary: i)
  case 0
  then show ?case by (simp add: linear_0 [OF assms(1)])
next
  case (Suc k)
  show ?case
  proof (cases "i < 2 ^ k")
    case True
    with Suc show ?thesis by (simp add: nth_append)
  next
    case False
    then obtain i' where i: "i = 2 ^ k + i'" "i' < 2 ^ k"
      using Suc.prems(2) by (metis le_add_diff_inverse not_less power_Suc mult_2 nat_add_left_cancel_less)
    have "k < 32" using Suc.prems(1) by simp
    with Suc i show ?thesis
      by (simp add: nth_append of_nat_add_power linearD [OF assms(1)] del: of_nat_add)
  qed
qed

lemma span_table:
  assumes "T = span [f 128, f 64, f 32, f 16, f 8, f 4, f 2, f 1]" and "linear f" and "i < 256"
  shows "T ! i = f (of_nat i)"
  using span_nth [OF assms(2), of 8 i] assms(1,3) by (simp add: numeral_eq_Suc)

section \<open>The tables\<close>

text \<open>
  The same computations on integers, where the \<^const>\<open>xor_num\<close> equations evaluate them quickly.
\<close>

definition bit_int :: "int \<Rightarrow> int" where
  "bit_int x = (if odd x then x div 2 XOR 0x82F63B78 else x div 2)"

definition byte_int :: "int \<Rightarrow> int" where
  "byte_int x = bit_int (bit_int (bit_int (bit_int (bit_int (bit_int (bit_int (bit_int x)))))))"

primrec span_int :: "int list \<Rightarrow> int list" where
  "span_int [] = [0]"
| "span_int (b # bs) = span_int bs @ map ((XOR) b) (span_int bs)"

primrec powers_int :: "nat \<Rightarrow> int list" where
  "powers_int 0 = [128, 64, 32, 16, 8, 4, 2, 1]"
| "powers_int (Suc n) = map byte_int (powers_int n)"

lemma bit_int_numeral:
  "bit_int 0 = 0" "bit_int 1 = 0x82F63B78" "bit_int Numeral1 = 0x82F63B78" "bit_int (numeral (Num.Bit0 n)) = numeral n"
  "bit_int (numeral (Num.Bit1 n)) = numeral n XOR 0x82F63B78"
  by (simp_all add: bit_int_def)

lemmas int_eval = bit_int_numeral byte_int_def span_int.simps powers_int.simps numeral_xor_num xor_num.simps
  option.case option.map append.simps list.map xor.left_neutral xor.right_neutral

lemma uint_crc_bit: "uint (crc_bit x) = bit_int (uint x)"
proof -
  have "take_bit LENGTH(32) (uint x) = uint x" by transfer simp
  then have "uint (drop_bit 1 x) = uint x div 2"
    by (simp only: unsigned_drop_bit_eq) (simp only: drop_bit_eq_div power_one_right)
  moreover have "bit x 0 \<longleftrightarrow> odd (uint x)" using bit_uint_iff [of x 0] by (simp add: bit_0)
  ultimately show ?thesis by (simp add: crc_bit_def bit_int_def uint_xor)
qed

lemma uint_crc8: "uint (crc8 x) = byte_int (uint x)"
  by (simp add: crc8_def byte_int_def uint_crc_bit numeral_eq_Suc)

definition byte_basis :: "(u32 \<Rightarrow> u32) \<Rightarrow> u32 list" where
  "byte_basis f = map f [128, 64, 32, 16, 8, 4, 2, 1]"

lemma uint_byte_basis: "map uint (byte_basis (crc8 ^^ n)) = powers_int n"
proof (induction n)
  case (Suc n)
  have "map uint (byte_basis (crc8 ^^ Suc n)) = map byte_int (map uint (byte_basis (crc8 ^^ n)))"
    by (simp add: byte_basis_def uint_crc8)
  then show ?case by (simp only: Suc.IH powers_int.simps)
qed (simp add: byte_basis_def)

lemma uint_span: "map uint (span bs) = span_int (map uint bs)"
  by (induction bs) (simp_all add: uint_xor flip: map_map [unfolded comp_def] cong: map_cong)

lemma table_intI:
  assumes "T = map word_of_int (span_int (powers_int n))"
  shows "T = span (byte_basis (crc8 ^^ n))"
proof -
  have "map (word_of_int :: int \<Rightarrow> u32) (map uint xs) = xs" for xs by (simp add: map_idI)
  then show ?thesis using assms by (metis uint_span uint_byte_basis)
qed

lemma Suc_13:
  "13 = Suc (Suc (Suc (Suc (Suc (Suc (Suc (Suc (Suc (Suc (Suc (Suc (Suc 0))))))))))))"
  by simp

lemma byte_table: "kByteExtensionTable = span (byte_basis (crc8 ^^ 1))"
  by (rule table_intI) (simp only: One_nat_def int_eval kByteExtensionTable_def of_int_numeral of_int_0 of_int_1)

lemma stride_table0: "kStrideExtensionTable0 = span (byte_basis (crc8 ^^ 13))"
  by (rule table_intI)
    (simp only: Suc_13 int_eval kStrideExtensionTable0_def of_int_numeral of_int_0 of_int_1)

lemma stride_table1: "kStrideExtensionTable1 = span (byte_basis (crc8 ^^ Suc 13))"
  by (rule table_intI)
    (simp only: Suc_13 int_eval kStrideExtensionTable1_def of_int_numeral of_int_0 of_int_1)

lemma stride_table2: "kStrideExtensionTable2 = span (byte_basis (crc8 ^^ Suc (Suc 13)))"
  by (rule table_intI)
    (simp only: Suc_13 int_eval kStrideExtensionTable2_def of_int_numeral of_int_0 of_int_1)

lemma stride_table3: "kStrideExtensionTable3 = span (byte_basis (crc8 ^^ Suc (Suc (Suc 13))))"
  by (rule table_intI)
    (simp only: Suc_13 int_eval kStrideExtensionTable3_def of_int_numeral of_int_0 of_int_1)

lemma unat_less_256: "unat (x :: u32) < 256" if "x = take_bit 8 y"
proof -
  have "unat (take_bit 8 y) = take_bit 8 (unat y)" by (simp add: unsigned_take_bit_eq)
  then show ?thesis using that by (simp add: take_bit_eq_mod)
qed

lemma table_at:
  assumes "T = span (byte_basis f)" and "linear f"
  shows "T ! unat (take_bit 8 y) = f (take_bit 8 y)"
proof -
  have "unat (take_bit 8 y) < 256" by (rule unat_less_256) (rule refl)
  from span_table [OF _ assms(2) this, of T] assms(1) show ?thesis by (simp add: byte_basis_def)
qed

section \<open>One byte, one word, one stride\<close>

lemma crc_bit_even: "\<not> bit l 0 \<Longrightarrow> crc_bit l = drop_bit 1 l"
  by (simp add: crc_bit_def)

lemma crc_bit_push: "drop_bit (31 - n) y = 0 \<Longrightarrow> crc_bit (push_bit (Suc n) y) = push_bit n y" if "n < 32"
proof -
  assume y: "drop_bit (31 - n) y = 0"
  have "crc_bit (push_bit (Suc n) y) = drop_bit 1 (push_bit (Suc n) y)"
    by (rule crc_bit_even) (simp only: bit_push_bit_iff, simp)
  also have "\<dots> = push_bit n y"
  proof (rule bit_word_eqI)
    fix i
    have "bit y (i - n) \<Longrightarrow> i - n < 31 - n" using drop_bit_0_bit [OF y] by (meson not_less)
    then show "bit (drop_bit 1 (push_bit (Suc n) y)) i = bit (push_bit n y) i"
      unfolding bit_drop_bit_eq bit_push_bit_iff comp_def by auto
  qed
  finally show ?thesis .
qed

lemma crc_bits_push: "drop_bit (32 - n) y = 0 \<Longrightarrow> n \<le> 32 \<Longrightarrow> (crc_bit ^^ n) (push_bit n y) = y"
proof (induction n)
  case (Suc n)
  have "drop_bit (31 - n) y = 0" using Suc.prems(1) by simp
  moreover have "drop_bit (32 - n) y = 0" by (rule drop_bit_0_mono [OF Suc.prems(1)]) simp
  ultimately show ?case
    using Suc.IH Suc.prems(2) crc_bit_push [of n y] by (simp add: funpow_Suc_right del: funpow.simps push_bit_Suc)
qed simp

lemma crc8_push: "drop_bit 24 y = 0 \<Longrightarrow> crc8 (push_bit 8 y) = y"
  using crc_bits_push [of 8 y] by (simp add: crc8_def)

lemma low_byte_split: "take_bit 8 l XOR push_bit 8 (drop_bit 8 l) = (l :: u32)"
proof (rule bit_word_eqI)
  fix n
  show "bit (take_bit 8 l XOR push_bit 8 (drop_bit 8 l)) n = bit l n"
    by (cases "n < 8") (auto simp: bit_simps dest: bit_imp_le_length)
qed

lemma drop_drop_8: "drop_bit 24 (drop_bit 8 (l :: u32)) = 0"
  by (rule bit_word_eqI) (auto simp: bit_simps dest: bit_imp_le_length)

lemma crc8_split: "crc8 l = crc8 (take_bit 8 l) XOR drop_bit 8 l"
proof -
  have "crc8 l = crc8 (take_bit 8 l) XOR crc8 (push_bit 8 (drop_bit 8 l))"
    using linearD [OF linear_crc8, of "take_bit 8 l" "push_bit 8 (drop_bit 8 l)"] by (simp add: low_byte_split)
  then show ?thesis by (simp add: crc8_push drop_drop_8)
qed

lemma byte_table_at: "kByteExtensionTable ! unat (take_bit 8 y) = crc8 (take_bit 8 y)"
  using table_at [OF byte_table] linear_crc8 by simp

lemma byte_of_word_eq: "byte_of_word w = crc8 w"
  unfolding byte_of_word_def and_0xFF byte_table_at by (subst crc8_split [of w]) (rule xor.commute)

lemma STEP1_eq: "STEP1 l b = crc8 (l XOR ucast b)"
proof -
  have b: "take_bit 8 (ucast b :: u32) = ucast b" and d: "drop_bit 8 (ucast b :: u32) = 0"
    by (rule bit_word_eqI, auto simp: bit_simps dest: bit_imp_le_length)+
  have "STEP1 l b = crc8 (take_bit 8 (l XOR ucast b)) XOR drop_bit 8 (l XOR ucast b)"
    using byte_table_at [of "l XOR ucast b"]
    by (simp add: STEP1_def Let_def and_0xFF take_bit_xor drop_bit_xor b d)
  then show ?thesis using crc8_split [of "l XOR ucast b"] by simp
qed

lemma each_byte_eq: "each_byte l p = crc_bytes l p"
  by (simp add: each_byte_def crc_bytes_def STEP1_eq)

text \<open>A word moves the register like its four bytes.\<close>

definition word_step :: "u32 \<Rightarrow> u32 \<Rightarrow> u32" where
  "word_step l w = (crc8 ^^ 4) (l XOR w)"

lemma crc8_next: "crc8 (l XOR w) = crc8 (l XOR take_bit 8 w) XOR drop_bit 8 w"
proof -
  have "l XOR w = (l XOR take_bit 8 w) XOR push_bit 8 (drop_bit 8 w)"
    by (simp only: xor.assoc low_byte_split)
  then show ?thesis
    using linearD [OF linear_crc8] by (simp only: crc8_push [OF drop_drop_8])
qed

lemma word_step_bytes:
  "crc_bytes l (a # b # c # d # rest) = crc_bytes (word_step l (ReadUint32LE (a # b # c # d # rest'))) rest"
proof -
  define w where "w = (ucast a OR push_bit 8 (ucast b) OR push_bit 16 (ucast c) OR push_bit 24 (ucast d) :: u32)"
  have w: "ReadUint32LE (a # b # c # d # rest') = w"
    by (simp add: ReadUint32LE_def DecodeFixed32_def DecodeFixed32_on_4 w_def)
  have bytes: "take_bit 8 w = ucast a" "take_bit 8 (drop_bit 8 w) = ucast b"
    "take_bit 8 (drop_bit 16 w) = ucast c" "take_bit 8 (drop_bit 24 w) = ucast d" "drop_bit 32 w = 0"
    unfolding w_def by (rule bit_word_eqI, auto simp: bit_simps dest: bit_imp_le_length)+
  have step: "crc8 (l XOR drop_bit n w) = crc8 (l XOR take_bit 8 (drop_bit n w)) XOR drop_bit (n + 8) w" for l n
    using crc8_next [of l "drop_bit n w"] by (simp add: add.commute)
  have "crc8 (l XOR w) = crc8 (l XOR ucast a) XOR drop_bit 8 w" for l
    using step [of l 0] bytes by simp
  moreover have "crc8 (l XOR drop_bit 8 w) = crc8 (l XOR ucast b) XOR drop_bit 16 w" for l
    using step [of l 8] by (simp add: bytes)
  moreover have "crc8 (l XOR drop_bit 16 w) = crc8 (l XOR ucast c) XOR drop_bit 24 w" for l
    using step [of l 16] by (simp add: bytes)
  moreover have "crc8 (l XOR drop_bit 24 w) = crc8 (l XOR ucast d)" for l
    using step [of l 24] by (simp add: bytes)
  moreover have "word_step l w = crc8 (crc8 (crc8 (crc8 (l XOR w))))"
    by (simp add: word_step_def numeral_eq_Suc)
  ultimately have "word_step l w = crc8 (crc8 (crc8 (crc8 (l XOR ucast a) XOR ucast b) XOR ucast c) XOR ucast d)"
    by (simp only:)
  then show ?thesis by (simp add: w crc_bytes_Cons)
qed

lemma STEP4W_eq: "STEP4W l w = word_step l w"
proof -
  have "byte_of_word = crc8" by (rule ext) (rule byte_of_word_eq)
  then show ?thesis by (simp add: STEP4W_def word_step_def xor.commute)
qed

text \<open>Sixteen bytes later.\<close>

lemma crc8_pow_push: "drop_bit 24 y = 0 \<Longrightarrow> (crc8 ^^ Suc n) (push_bit 8 y) = (crc8 ^^ n) y"
  by (simp only: funpow_Suc_right comp_apply crc8_push)

lemma drop_24_byte: "m \<le> 16 \<Longrightarrow> drop_bit 24 (push_bit m (take_bit 8 y) :: u32) = 0"
  by (rule bit_word_eqI) (auto simp: bit_simps)

lemma stride_at:
  "kStrideExtensionTable3 ! unat (take_bit 8 y) = (crc8 ^^ 16) (take_bit 8 y)"
  "kStrideExtensionTable2 ! unat (take_bit 8 y) = (crc8 ^^ 16) (push_bit 8 (take_bit 8 y))"
  "kStrideExtensionTable1 ! unat (take_bit 8 y) = (crc8 ^^ 16) (push_bit 16 (take_bit 8 y))"
  "kStrideExtensionTable0 ! unat (take_bit 8 y) = (crc8 ^^ 16) (push_bit 24 (take_bit 8 y))"
proof -
  note at = table_at [OF _ linear_funpow [OF linear_crc8]]
  have n: "crc8 ^^ 16 = crc8 ^^ Suc (Suc (Suc 13))" by (rule arg_cong [where f = "\<lambda>k. crc8 ^^ k"]) simp
  have p: "push_bit 16 z = push_bit 8 (push_bit 8 z)" "push_bit 24 z = push_bit 8 (push_bit 16 z)" for z :: u32
    by simp_all
  note small = drop_24_byte [of 0 y] drop_24_byte [of 8 y] drop_24_byte [of 16 y]
  show "kStrideExtensionTable3 ! unat (take_bit 8 y) = (crc8 ^^ 16) (take_bit 8 y)"
    unfolding n by (rule at [OF stride_table3])
  show "kStrideExtensionTable2 ! unat (take_bit 8 y) = (crc8 ^^ 16) (push_bit 8 (take_bit 8 y))"
    unfolding n using small by (simp only: crc8_pow_push at [OF stride_table2] push_bit_0_id id_apply)
  show "kStrideExtensionTable1 ! unat (take_bit 8 y) = (crc8 ^^ 16) (push_bit 16 (take_bit 8 y))"
    unfolding n p(1) using small by (simp only: crc8_pow_push at [OF stride_table1] push_bit_0_id id_apply)
  show "kStrideExtensionTable0 ! unat (take_bit 8 y) = (crc8 ^^ 16) (push_bit 24 (take_bit 8 y))"
    unfolding n p(2) using small
    by (simp only: crc8_pow_push at [OF stride_table0] push_bit_0_id id_apply, simp only: p(1) crc8_pow_push)
qed

lemma four_bytes:
  "take_bit 8 l XOR push_bit 8 (take_bit 8 (drop_bit 8 l)) XOR push_bit 16 (take_bit 8 (drop_bit 16 l)) XOR
    push_bit 24 (take_bit 8 (drop_bit 24 l)) = (l :: u32)"
proof (rule bit_word_eqI)
  fix n :: nat
  assume "n < LENGTH(32)"
  then consider "n < 8" | "8 \<le> n" "n < 16" | "16 \<le> n" "n < 24" | "24 \<le> n" "n < 32" by fastforce
  then show "bit (take_bit 8 l XOR push_bit 8 (take_bit 8 (drop_bit 8 l)) XOR push_bit 16 (take_bit 8 (drop_bit 16 l)) XOR
    push_bit 24 (take_bit 8 (drop_bit 24 l))) n = bit l n"
    by cases (auto simp: bit_simps)
qed

lemma STEP4_eq: "STEP4 crc p = ReadUint32LE p XOR (crc8 ^^ 16) crc"
proof -
  have t: "drop_bit 24 crc = take_bit 8 (drop_bit 24 crc)"
    by (rule bit_word_eqI) (auto simp: bit_simps dest: bit_imp_le_length)
  note lin = linearD [OF linear_funpow [OF linear_crc8], of 16]
  have "STEP4 crc p = ReadUint32LE p XOR ((crc8 ^^ 16) (take_bit 8 crc XOR push_bit 8 (take_bit 8 (drop_bit 8 crc)) XOR
      push_bit 16 (take_bit 8 (drop_bit 16 crc)) XOR push_bit 24 (take_bit 8 (drop_bit 24 crc))))"
    unfolding STEP4_def and_0xFF lin by (subst t) (simp only: stride_at xor.assoc)
  then show ?thesis by (simp only: four_bytes)
qed

section \<open>The strides\<close>

text \<open>The register that four strides stand for, and what the rest of the bytes makes of it.\<close>

definition strides_register :: "strides \<Rightarrow> u32" where
  "strides_register crcs =
    (case crcs of (crc0, crc1, crc2, crc3) \<Rightarrow>
       word_step (word_step (word_step (word_step 0 crc0) crc1) crc2) crc3)"

lemma combine_strides_eq: "combine_strides crcs = strides_register crcs"
  by (simp add: combine_strides_def strides_register_def STEP4W_eq split: prod.split)

lemma word_step_linear: "word_step (l XOR m) (w XOR v) = word_step l w XOR word_step m v"
proof -
  have "(l XOR m) XOR (w XOR v) = (l XOR w) XOR (m XOR v)" by (simp only: xor.assoc xor.left_commute)
  then show ?thesis using linearD [OF linear_funpow [OF linear_crc8]] by (simp only: word_step_def)
qed

lemma word_step_0: "word_step l w = word_step 0 (l XOR w)"
  by (simp add: word_step_def)

lemma word_step_power: "word_step ((crc8 ^^ n) l) ((crc8 ^^ n) w) = (crc8 ^^ n) (word_step l w)"
proof -
  have "(crc8 ^^ n) l XOR (crc8 ^^ n) w = (crc8 ^^ n) (l XOR w)"
    by (simp only: linearD [OF linear_funpow [OF linear_crc8]])
  then show ?thesis
    unfolding word_step_def by (metis comp_apply funpow_add add.commute)
qed

lemma four_words: "word_step (word_step (word_step (word_step l 0) 0) 0) 0 = (crc8 ^^ 16) l"
proof -
  have "(16 :: nat) = 4 + (4 + (4 + 4))" by simp
  then show ?thesis unfolding word_step_def by (simp only: funpow_add comp_apply xor.right_neutral)
qed

lemma strides_register_step16:
  "strides_register (d0 XOR (crc8 ^^ 16) c0, d1 XOR (crc8 ^^ 16) c1, d2 XOR (crc8 ^^ 16) c2, d3 XOR (crc8 ^^ 16) c3) =
    word_step (word_step (word_step (word_step (strides_register (c0, c1, c2, c3)) d0) d1) d2) d3"
proof -
  let ?p = "crc8 ^^ 16" and ?r = "strides_register (c0, c1, c2, c3)"
  have "strides_register (?p c0, ?p c1, ?p c2, ?p c3) = ?p ?r"
    using word_step_power [of 16 0 c0] linear_0 [OF linear_funpow [OF linear_crc8], of 16]
    by (simp only: strides_register_def prod.case word_step_power)
  moreover have "strides_register (d0 XOR ?p c0, d1 XOR ?p c1, d2 XOR ?p c2, d3 XOR ?p c3) =
      strides_register (d0, d1, d2, d3) XOR strides_register (?p c0, ?p c1, ?p c2, ?p c3)"
    using word_step_linear [of 0 0] by (simp only: strides_register_def prod.case word_step_linear xor_self_eq)
  moreover have "word_step (word_step (word_step (word_step ?r d0) d1) d2) d3 =
      strides_register (d0, d1, d2, d3) XOR ?p ?r"
    using word_step_linear [of 0 ?r d0 0] word_step_linear [where w = d1 and v = 0]
      word_step_linear [where w = d2 and v = 0] word_step_linear [where w = d3 and v = 0]
    by (simp only: strides_register_def prod.case xor.left_neutral xor.right_neutral four_words)
  ultimately show ?thesis by (simp only:)
qed

lemma strides_register_step4:
  "strides_register (c1, c2, c3, d XOR (crc8 ^^ 16) c0) = word_step (strides_register (c0, c1, c2, c3)) d"
proof -
  have "word_step (strides_register (0, c1, c2, c3)) (d XOR (crc8 ^^ 16) c0) =
      word_step (strides_register (0, c1, c2, c3) XOR (crc8 ^^ 16) c0) d"
    by (simp only: word_step_def xor.assoc xor.commute xor.left_commute)
  moreover have "strides_register (0, c1, c2, c3) XOR (crc8 ^^ 16) c0 = strides_register (c0, c1, c2, c3)"
    using word_step_linear [of 0 "word_step 0 c0" c1 0] word_step_linear [where w = c2 and v = 0]
      word_step_linear [where w = c3 and v = 0] four_words [of c0] word_step_0 [of c0 0]
    by (simp add: strides_register_def word_step_def linear_0 [OF linear_funpow [OF linear_crc8]])
  moreover have "strides_register (c1, c2, c3, d XOR (crc8 ^^ 16) c0) =
      word_step (strides_register (0, c1, c2, c3)) (d XOR (crc8 ^^ 16) c0)"
    by (simp add: strides_register_def word_step_def linear_0 [OF linear_funpow [OF linear_crc8]])
  ultimately show ?thesis by (simp only:)
qed

lemma crc_bytes_word:
  assumes "4 \<le> length p"
  shows "crc_bytes l p = crc_bytes (word_step l (ReadUint32LE p)) (drop 4 p)"
proof -
  obtain a b c d rest where "p = a # b # c # d # rest"
    using assms by (auto simp: numeral_eq_Suc Suc_le_length_iff)
  then show ?thesis using word_step_bytes [of l a b c d rest rest] by (simp add: numeral_eq_Suc)
qed

lemma crc_bytes_swath:
  assumes "16 \<le> length p"
  shows "crc_bytes l p = crc_bytes (word_step (word_step (word_step (word_step l (ReadUint32LE (drop (0 * 4) p)))
    (ReadUint32LE (drop (1 * 4) p))) (ReadUint32LE (drop (2 * 4) p))) (ReadUint32LE (drop (3 * 4) p))) (drop 16 p)"
  using assms crc_bytes_word [of p] crc_bytes_word [of "drop 4 p"] crc_bytes_word [of "drop 8 p"]
    crc_bytes_word [of "drop 12 p"]
  by simp

lemma STEP16_register:
  "strides_register (STEP16 crcs p) = word_step (word_step (word_step (word_step (strides_register crcs)
    (ReadUint32LE (drop (0 * 4) p))) (ReadUint32LE (drop (1 * 4) p))) (ReadUint32LE (drop (2 * 4) p)))
    (ReadUint32LE (drop (3 * 4) p))"
  by (cases crcs) (simp only: STEP16.simps STEP4_eq strides_register_step16)

text \<open>The loops keep what register and remaining bytes make together.\<close>

definition outcome :: "strides \<times> slice \<Rightarrow> u32" where
  "outcome r = crc_bytes (strides_register (fst r)) (snd r)"

lemma outcome_each_swath: "outcome (each_swath crcs p) = outcome (crcs, p)"
proof (induction crcs p rule: each_swath.induct)
  case (1 crcs p)
  then show ?case
    by (cases "16 \<le> length p")
      (simp_all add: each_swath.simps [of crcs p] outcome_def crc_bytes_swath [of p] STEP16_register)
qed

lemma outcome_each_word: "outcome (each_word crcs p) = outcome (crcs, p)"
proof (induction crcs p rule: each_word.induct)
  case (1 crc0 crc1 crc2 crc3 p)
  then show ?case
    by (cases "4 \<le> length p")
      (simp_all add: each_word.simps [of crc0 crc1 crc2 crc3 p] outcome_def crc_bytes_word [of p] STEP4_eq
        strides_register_step4)
qed

lemma by_strides_eq: "by_strides l p = (l', p') \<Longrightarrow> crc_bytes l' p' = crc_bytes l p"
proof -
  assume r: "by_strides l p = (l', p')"
  show ?thesis
  proof (cases "16 \<le> length p")
    case True
    let ?crcs = "(ReadUint32LE (drop (0 * 4) p) XOR l, ReadUint32LE (drop (1 * 4) p),
                   ReadUint32LE (drop (2 * 4) p), ReadUint32LE (drop (3 * 4) p))"
    obtain crcs q where q: "each_swath ?crcs (drop 16 p) = (crcs, q)" by fastforce
    obtain crcs' q' where q': "each_word crcs q = (crcs', q')" by fastforce
    have "l' = strides_register crcs'" "p' = q'"
      using r True q q' unfolding by_strides_def Let_def by (simp_all add: combine_strides_eq)
    then have "crc_bytes l' p' = outcome (each_word crcs q)" by (simp add: q' outcome_def)
    also have "\<dots> = outcome (?crcs, drop 16 p)"
      using outcome_each_word [of crcs q] outcome_each_swath [of ?crcs "drop 16 p"] by (simp only: q)
    also have "\<dots> = crc_bytes l p"
      unfolding outcome_def fst_conv snd_conv strides_register_def prod.case crc_bytes_swath [OF True, of l]
      by (simp only: word_step_0 [of l "ReadUint32LE (drop (0 * 4) p)"] xor.commute)
    finally show ?thesis .
  next
    case False
    with r show ?thesis by (auto simp: by_strides_def)
  qed
qed

section \<open>The whole routine\<close>

lemma kCRC32Xor_not: "x XOR kCRC32Xor = NOT x"
proof -
  have "kCRC32Xor = mask 32" by (simp add: kCRC32Xor_def mask_eq_exp_minus_1)
  show ?thesis
    unfolding \<open>kCRC32Xor = mask 32\<close>
    by (rule bit_word_eqI) (simp only: bit_xor_iff bit_mask_iff bit_not_iff, simp)
qed

text \<open>The prologue stays inside the buffer, unless the buffer reaches into the last three addresses.\<close>

lemma RoundUp4_bounds:
  assumes "unat data + 3 < 2 ^ 64"
  shows "unat data \<le> unat (RoundUp4 data)" and "unat (RoundUp4 data) \<le> unat data + 3"
proof -
  let ?x = "data + 3"
  have x: "unat ?x = unat data + 3" using assms by (simp add: unat_word_ariths)
  have eq: "RoundUp4 data = ?x AND NOT 3" by (simp add: RoundUp4_def)
  have "unat (?x AND NOT 3) \<le> unat ?x" by (simp only: word_and_le2 flip: word_le_nat_alt)
  then show "unat (RoundUp4 data) \<le> unat data + 3" by (simp only: eq x)
  have "(?x AND NOT 3) AND (?x AND 3) = 0" by (rule bit_word_eqI) (simp only: bit_simps, simp)
  then have "(?x AND NOT 3) + (?x AND 3) = (?x AND NOT 3) OR (?x AND 3)" by (rule disjunctive_add_eq_or)
  also have "\<dots> = ?x" by (rule bit_word_eqI) (auto simp only: bit_or_iff bit_and_iff bit_not_iff possible_bit_word)
  finally have "unat ?x \<le> unat (?x AND NOT 3) + unat (?x AND 3)"
    by (metis unat_plus_simple word_le_nat_alt unat_word_ariths(1) mod_less_eq_dividend)
  moreover have "?x AND 3 \<le> 3" by (rule word_and_le1)
  then have "unat (?x AND 3) \<le> 3" by (simp add: word_le_nat_alt)
  ultimately show "unat data \<le> unat (RoundUp4 data)" by (simp only: eq x)
qed

lemma prologue_in_buffer:
  assumes "unat data + length bs + 3 < 2 ^ 64" and "RoundUp4 data \<le> data + of_nat (length bs)"
  shows "unat (RoundUp4 data - data) \<le> length bs"
proof -
  have "unat (data + of_nat (length bs)) = unat data + length bs"
    using assms(1) by (simp add: unat_word_ariths unat_of_nat64)
  moreover have "unat data \<le> unat (RoundUp4 data)" using RoundUp4_bounds [of data] assms(1) by simp
  ultimately show ?thesis
    using assms(2) by (simp add: unat_minus_le word_le_nat_alt)
qed

theorem Extend_crc32c: "Extend crc data bs = crc32c crc bs"
proof -
  define k where "k = (if RoundUp4 data \<le> data + of_nat (length bs) then unat (RoundUp4 data - data) else 0)"
  obtain l p where lp: "by_strides (each_byte (crc XOR kCRC32Xor) (take k bs)) (drop k bs) = (l, p)" by fastforce
  have "Extend crc data bs = each_byte l p XOR kCRC32Xor"
    using lp by (simp add: Extend_def CanAccelerateCRC32C_def AcceleratedCRC32C_def Let_def flip: k_def)
  also have "\<dots> = NOT (crc_bytes l p)" by (simp add: kCRC32Xor_not each_byte_eq)
  also have "crc_bytes l p = crc_bytes (NOT crc) (take k bs @ drop k bs)"
    using by_strides_eq [OF lp] by (simp only: crc_bytes_append each_byte_eq kCRC32Xor_not)
  finally show ?thesis by (simp add: crc32c_def)
qed

section \<open>Masked checksums\<close>

lemma Unmask_Mask: "Unmask (Mask crc) = crc"
proof -
  have "drop_bit 17 (drop_bit 15 crc OR push_bit 17 crc) OR push_bit 15 (drop_bit 15 crc OR push_bit 17 crc) = crc"
  proof (rule bit_word_eqI)
    fix n :: nat
    assume "n < LENGTH(32)"
    then show "bit (drop_bit 17 (drop_bit 15 crc OR push_bit 17 crc) OR
        push_bit 15 (drop_bit 15 crc OR push_bit 17 crc)) n = bit crc n"
      by (cases "n < 15") (auto simp: bit_simps dest: bit_imp_le_length)
  qed
  then show ?thesis by (simp add: Unmask_def Mask_def Let_def)
qed

lemma crc32c_append: "crc32c crc (xs @ ys) = crc32c (crc32c crc xs) ys"
  by (simp add: crc32c_def crc_bytes_append)

lemma crc_Value_eq: "crc_Value data bs = crc32c 0 bs"
  by (simp add: crc_Value_def Extend_crc32c)

lemma uint_byte: "uint (ucast (a :: byte) :: u32) = uint a"
  by (simp add: uint_up_ucast is_up)

lemma uint_crc_bytes: "uint (crc_bytes l bs) = fold (\<lambda>b l. byte_int (l XOR b)) (map uint bs) (uint l)"
  by (induction bs arbitrary: l) (simp_all add: crc_bytes_Cons uint_crc8 uint_xor uint_byte)

lemma test_vector: "crc32c 0 kTestCRCBuffer = 0xdcbc59fa"
proof -
  have "map uint kTestCRCBuffer = [0x54, 0x65, 0x73, 0x74, 0x43, 0x52, 0x43, 0x42, 0x75, 0x66, 0x66, 0x65, 0x72]"
    and "uint (NOT 0 :: u32) = 0xffffffff"
    by (simp_all add: kTestCRCBuffer_def unsigned_minus_1_eq_mask mask_eq_exp_minus_1)
  then have "uint (crc_bytes (NOT 0) kTestCRCBuffer) = 0x2343A605"
    by (simp only: uint_crc_bytes fold_simps int_eval)
  then have "crc_bytes (NOT 0) kTestCRCBuffer = 0x2343A605" by (simp add: word_uint_eq_iff)
  then show ?thesis by (simp add: crc32c_def)
qed

text \<open>C31: \<open>crc32c::Extend\<close>, with its tables, its alignment prologue and its four interleaved strides, computes CRC-32C
  as it is defined bit by bit, wherever the data lies; extending by two pieces is extending by their concatenation; the
  check value of \<open>CanAccelerateCRC32C\<close> is the CRC of its text; and \<open>Unmask\<close> undoes \<open>Mask\<close>.\<close>

theorem checksum_is_crc32c:
  "Extend crc data bs = crc32c crc bs \<and>
   Extend (Extend crc data xs) data' ys = Extend crc data (xs @ ys) \<and>
   crc_Value data kTestCRCBuffer = 0xdcbc59fa \<and> Unmask (Mask crc) = crc"
  by (simp add: crc_Value_eq Extend_crc32c crc32c_append Unmask_Mask test_vector)

end
