(* ===== verification/Ldb_Env.thy ===== *)
theory Ldb_Env
  imports Ldb_Coding "HOL-Library.Sublist"
begin

text \<open>
  Status values (\<open>include/leveldb/status.h\<close>, \<open>util/status.cc\<close>) and the files of the POSIX environment
  (\<open>util/env_posix.cc\<close>).  The operating system is a parameter: a list of the outcomes of its next calls (a short write,
  an interruption, a failure), after which its calls do all they are asked to do.
\<close>

section \<open>Status\<close>

datatype code = kNotFound | kCorruption | kNotSupported | kInvalidArgument | kIOError

text \<open>\<open>state_\<close> is null for success and holds a code and a message otherwise.\<close>

datatype status = OK | Failed code slice

definition ok :: "status \<Rightarrow> bool" where
  "ok s = (s = OK)"

text \<open>The characters of a string literal.\<close>

definition chars :: "string \<Rightarrow> slice" where
  "chars = map of_char"

definition Status :: "code \<Rightarrow> slice \<Rightarrow> slice \<Rightarrow> status" where
  "Status code msg msg2 = Failed code (if msg2 \<noteq> [] then msg @ chars '': '' @ msg2 else msg)"

definition Corruption :: "slice \<Rightarrow> status" where
  "Corruption msg = Status kCorruption msg []"

definition ToString :: "status \<Rightarrow> slice" where
  "ToString s =
    (case s of
       OK \<Rightarrow> chars ''OK''
     | Failed code msg \<Rightarrow>
         (case code of
            kNotFound \<Rightarrow> chars ''NotFound: ''
          | kCorruption \<Rightarrow> chars ''Corruption: ''
          | kNotSupported \<Rightarrow> chars ''Not implemented: ''
          | kInvalidArgument \<Rightarrow> chars ''Invalid argument: ''
          | kIOError \<Rightarrow> chars ''IO error: '') @ msg)"

lemma ok_simps [simp]: "ok OK" "\<not> ok (Failed c m)"
  by (simp_all add: ok_def)

section \<open>The operating system\<close>

text \<open>What a call does: it is interrupted (\<open>EINTR\<close>), it fails (with \<open>ENOENT\<close> or not, and the text of \<open>strerror\<close>), or it
  moves at most so many bytes.\<close>

datatype outcome = Interrupted | Fails bool slice | Moves nat

definition PosixError :: "slice \<Rightarrow> bool \<Rightarrow> slice \<Rightarrow> status" where
  "PosixError context enoent text =
    (if enoent then Status kNotFound context text else Status kIOError context text)"

section \<open>Writing\<close>

text \<open>\<open>PosixWritableFile\<close>: \<open>buf\<close> is \<open>buf_[0, pos_ - 1]\<close>, \<open>contents\<close> what the file holds, \<open>durable\<close> how many bytes of it have
  reached the medium, \<open>outcomes\<close> what its next calls do.\<close>

record wfile =
  wname :: slice
  buf :: slice
  contents :: slice
  durable :: nat
  outcomes :: "outcome list"

definition kWritableFileBufferSize :: nat where
  "kWritableFileBufferSize = 65536"

function WriteUnbuffered :: "wfile \<Rightarrow> slice \<Rightarrow> status \<times> wfile" where
  "WriteUnbuffered f data =
    (if data = [] then (OK, f)
     else
       case outcomes f of
         [] \<Rightarrow> (OK, f\<lparr>contents := contents f @ data\<rparr>)
       | Interrupted # os \<Rightarrow> WriteUnbuffered (f\<lparr>outcomes := os\<rparr>) data
       | Fails enoent text # os \<Rightarrow> (PosixError (wname f) enoent text, f\<lparr>outcomes := os\<rparr>)
       | Moves n # os \<Rightarrow>
           WriteUnbuffered (f\<lparr>contents := contents f @ take n data, outcomes := os\<rparr>) (drop n data))"
  by pat_completeness auto
termination
  by (relation "measure (\<lambda>(f, data). length (outcomes f))") auto

declare WriteUnbuffered.simps [simp del]

definition FlushBuffer :: "wfile \<Rightarrow> status \<times> wfile" where
  "FlushBuffer f = (let (status, f) = WriteUnbuffered f (buf f) in (status, f\<lparr>buf := []\<rparr>))"

definition wfile_Append :: "wfile \<Rightarrow> slice \<Rightarrow> status \<times> wfile" where
  "wfile_Append f data =
    (let copy_size = min (length data) (kWritableFileBufferSize - length (buf f));
         f = f\<lparr>buf := buf f @ take copy_size data\<rparr>;
         write_data = drop copy_size data
     in if write_data = [] then (OK, f)
        else
          let (status, f) = FlushBuffer f
          in if \<not> ok status then (status, f)
             else if length write_data < kWritableFileBufferSize then (OK, f\<lparr>buf := write_data\<rparr>)
             else WriteUnbuffered f write_data)"

definition wfile_Flush :: "wfile \<Rightarrow> status \<times> wfile" where
  "wfile_Flush f = FlushBuffer f"

definition rfind :: "byte \<Rightarrow> slice \<Rightarrow> nat option" where
  "rfind c s = find (\<lambda>i. s ! i = c) (rev [0..<length s])"

definition Dirname :: "slice \<Rightarrow> slice" where
  "Dirname filename =
    (case rfind (of_char (CHR ''/'')) filename of
       None \<Rightarrow> chars ''.''
     | Some separator_pos \<Rightarrow> take separator_pos filename)"

definition Basename :: "slice \<Rightarrow> slice" where
  "Basename filename =
    (case rfind (of_char (CHR ''/'')) filename of
       None \<Rightarrow> filename
     | Some separator_pos \<Rightarrow> drop (separator_pos + 1) filename)"

definition IsManifest :: "slice \<Rightarrow> bool" where
  "IsManifest filename = prefix (chars ''MANIFEST'') (Basename filename)"

text \<open>A call that only succeeds or fails, with the status of its failure.\<close>

definition system_call :: "slice \<Rightarrow> outcome list \<Rightarrow> status \<times> outcome list" where
  "system_call path os =
    (case os of
       Fails enoent text # os \<Rightarrow> (PosixError path enoent text, os)
     | Interrupted # os \<Rightarrow> (PosixError path False (chars ''Interrupted system call''), os)
     | _ \<Rightarrow> (OK, drop 1 os))"

text \<open>With \<open>HAVE_FULLFSYNC\<close>, as the pod is built: \<open>fcntl(F_FULLFSYNC)\<close>, and \<open>fsync\<close> when that fails.\<close>

definition SyncFd :: "slice \<Rightarrow> outcome list \<Rightarrow> status \<times> outcome list" where
  "SyncFd fd_path os =
    (let (full, os) = system_call fd_path os in if ok full then (OK, os) else system_call fd_path os)"

definition SyncDirIfManifest :: "wfile \<Rightarrow> status \<times> wfile" where
  "SyncDirIfManifest f =
    (if \<not> IsManifest (wname f) then (OK, f)
     else
       let dirname = Dirname (wname f);
           (opened, os) = system_call dirname (outcomes f);
           (status, os) = (if \<not> ok opened then (opened, os)
                           else
                             let (status, os) = SyncFd dirname os;
                                 (closed, os) = system_call dirname os
                             in (status, os))
       in (status, f\<lparr>outcomes := os\<rparr>))"

definition wfile_Sync :: "wfile \<Rightarrow> status \<times> wfile" where
  "wfile_Sync f =
    (let (status, f) = SyncDirIfManifest f
     in if \<not> ok status then (status, f)
        else
          let (status, f) = FlushBuffer f
          in if \<not> ok status then (status, f)
             else
               let (status, os) = SyncFd (wname f) (outcomes f);
                   f = f\<lparr>outcomes := os\<rparr>
               in (status, if ok status then f\<lparr>durable := length (contents f)\<rparr> else f))"

definition wfile_Close :: "wfile \<Rightarrow> status \<times> wfile" where
  "wfile_Close f =
    (let (status, f) = FlushBuffer f;
         (closed, os) = system_call (wname f) (outcomes f);
         f = f\<lparr>outcomes := os\<rparr>
     in (if \<not> ok closed \<and> ok status then closed else status, f))"

text \<open>\<open>NewWritableFile\<close> truncates the file; \<open>NewAppendableFile\<close> keeps what it holds.\<close>

definition new_wfile :: "slice \<Rightarrow> slice \<Rightarrow> outcome list \<Rightarrow> wfile" where
  "new_wfile filename held os = \<lparr>wname = filename, buf = [], contents = held, durable = 0, outcomes = os\<rparr>"

section \<open>Reading\<close>

text \<open>\<open>PosixSequentialFile\<close>: \<open>unread\<close> is what lies behind the file offset.\<close>

record rfile =
  rname :: slice
  unread :: slice
  routcomes :: "outcome list"

function rfile_Read :: "rfile \<Rightarrow> nat \<Rightarrow> status \<times> slice \<times> rfile" where
  "rfile_Read f n =
    (case routcomes f of
       [] \<Rightarrow> (OK, take n (unread f), f\<lparr>unread := drop n (unread f)\<rparr>)
     | Interrupted # os \<Rightarrow> rfile_Read (f\<lparr>routcomes := os\<rparr>) n
     | Fails enoent text # os \<Rightarrow> (PosixError (rname f) enoent text, [], f\<lparr>routcomes := os\<rparr>)
     | Moves m # os \<Rightarrow>
         (OK, take (min m n) (unread f), f\<lparr>unread := drop (min m n) (unread f), routcomes := os\<rparr>))"
  by pat_completeness auto
termination
  by (relation "measure (\<lambda>(f, n). length (routcomes f))") auto

declare rfile_Read.simps [simp del]

text \<open>\<open>lseek(fd_, n, SEEK_CUR)\<close> moves the offset, behind the end of the file too.  Its argument is signed: from
  \<open>2^63\<close> on it is a position before the start of the file, which is refused (\<open>EINVAL\<close>).  That is so for a file
  at its start, where the log reader calls it; going back in a file is not modelled.\<close>

definition rfile_Skip :: "rfile \<Rightarrow> u64 \<Rightarrow> status \<times> rfile" where
  "rfile_Skip f n =
    (case routcomes f of
       Fails enoent text # os \<Rightarrow> (PosixError (rname f) enoent text, f\<lparr>routcomes := os\<rparr>)
     | _ \<Rightarrow>
         if 2 ^ 63 \<le> n then (PosixError (rname f) False (chars ''Invalid argument''), f\<lparr>routcomes := drop 1 (routcomes f)\<rparr>)
         else (OK, f\<lparr>unread := drop (unat n) (unread f), routcomes := drop 1 (routcomes f)\<rparr>))"

section \<open>The contracts of the files\<close>

text \<open>
  What a client of \<open>WritableFile\<close> relies on: the bytes appended reach the file in their order, at the latest with a
  successful flush; a call that fails leaves no more than a prefix of them; and what fits into the
  buffer of 65536 bytes is taken without an error.
\<close>

locale writable_file =
  fixes app :: "'f \<Rightarrow> slice \<Rightarrow> status \<times> 'f"
    and flush :: "'f \<Rightarrow> status \<times> 'f"
    and written :: "'f \<Rightarrow> slice"
    and pending :: "'f \<Rightarrow> slice"
  assumes append_done: "app f d = (OK, f') \<Longrightarrow> written f' @ pending f' = written f @ pending f @ d"
    and append_prefix: "app f d = (s, f') \<Longrightarrow> \<exists>p q. p @ q = pending f @ d \<and> written f' = written f @ p"
    and append_small: "length (pending f) + length d < 65536 \<Longrightarrow> app f d = (s, f') \<Longrightarrow> s = OK"
    and flush_done: "flush f = (OK, f') \<Longrightarrow> written f' = written f @ pending f \<and> pending f' = []"
    and flush_prefix: "flush f = (s, f') \<Longrightarrow> \<exists>p q. p @ q = pending f \<and> written f' = written f @ p"

text \<open>A file whose bytes can be brought to the medium: a successful \<open>Sync\<close> leaves none behind, and nothing undoes it.\<close>

locale durable_file = writable_file +
  fixes sync :: "'a \<Rightarrow> status \<times> 'a"
    and safe :: "'a \<Rightarrow> nat"
  assumes sync_done: "sync f = (OK, f') \<Longrightarrow>
      written f' = written f @ pending f \<and> pending f' = [] \<and> safe f' = length (written f')"
    and sync_prefix: "sync f = (s, f') \<Longrightarrow> \<exists>p q. p @ q = pending f \<and> written f' = written f @ p"
    and app_safe: "app f d = (s, f') \<Longrightarrow> safe f' = safe f"
    and flush_safe: "flush f = (s, f') \<Longrightarrow> safe f' = safe f"
    and sync_safe: "sync f = (s, f') \<Longrightarrow> s \<noteq> OK \<Longrightarrow> safe f' = safe f"

text \<open>What a client of \<open>SequentialFile\<close> relies on: a read returns the next bytes, all it asks for as long as there are
  so many.\<close>

locale sequential_file =
  fixes read :: "'f \<Rightarrow> nat \<Rightarrow> status \<times> slice \<times> 'f"
    and ahead :: "'f \<Rightarrow> slice"
    and sound :: "'f \<Rightarrow> bool"
  assumes read_next: "sound f \<Longrightarrow> \<exists>f'. read f n = (OK, take n (ahead f), f') \<and> ahead f' = drop n (ahead f) \<and> sound f'"

text \<open>What every file keeps to, whatever its calls return: no byte is read twice, and none comes back.\<close>

locale shrinking_file =
  fixes read :: "'f \<Rightarrow> nat \<Rightarrow> status \<times> slice \<times> 'f"
    and ahead :: "'f \<Rightarrow> slice"
    and skip :: "'f \<Rightarrow> u64 \<Rightarrow> status \<times> 'f"
  assumes read_shrinks: "read f n = (s, d, f') \<Longrightarrow> length d + length (ahead f') \<le> length (ahead f)"
    and skip_shrinks: "skip f k = (s, f') \<Longrightarrow> length (ahead f') \<le> length (ahead f)"

locale seekable_file = sequential_file read ahead sound + shrinking_file read ahead skip
  for read :: "'f \<Rightarrow> nat \<Rightarrow> status \<times> slice \<times> 'f" and ahead :: "'f \<Rightarrow> slice" and sound :: "'f \<Rightarrow> bool"
    and skip :: "'f \<Rightarrow> u64 \<Rightarrow> status \<times> 'f"

section \<open>The POSIX files meet them\<close>

lemma WriteUnbuffered_prefix:
  "WriteUnbuffered f d = (s, f') \<Longrightarrow>
    \<exists>p q. p @ q = d \<and> contents f' = contents f @ p \<and> (s = OK \<longrightarrow> q = []) \<and> buf f' = buf f"
proof (induction f d rule: WriteUnbuffered.induct)
  case (1 f d)
  show ?case
  proof (cases "d = [] \<or> outcomes f = []")
    case True
    with "1.prems" show ?thesis by (auto simp: WriteUnbuffered.simps [of f d] split: if_splits)
  next
    case False
    then obtain o1 os where os: "outcomes f = o1 # os" by (cases "outcomes f") auto
    show ?thesis
    proof (cases o1)
      case Interrupted
      with "1.IH"(1) [OF _ os] "1.prems" False os show ?thesis
        by (auto simp: WriteUnbuffered.simps [of f d])
    next
      case (Fails e t)
      with "1.prems" False os show ?thesis
        by (auto simp: WriteUnbuffered.simps [of f d] PosixError_def Status_def)
    next
      case (Moves n)
      with "1.prems" False os
      have "WriteUnbuffered (f\<lparr>contents := contents f @ take n d, outcomes := os\<rparr>) (drop n d) = (s, f')"
        by (simp add: WriteUnbuffered.simps [of f d])
      from "1.IH"(2) [OF _ os Moves this] False obtain p q where
        "p @ q = drop n d" "contents f' = contents f @ take n d @ p" "s = OK \<longrightarrow> q = []" "buf f' = buf f"
        by auto
      then have "(take n d @ p) @ q = d" "contents f' = contents f @ (take n d @ p)" by simp_all
      with \<open>s = OK \<longrightarrow> q = []\<close> \<open>buf f' = buf f\<close> show ?thesis by blast
    qed
  qed
qed

lemma FlushBuffer_prefix:
  "FlushBuffer f = (s, f') \<Longrightarrow>
    \<exists>p q. p @ q = buf f \<and> contents f' = contents f @ p \<and> (s = OK \<longrightarrow> q = []) \<and> buf f' = []"
  by (auto simp: FlushBuffer_def dest!: WriteUnbuffered_prefix split: prod.splits)

lemma wfile_Append_prefix:
  "wfile_Append f d = (s, f') \<Longrightarrow>
    \<exists>p q. p @ q = buf f @ d \<and> contents f' = contents f @ p \<and> (s = OK \<longrightarrow> buf f' = q)"
proof -
  assume r: "wfile_Append f d = (s, f')"
  define k where "k = min (length d) (kWritableFileBufferSize - length (buf f))"
  define g where "g = f\<lparr>buf := buf f @ take k d\<rparr>"
  obtain t h where fl: "FlushBuffer g = (t, h)" by fastforce
  then obtain p q where pq: "p @ q = buf f @ take k d" "contents h = contents f @ p" "t = OK \<longrightarrow> q = []" "buf h = []"
    using FlushBuffer_prefix [OF fl] by (auto simp: g_def)
  have step: "wfile_Append f d =
      (if drop k d = [] then (OK, g) else if \<not> ok t then (t, h)
       else if length (drop k d) < kWritableFileBufferSize then (OK, h\<lparr>buf := drop k d\<rparr>)
       else WriteUnbuffered h (drop k d))"
    unfolding wfile_Append_def Let_def k_def [symmetric] g_def [symmetric] fl prod.case by (rule refl)
  show ?thesis
  proof (cases "drop k d = []")
    case True
    then have "take k d = d" by simp
    moreover from True r have "s = OK" "f' = g" by (simp_all add: step)
    ultimately have "[] @ (buf f @ d) = buf f @ d" "contents f' = contents f @ []" "buf f' = buf f @ d" by (simp_all add: g_def)
    then show ?thesis by blast
  next
    case False
    consider "t \<noteq> OK" | "t = OK" "length (drop k d) < kWritableFileBufferSize"
      | "t = OK" "\<not> length (drop k d) < kWritableFileBufferSize" by blast
    then show ?thesis
    proof cases
      case 1
      with r False have "s = t" "f' = h" by (simp_all add: step ok_def)
      moreover have "p @ (q @ drop k d) = buf f @ d"
        using pq(1) by (metis append.assoc append_take_drop_id)
      ultimately show ?thesis using pq(2) 1 by blast
    next
      case 2
      with r False have "s = OK" "f' = h\<lparr>buf := drop k d\<rparr>" by (simp_all add: step ok_def)
      moreover have "p @ drop k d = buf f @ d" using pq(1,3) 2(1) by simp
      moreover from calculation(2) have "contents f' = contents f @ p" "buf f' = drop k d" using pq(2) by simp_all
      ultimately show ?thesis by blast
    next
      case 3
      with r False have "WriteUnbuffered h (drop k d) = (s, f')" by (simp add: step ok_def)
      from WriteUnbuffered_prefix [OF this] obtain p' q' where p': "p' @ q' = drop k d" "contents f' = contents h @ p'"
        "s = OK \<longrightarrow> q' = []" "buf f' = buf h" by blast
      then have "(p @ p') @ q' = buf f @ d" "contents f' = contents f @ (p @ p')" "s = OK \<longrightarrow> buf f' = q'"
        using pq 3(1) by (simp_all add: append.assoc)
      then show ?thesis by blast
    qed
  qed
qed

lemma WriteUnbuffered_durable: "durable (snd (WriteUnbuffered f d)) = durable f"
proof (induction f d rule: WriteUnbuffered.induct)
  case (1 f d)
  then show ?case
    by (subst WriteUnbuffered.simps) (auto split: list.split outcome.split)
qed

lemma FlushBuffer_durable: "FlushBuffer f = (s, f') \<Longrightarrow> durable f' = durable f"
  using WriteUnbuffered_durable [of f "buf f"] by (auto simp: FlushBuffer_def split: prod.splits)

lemma wfile_Append_durable: "wfile_Append f d = (s, f') \<Longrightarrow> durable f' = durable f"
  using WriteUnbuffered_durable
  by (auto simp: wfile_Append_def Let_def dest!: FlushBuffer_durable split: prod.splits if_splits) (metis snd_conv)

interpretation posix_writable: writable_file wfile_Append wfile_Flush contents buf
proof
  fix f f' :: wfile and d s
  show "wfile_Append f d = (OK, f') \<Longrightarrow> contents f' @ buf f' = contents f @ buf f @ d"
    by (auto dest: wfile_Append_prefix)
  show "wfile_Append f d = (s, f') \<Longrightarrow> \<exists>p q. p @ q = buf f @ d \<and> contents f' = contents f @ p"
    by (auto dest: wfile_Append_prefix)
  show "length (buf f) + length d < 65536 \<Longrightarrow> wfile_Append f d = (s, f') \<Longrightarrow> s = OK"
    by (auto simp: wfile_Append_def kWritableFileBufferSize_def)
  show "wfile_Flush f = (OK, f') \<Longrightarrow> contents f' = contents f @ buf f \<and> buf f' = []"
    by (auto simp: wfile_Flush_def dest: FlushBuffer_prefix)
  show "wfile_Flush f = (s, f') \<Longrightarrow> \<exists>p q. p @ q = buf f \<and> contents f' = contents f @ p"
    by (auto simp: wfile_Flush_def dest: FlushBuffer_prefix)
qed

lemma SyncDirIfManifest_same:
  "SyncDirIfManifest f = (s, f') \<Longrightarrow> buf f' = buf f \<and> contents f' = contents f \<and> durable f' = durable f"
  by (auto simp: SyncDirIfManifest_def Let_def split: if_splits prod.splits)

interpretation posix_durable: durable_file wfile_Append wfile_Flush contents buf wfile_Sync durable
proof
  fix f f' :: wfile and d s
  obtain s1 f1 where 1: "SyncDirIfManifest f = (s1, f1)" by fastforce
  note same = SyncDirIfManifest_same [OF 1]
  obtain s2 f2 where 2: "FlushBuffer f1 = (s2, f2)" by fastforce
  obtain p q where p: "p @ q = buf f" "contents f2 = contents f @ p" "s2 = OK \<longrightarrow> q = []" "buf f2 = []"
    using FlushBuffer_prefix [OF 2] same by auto
  have d2: "durable f2 = durable f" using FlushBuffer_durable [OF 2] same by simp
  obtain s3 os where 3: "SyncFd (wname f2) (outcomes f2) = (s3, os)" by fastforce
  have sync: "wfile_Sync f = (if \<not> ok s1 then (s1, f1) else if \<not> ok s2 then (s2, f2)
      else (s3, if ok s3 then f2\<lparr>outcomes := os, durable := length (contents f2)\<rparr> else f2\<lparr>outcomes := os\<rparr>))"
    by (simp add: wfile_Sync_def 1 2 3)
  show "wfile_Sync f = (OK, f') \<Longrightarrow> contents f' = contents f @ buf f \<and> buf f' = [] \<and> durable f' = length (contents f')"
    using p by (auto simp: sync ok_def split: if_splits)
  show "\<exists>p q. p @ q = buf f \<and> contents f' = contents f @ p" if "wfile_Sync f = (s, f')"
  proof (cases "ok s1")
    case False
    with that same show ?thesis by (auto simp: sync)
  next
    case True
    with that p(2) have "contents f' = contents f @ p" by (auto simp: sync split: if_splits)
    with p(1) show ?thesis by blast
  qed
  show "wfile_Append f d = (s, f') \<Longrightarrow> durable f' = durable f" by (rule wfile_Append_durable)
  show "wfile_Flush f = (s, f') \<Longrightarrow> durable f' = durable f" unfolding wfile_Flush_def by (rule FlushBuffer_durable)
  show "wfile_Sync f = (s, f') \<Longrightarrow> s \<noteq> OK \<Longrightarrow> durable f' = durable f"
    using same d2 by (auto simp: sync ok_def split: if_splits)
qed

text \<open>A sequential file whose calls are interrupted at most, as those on a regular file are.\<close>

definition undisturbed :: "rfile \<Rightarrow> bool" where
  "undisturbed f \<longleftrightarrow> list_all (\<lambda>x. x = Interrupted) (routcomes f)"

interpretation posix_sequential: sequential_file rfile_Read unread undisturbed
proof
  fix f :: rfile and n
  show "undisturbed f \<Longrightarrow> \<exists>f'. rfile_Read f n = (OK, take n (unread f), f') \<and> unread f' = drop n (unread f) \<and> undisturbed f'"
  proof (induction "routcomes f" arbitrary: f)
    case Nil
    have "routcomes f = []" using Nil(1) by simp
    then have "rfile_Read f n = (OK, take n (unread f), f\<lparr>unread := drop n (unread f)\<rparr>)"
      by (subst rfile_Read.simps) simp
    with \<open>routcomes f = []\<close> show ?case by (simp add: undisturbed_def)
  next
    case (Cons o1 os)
    have os: "routcomes f = o1 # os" using Cons(2) by simp
    with Cons.prems have i: "o1 = Interrupted" "undisturbed (f\<lparr>routcomes := os\<rparr>)"
      by (simp_all add: undisturbed_def)
    have "rfile_Read f n = rfile_Read (f\<lparr>routcomes := os\<rparr>) n"
      by (subst rfile_Read.simps) (simp add: os i(1))
    with Cons(1) [OF _ i(2)] show ?case by simp
  qed
qed

lemma rfile_Read_shrinks: "rfile_Read f n = (s, d, f') \<Longrightarrow> length d + length (unread f') \<le> length (unread f)"
proof (induction f n rule: rfile_Read.induct)
  case (1 f n)
  show ?case
  proof (cases "routcomes f")
    case Nil
    with "1.prems" show ?thesis by (subst (asm) rfile_Read.simps) auto
  next
    case (Cons o1 os)
    with "1.prems" "1.IH" [OF Cons] show ?thesis
      by (subst (asm) (1) rfile_Read.simps) (cases o1; auto)
  qed
qed

interpretation posix_shrinking: shrinking_file rfile_Read unread rfile_Skip
proof
  fix f f' :: rfile and n d s and k :: u64
  show "rfile_Read f n = (s, d, f') \<Longrightarrow> length d + length (unread f') \<le> length (unread f)"
    by (rule rfile_Read_shrinks)
  show "rfile_Skip f k = (s, f') \<Longrightarrow> length (unread f') \<le> length (unread f)"
    by (auto simp: rfile_Skip_def split: list.splits outcome.splits if_splits)
qed

interpretation posix_seekable: seekable_file rfile_Read unread undisturbed rfile_Skip ..

end
