(* ===== verification/Ldb_Log.thy ===== *)
theory Ldb_Log
  imports Ldb_Env Ldb_Crc
begin

text \<open>
  The write-ahead log of LevelDB: \<open>db/log_format.h\<close>, \<open>db/log_writer.cc\<close> and \<open>db/log_reader.cc\<close>.  The file is divided into
  blocks of \<open>kBlockSize\<close> bytes; a record is cut into fragments that do not cross a block, each with its checksum, length
  and type.  The file operations are arguments.  A checksum does not depend on the address of its data (lemma
  \<open>Extend_crc32c\<close>), which the model therefore takes to be 0.
\<close>

section \<open>The format\<close>

definition kZeroType :: u32 where "kZeroType = 0"

definition kFullType :: u32 where "kFullType = 1"

definition kFirstType :: u32 where "kFirstType = 2"

definition kMiddleType :: u32 where "kMiddleType = 3"

definition kLastType :: u32 where "kLastType = 4"

definition kMaxRecordType :: u32 where "kMaxRecordType = kLastType"

definition kBlockSize :: int where "kBlockSize = 32768"

definition kHeaderSize :: int where "kHeaderSize = 4 + 2 + 1"

lemmas record_types = kZeroType_def kFullType_def kFirstType_def kMiddleType_def kLastType_def kMaxRecordType_def

section \<open>The writer\<close>

record 'f log_writer =
  dest :: 'f
  block_offset :: int
  type_crc :: "u32 list"

definition InitTypeCrc :: "u32 list" where
  "InitTypeCrc = map (\<lambda>i. crc_Value 0 [of_nat i]) [0..<5]"

definition log_Writer :: "'f \<Rightarrow> 'f log_writer" where
  "log_Writer f = \<lparr>dest = f, block_offset = 0, type_crc = InitTypeCrc\<rparr>"

definition log_Writer_at :: "'f \<Rightarrow> u64 \<Rightarrow> 'f log_writer" where
  "log_Writer_at f dest_length =
    \<lparr>dest = f, block_offset = uint dest_length mod kBlockSize, type_crc = InitTypeCrc\<rparr>"

definition physical_header :: "u32 list \<Rightarrow> u32 \<Rightarrow> slice \<Rightarrow> slice" where
  "physical_header crcs t data =
    (let len = (of_nat (length data) :: size_t);
         crc = Mask (Extend (crcs ! unat t) 0 data)
     in EncodeFixed32 crc @ [ucast (len AND 0xff), ucast (drop_bit 8 len), ucast t])"

definition EmitPhysicalRecord ::
  "('f \<Rightarrow> slice \<Rightarrow> status \<times> 'f) \<Rightarrow> ('f \<Rightarrow> status \<times> 'f) \<Rightarrow> 'f log_writer \<Rightarrow> u32 \<Rightarrow> slice \<Rightarrow> status \<times> 'f log_writer" where
  "EmitPhysicalRecord app flush w t data =
    (let (s, f) = app (dest w) (physical_header (type_crc w) t data);
         (s, f) = (if ok s then
                     let (s, f) = app f data in if ok s then flush f else (s, f)
                   else (s, f))
     in (s, w\<lparr>dest := f, block_offset := block_offset w + kHeaderSize + int (length data)\<rparr>))"

definition fragment_type :: "bool \<Rightarrow> bool \<Rightarrow> u32" where
  "fragment_type begin fin =
    (if begin \<and> fin then kFullType else if begin then kFirstType else if fin then kLastType else kMiddleType)"

text \<open>The first lines of the loop: a block without room for a header is filled up with zeros, whatever \<open>Append\<close>
  returns.\<close>

definition switch_block :: "('f \<Rightarrow> slice \<Rightarrow> status \<times> 'f) \<Rightarrow> 'f log_writer \<Rightarrow> 'f log_writer" where
  "switch_block app w =
    (let leftover = kBlockSize - block_offset w in
     if leftover < kHeaderSize then
       let w = (if 0 < leftover then w\<lparr>dest := snd (app (dest w) (replicate (nat leftover) 0))\<rparr> else w)
       in w\<lparr>block_offset := 0\<rparr>
     else w)"

definition block_avail :: "'f log_writer \<Rightarrow> nat" where
  "block_avail w = nat (kBlockSize - block_offset w - kHeaderSize)"

lemma block_offset_Emit:
  "EmitPhysicalRecord app flush w t data = (s, w') \<Longrightarrow> block_offset w' = block_offset w + kHeaderSize + int (length data)"
  by (auto simp: EmitPhysicalRecord_def Let_def split: prod.splits)

lemma block_offset_switch:
  "block_offset (switch_block app w) = (if kBlockSize - block_offset w < kHeaderSize then 0 else block_offset w)"
  by (simp add: switch_block_def Let_def)

text \<open>The loop of \<open>AddRecord\<close>: a step emits at least one byte of the record or fills its block.\<close>

function AddRecord_loop ::
  "('f \<Rightarrow> slice \<Rightarrow> status \<times> 'f) \<Rightarrow> ('f \<Rightarrow> status \<times> 'f) \<Rightarrow> 'f log_writer \<Rightarrow> bool \<Rightarrow> slice \<Rightarrow> status \<times> 'f log_writer" where
  "AddRecord_loop app flush w begin ptr =
    (let w = switch_block app w;
         left = length ptr;
         avail = block_avail w;
         fragment_length = (if left < avail then left else avail);
         fin = (left = fragment_length);
         type = fragment_type begin fin;
         (s, w) = EmitPhysicalRecord app flush w type (take fragment_length ptr);
         ptr = drop fragment_length ptr
     in if ok s \<and> 0 < length ptr then AddRecord_loop app flush w False ptr else (s, w))"
  by pat_completeness auto
termination
proof (relation "measure (\<lambda>(app, flush, w, begin, ptr).
    2 * length ptr + (if kBlockSize - block_offset w < kHeaderSize then 0 else 1))", goal_cases)
  case (2 app flush w bg ptr x xa xb xc xd xe xf xg xh xi)
  then have x: "x = switch_block app w" and eq: "EmitPhysicalRecord app flush x xe (take xc ptr) = (xg, xh)"
    and xc: "xc = (if length ptr < block_avail x then length ptr else block_avail x)" and more: "0 < length (drop xc ptr)"
    by simp_all
  then have xc': "xc = block_avail x" "block_avail x < length ptr" by (auto split: if_splits)
  have off: "block_offset xh = block_offset x + kHeaderSize + int xc"
    using block_offset_Emit [OF eq] xc' by simp
  show ?case
  proof (cases "kBlockSize - block_offset w < kHeaderSize")
    case True
    then have "0 < block_avail x" by (simp add: block_avail_def x block_offset_switch kBlockSize_def kHeaderSize_def)
    with xc'(2) have "2 * (length ptr - block_avail x) + 1 < 2 * length ptr" by linarith
    with xc' True 2 show ?thesis by simp
  next
    case False
    then have "kBlockSize - block_offset xh < kHeaderSize"
      by (simp add: off xc' block_avail_def x block_offset_switch kHeaderSize_def)
    with xc' False 2 show ?thesis by simp
  qed
qed simp

declare AddRecord_loop.simps [simp del]

definition AddRecord ::
  "('f \<Rightarrow> slice \<Rightarrow> status \<times> 'f) \<Rightarrow> ('f \<Rightarrow> status \<times> 'f) \<Rightarrow> 'f log_writer \<Rightarrow> slice \<Rightarrow> status \<times> 'f log_writer" where
  "AddRecord app flush w data = AddRecord_loop app flush w True data"

section \<open>The reader\<close>

text \<open>\<open>reporter\<close> is null or the list of the reports it got.\<close>

record 'f log_reader =
  source :: 'f
  reporter :: "(size_t \<times> status) list option"
  checksum :: bool
  buffer :: slice
  eof :: bool
  last_record_offset :: u64
  end_of_buffer_offset :: u64
  initial_offset :: u64
  resyncing :: bool

definition kEof :: u32 where "kEof = kMaxRecordType + 1"

definition kBadRecord :: u32 where "kBadRecord = kMaxRecordType + 2"

definition log_Reader :: "'f \<Rightarrow> bool \<Rightarrow> bool \<Rightarrow> u64 \<Rightarrow> 'f log_reader" where
  "log_Reader f report check offset =
    \<lparr>source = f, reporter = (if report then Some [] else None), checksum = check, buffer = [], eof = False,
     last_record_offset = 0, end_of_buffer_offset = 0, initial_offset = offset, resyncing = (0 < offset)\<rparr>"

definition ReportDrop :: "'f log_reader \<Rightarrow> u64 \<Rightarrow> status \<Rightarrow> 'f log_reader" where
  "ReportDrop r bytes reason =
    (case reporter r of
       None \<Rightarrow> r
     | Some log \<Rightarrow>
         if initial_offset r \<le> end_of_buffer_offset r - of_nat (length (buffer r)) - bytes
         then r\<lparr>reporter := Some (log @ [(bytes, reason)])\<rparr> else r)"

definition ReportCorruption :: "'f log_reader \<Rightarrow> u64 \<Rightarrow> slice \<Rightarrow> 'f log_reader" where
  "ReportCorruption r bytes reason = ReportDrop r bytes (Corruption reason)"

definition SkipToInitialBlock ::
  "('f \<Rightarrow> u64 \<Rightarrow> status \<times> 'f) \<Rightarrow> 'f log_reader \<Rightarrow> bool \<times> 'f log_reader" where
  "SkipToInitialBlock skip r =
    (let offset_in_block = initial_offset r mod 32768;
         block_start_location = initial_offset r - offset_in_block;
         block_start_location =
           (if 32768 - 6 < offset_in_block then block_start_location + 32768 else block_start_location);
         r = r\<lparr>end_of_buffer_offset := block_start_location\<rparr>
     in if 0 < block_start_location then
          let (skip_status, f) = skip (source r) block_start_location;
              r = r\<lparr>source := f\<rparr>
          in if \<not> ok skip_status then (False, ReportDrop r block_start_location skip_status) else (True, r)
        else (True, r))"

text \<open>What \<open>ReadPhysicalRecord\<close> does with a buffer that holds a header.\<close>

definition parse_physical :: "'f log_reader \<Rightarrow> slice \<Rightarrow> u32 \<times> slice \<times> 'f log_reader" where
  "parse_physical r result =
    (let header = buffer r;
         a = ucast (header ! 4) AND 0xff;
         b = ucast (header ! 5) AND 0xff;
         type = scast (header ! 6);
         len = (a OR push_bit 8 b :: u32);
         n = unat len
     in if length (buffer r) < 7 + n then
          let drop_size = of_nat (length (buffer r));
              r = r\<lparr>buffer := []\<rparr>
          in if \<not> eof r then (kBadRecord, result, ReportCorruption r drop_size (chars ''bad record length''))
             else (kEof, result, r)
        else if type = kZeroType \<and> len = 0 then (kBadRecord, result, r\<lparr>buffer := []\<rparr>)
        else if checksum r \<and> crc_Value 0 (take (1 + n) (drop 6 header)) \<noteq> Unmask (DecodeFixed32 header) then
          let drop_size = of_nat (length (buffer r));
              r = r\<lparr>buffer := []\<rparr>
          in (kBadRecord, result, ReportCorruption r drop_size (chars ''checksum mismatch''))
        else
          let r = r\<lparr>buffer := drop (7 + n) (buffer r)\<rparr>
          in if end_of_buffer_offset r - of_nat (length (buffer r)) - 7 - ucast len < initial_offset r
             then (kBadRecord, [], r)
             else (type, take n (drop 7 header), r))"

text \<open>The loop around it, which fills an empty buffer: it goes round at most once.\<close>

function ReadPhysicalRecord ::
  "('f \<Rightarrow> nat \<Rightarrow> status \<times> slice \<times> 'f) \<Rightarrow> 'f log_reader \<Rightarrow> slice \<Rightarrow> u32 \<times> slice \<times> 'f log_reader" where
  "ReadPhysicalRecord read r result =
    (if length (buffer r) < 7 then
       if \<not> eof r then
         let (status, data, f) = read (source r) 32768;
             r = r\<lparr>source := f, buffer := data, end_of_buffer_offset := end_of_buffer_offset r + of_nat (length data)\<rparr>
         in if \<not> ok status then
              let r = ReportDrop (r\<lparr>buffer := []\<rparr>) 32768 status in (kEof, result, r\<lparr>eof := True\<rparr>)
            else if length (buffer r) < 32768 then ReadPhysicalRecord read (r\<lparr>eof := True\<rparr>) result
            else ReadPhysicalRecord read r result
       else (kEof, result, r\<lparr>buffer := []\<rparr>)
     else parse_physical r result)"
  by pat_completeness auto
termination
  by (relation "measure (\<lambda>(read, r, result). if length (buffer r) < 7 \<and> \<not> eof r then 1 else 0)") auto

declare ReadPhysicalRecord.simps [simp del]

text \<open>\<open>snprintf(buf, sizeof(buf), "unknown record type %u", record_type)\<close>.\<close>

function decimal :: "nat \<Rightarrow> slice" where
  "decimal n = (if n < 10 then [48 + of_nat n] else decimal (n div 10) @ [48 + of_nat (n mod 10)])"
  by pat_completeness auto
termination
  by (relation "measure id") auto

declare decimal.simps [simp del]

definition unknown_type :: "u32 \<Rightarrow> slice" where
  "unknown_type record_type = chars ''unknown record type '' @ decimal (unat record_type)"

text \<open>
  The loop of \<open>ReadRecord\<close>, with the variables it changes: the fragment read last, \<open>in_fragmented_record\<close>, the scratch
  buffer and the offset of the record.  \<open>n\<close> bounds the number of physical records.
\<close>

fun ReadRecord_loop ::
  "nat \<Rightarrow> ('f \<Rightarrow> nat \<Rightarrow> status \<times> slice \<times> 'f) \<Rightarrow> 'f log_reader \<Rightarrow> slice \<Rightarrow> bool \<Rightarrow> slice \<Rightarrow> u64 \<Rightarrow>
    (slice option \<times> 'f log_reader) option" where
  "ReadRecord_loop 0 read r fragment in_frag scratch prospective = None"
| "ReadRecord_loop (Suc n) read r fragment in_frag scratch prospective =
    (let (record_type, fragment, r) = ReadPhysicalRecord read r fragment;
         size_frag = of_nat (length fragment);
         size_scratch = of_nat (length scratch);
         physical_record_offset = end_of_buffer_offset r - of_nat (length (buffer r)) - 7 - size_frag
     in if resyncing r \<and> record_type = kMiddleType then
          ReadRecord_loop n read r fragment in_frag scratch prospective
        else if resyncing r \<and> record_type = kLastType then
          ReadRecord_loop n read (r\<lparr>resyncing := False\<rparr>) fragment in_frag scratch prospective
        else
          let r = r\<lparr>resyncing := False\<rparr> in
          if record_type = kFullType then
            let r = (if in_frag \<and> scratch \<noteq> []
                     then ReportCorruption r size_scratch (chars ''partial record without end(1)'') else r)
            in Some (Some fragment, r\<lparr>last_record_offset := physical_record_offset\<rparr>)
          else if record_type = kFirstType then
            let r = (if in_frag \<and> scratch \<noteq> []
                     then ReportCorruption r size_scratch (chars ''partial record without end(2)'') else r)
            in ReadRecord_loop n read r fragment True fragment physical_record_offset
          else if record_type = kMiddleType then
            if \<not> in_frag then
              ReadRecord_loop n read (ReportCorruption r size_frag (chars ''missing start of fragmented record(1)''))
                fragment in_frag scratch prospective
            else ReadRecord_loop n read r fragment in_frag (scratch @ fragment) prospective
          else if record_type = kLastType then
            if \<not> in_frag then
              ReadRecord_loop n read (ReportCorruption r size_frag (chars ''missing start of fragmented record(2)''))
                fragment in_frag scratch prospective
            else Some (Some (scratch @ fragment), r\<lparr>last_record_offset := prospective\<rparr>)
          else if record_type = kEof then Some (None, r)
          else if record_type = kBadRecord then
            if in_frag then
              ReadRecord_loop n read (ReportCorruption r size_scratch (chars ''error in middle of record''))
                fragment False [] prospective
            else ReadRecord_loop n read r fragment in_frag scratch prospective
          else
            ReadRecord_loop n read
              (ReportCorruption r (size_frag + (if in_frag then size_scratch else 0)) (unknown_type record_type))
              fragment False [] prospective)"

text \<open>\<open>ReadRecord\<close>: \<open>Some (None, r)\<close> is the result \<open>false\<close>.\<close>

definition ReadRecord ::
  "nat \<Rightarrow> ('f \<Rightarrow> nat \<Rightarrow> status \<times> slice \<times> 'f) \<Rightarrow> ('f \<Rightarrow> u64 \<Rightarrow> status \<times> 'f) \<Rightarrow> 'f log_reader \<Rightarrow>
    (slice option \<times> 'f log_reader) option" where
  "ReadRecord n read skip r =
    (let (go, r) = (if last_record_offset r < initial_offset r then SkipToInitialBlock skip r else (True, r))
     in if \<not> go then Some (None, r) else ReadRecord_loop n read r [] False [] 0)"

definition LastRecordOffset :: "'f log_reader \<Rightarrow> u64" where
  "LastRecordOffset r = last_record_offset r"

end
