(* ===== verification/Ldb_Log_Format.thy ===== *)
theory Ldb_Log_Format
  imports Ldb_Log Ldb_Crc_Props Ldb_Coding_Props "HOL-Library.Sublist"
begin

text \<open>
  The bytes of a log: which fragments a record is cut into at a position of the file, with the zeros before them, and
  the proof that \<open>AddRecord\<close> writes them, on every file that keeps the contract of \<open>WritableFile\<close>.
\<close>

section \<open>The format\<close>

type_synonym fragment = "nat \<times> u32 \<times> slice"

definition pad_at :: "nat \<Rightarrow> nat" where
  "pad_at o1 = (if 32768 - o1 mod 32768 < 7 then 32768 - o1 mod 32768 else 0)"

definition room_at :: "nat \<Rightarrow> nat" where
  "room_at o1 = 32768 - (o1 + pad_at o1) mod 32768 - 7"

function record_fragments :: "nat \<Rightarrow> bool \<Rightarrow> slice \<Rightarrow> fragment list" where
  "record_fragments o1 begin data =
    (let n = min (length data) (room_at o1);
         fin = (length data \<le> room_at o1)
     in (pad_at o1, fragment_type begin fin, take n data) #
        (if fin then [] else record_fragments (o1 + pad_at o1 + 7 + n) False (drop n data)))"
  by pat_completeness auto

lemma mod_reach: "x mod B + k = B \<Longrightarrow> (x + k) mod B = 0" for x k B :: nat
  by (metis mod_add_left_eq mod_self)

lemma mod_step: "x mod B + k < B \<Longrightarrow> (x + k) mod B = x mod B + k" for x k B :: nat
  by (metis mod_add_left_eq mod_less)

lemma padded_mod: "(o1 + pad_at o1) mod 32768 = (if pad_at o1 = 0 then o1 mod 32768 else 0)"
  "pad_at o1 \<noteq> 0 \<Longrightarrow> o1 mod 32768 + pad_at o1 = 32768"
proof -
  show "pad_at o1 \<noteq> 0 \<Longrightarrow> o1 mod 32768 + pad_at o1 = 32768"
    by (auto simp: pad_at_def split: if_splits)
  then show "(o1 + pad_at o1) mod 32768 = (if pad_at o1 = 0 then o1 mod 32768 else 0)"
    using mod_reach [of o1 32768 "pad_at o1"] by auto
qed

lemma mod_block: "(o1 + pad_at o1) mod 32768 \<le> 32768 - 7"
  unfolding padded_mod(1) by (auto simp: pad_at_def split: if_splits)

lemma room_full: "room_at o1 = 0 \<Longrightarrow> 0 < room_at (o1 + pad_at o1 + 7)"
proof -
  assume "room_at o1 = 0"
  then have "(o1 + pad_at o1) mod 32768 + 7 = 32768" using mod_block [of o1] by (simp add: room_at_def)
  then have "(o1 + pad_at o1 + 7) mod 32768 = 0" by (rule mod_reach)
  then show ?thesis by (simp add: room_at_def pad_at_def)
qed

termination record_fragments
proof (relation "measure (\<lambda>(o1, b, data). 2 * length data + (if room_at o1 = 0 then 1 else 0))", goal_cases)
  case (2 o1 b data n fin)
  then have n: "n = room_at o1" "room_at o1 < length data" by auto
  show ?case
  proof (cases "room_at o1 = 0")
    case True
    then have "0 < room_at (o1 + pad_at o1 + 7)" by (rule room_full)
    then show ?thesis using n True by simp
  next
    case False
    then have "2 * (length data - n) + 1 < 2 * length data" using n by linarith
    then show ?thesis using n False by auto
  qed
qed simp

declare record_fragments.simps [simp del]

definition physical :: "u32 \<Rightarrow> slice \<Rightarrow> slice" where
  "physical t data = physical_header InitTypeCrc t data @ data"

fun fragment_bytes :: "fragment \<Rightarrow> slice" where
  "fragment_bytes (pad, t, data) = replicate pad 0 @ physical t data"

definition fragments_bytes :: "fragment list \<Rightarrow> slice" where
  "fragments_bytes fs = concat (map fragment_bytes fs)"

definition record_bytes :: "nat \<Rightarrow> slice \<Rightarrow> slice" where
  "record_bytes o1 data = fragments_bytes (record_fragments o1 True data)"

fun log_bytes :: "nat \<Rightarrow> slice list \<Rightarrow> slice" where
  "log_bytes o1 [] = []"
| "log_bytes o1 (r # rs) = record_bytes o1 r @ log_bytes (o1 + length (record_bytes o1 r)) rs"

lemma fragments_bytes_simps [simp]:
  "fragments_bytes [] = []" "fragments_bytes (f # fs) = fragment_bytes f @ fragments_bytes fs"
  by (simp_all add: fragments_bytes_def)

lemma length_physical_header [simp]: "length (physical_header crcs t data) = 7"
  by (simp add: physical_header_def Let_def)

lemma length_physical [simp]: "length (physical t data) = 7 + length data"
  by (simp add: physical_def)

lemma length_fragment_bytes: "length (fragment_bytes (pad, t, data)) = pad + 7 + length data"
  by simp

lemma log_bytes_append:
  "log_bytes o1 (rs @ rs') = log_bytes o1 rs @ log_bytes (o1 + length (log_bytes o1 rs)) rs'"
  by (induction rs arbitrary: o1) (auto simp: add.assoc)

section \<open>What the calls of the writer keep\<close>

text \<open>A relation between the states of a file that every call keeps is kept by \<open>AddRecord\<close>, whether it succeeds or not.\<close>

locale file_relation =
  fixes app :: "'f \<Rightarrow> slice \<Rightarrow> status \<times> 'f" and flush :: "'f \<Rightarrow> status \<times> 'f" and rel :: "'f \<Rightarrow> 'f \<Rightarrow> bool"
  assumes rel_same: "rel f f"
    and rel_trans: "rel f g \<Longrightarrow> rel g h \<Longrightarrow> rel f h"
    and rel_app: "app f d = (s, f') \<Longrightarrow> rel f f'"
    and rel_flush: "flush f = (s, f') \<Longrightarrow> rel f f'"
begin

lemma rel_Emit:
  assumes "EmitPhysicalRecord app flush w t data = (s, w')"
  shows "rel (dest w) (dest w')"
proof -
  obtain s1 f1 where 1: "app (dest w) (physical_header (type_crc w) t data) = (s1, f1)" by fastforce
  obtain s2 f2 where 2: "app f1 data = (s2, f2)" by fastforce
  obtain s3 f3 where 3: "flush f2 = (s3, f3)" by fastforce
  have "dest w' \<in> {f1, f2, f3}"
    using assms 1 2 3 by (auto simp: EmitPhysicalRecord_def Let_def split: if_splits)
  then show ?thesis
    using rel_app [OF 1] rel_app [OF 2] rel_flush [OF 3] by (auto intro: rel_trans)
qed

lemma rel_switch: "rel (dest w) (dest (switch_block app w))"
  by (auto simp: switch_block_def Let_def rel_same split: prod.split intro: rel_app [OF surjective_pairing])

lemma rel_AddRecord_loop:
  "a = app \<Longrightarrow> fl = flush \<Longrightarrow> AddRecord_loop a fl w b data = (s, w') \<Longrightarrow> rel (dest w) (dest w')"
proof (induction a fl w b data rule: AddRecord_loop.induct)
  case (1 a fl w b data)
  let ?w = "switch_block app w"
  let ?n = "if length data < block_avail ?w then length data else block_avail ?w"
  let ?t = "fragment_type b (length data = ?n)"
  obtain s1 w1 where e: "EmitPhysicalRecord app flush ?w ?t (take ?n data) = (s1, w1)" by fastforce
  have rel1: "rel (dest w) (dest w1)" using rel_trans [OF rel_switch rel_Emit [OF e]] .
  have step: "AddRecord_loop app flush w b data =
      (if ok s1 \<and> 0 < length (drop ?n data) then AddRecord_loop app flush w1 False (drop ?n data) else (s1, w1))"
    unfolding AddRecord_loop.simps [of app flush w b data] Let_def e prod.case by (rule refl)
  show ?case
  proof (cases "ok s1 \<and> 0 < length (drop ?n data)")
    case True
    have e': "(s1, w1) = EmitPhysicalRecord a fl (switch_block a w)
        (fragment_type b (length data = (if length data < block_avail (switch_block a w) then length data
          else block_avail (switch_block a w))))
        (take (if length data < block_avail (switch_block a w) then length data else block_avail (switch_block a w)) data)"
      by (simp only: e "1.prems"(1,2))
    note IH = "1.IH" [OF refl refl refl refl refl refl refl e' refl _ "1.prems"(1,2)]
    have "rel (dest w1) (dest w')"
      by (rule IH) (use True step "1.prems" in \<open>simp_all only: if_True simp_thms\<close>)
    with rel1 show ?thesis by (rule rel_trans)
  next
    case False
    then have "AddRecord_loop app flush w b data = (s1, w1)" unfolding step by (simp only: if_False)
    with "1.prems" rel1 show ?thesis by simp
  qed
qed

lemma rel_AddRecord: "AddRecord app flush w data = (s, w') \<Longrightarrow> rel (dest w) (dest w')"
  using rel_AddRecord_loop by (simp add: AddRecord_def)

end

text \<open>A file only grows.\<close>

sublocale writable_file \<subseteq> grows: file_relation app flush "\<lambda>f f'. \<exists>p. written f' = written f @ p"
proof
  fix f g h d s
  show "\<exists>p. written f = written f @ p" by simp
  show "\<exists>p. written g = written f @ p \<Longrightarrow> \<exists>p. written h = written g @ p \<Longrightarrow> \<exists>p. written h = written f @ p" by auto
  show "app f d = (s, g) \<Longrightarrow> \<exists>p. written g = written f @ p" using append_prefix by blast
  show "flush f = (s, g) \<Longrightarrow> \<exists>p. written g = written f @ p" using flush_prefix by blast
qed

section \<open>The writer writes it\<close>

text \<open>The writer at position \<open>o1\<close> of the file.  An offset of a whole block stands for the start of the next one.\<close>

definition writer_at :: "('f \<Rightarrow> slice) \<Rightarrow> 'f log_writer \<Rightarrow> nat \<Rightarrow> bool" where
  "writer_at pending w o1 \<longleftrightarrow>
    0 \<le> block_offset w \<and> block_offset w \<le> 32768 \<and> block_offset w mod 32768 = int (o1 mod 32768) \<and>
    type_crc w = InitTypeCrc \<and> pending (dest w) = []"

lemma writer_at_offset:
  assumes "writer_at pending w o1"
  shows "block_offset w = int (o1 mod 32768) \<or> block_offset w = 32768 \<and> o1 mod 32768 = 0"
  using assms by (cases "block_offset w = 32768") (auto simp: writer_at_def)

context writable_file
begin

lemma append_split:
  assumes "app f d = (s, f')"
  obtains p q where "p @ q = pending f @ d" "written f' = written f @ p" "s = OK \<longrightarrow> pending f' = q"
proof -
  obtain p q where pq: "p @ q = pending f @ d" "written f' = written f @ p" using append_prefix [OF assms] by blast
  moreover have "pending f' = q" if "s = OK"
    using append_done [of f d f'] assms that pq by (metis append.assoc same_append_eq)
  ultimately show thesis using that by blast
qed

lemma flush_split:
  assumes "flush f = (s, f')"
  obtains p q where "p @ q = pending f" "written f' = written f @ p" "s = OK \<longrightarrow> q = [] \<and> pending f' = []"
proof -
  obtain p q where pq: "p @ q = pending f" "written f' = written f @ p" using flush_prefix [OF assms] by blast
  moreover have "q = [] \<and> pending f' = []" if "s = OK"
    using flush_done [of f f'] assms that pq by auto
  ultimately show thesis using that by blast
qed

lemma emit:
  assumes "EmitPhysicalRecord app flush w t data = (s, w')" and "length (pending (dest w)) < 7" and "type_crc w = InitTypeCrc"
  shows "\<exists>p. prefix p (pending (dest w) @ physical t data) \<and> written (dest w') = written (dest w) @ p \<and>
    (s = OK \<longrightarrow> p = pending (dest w) @ physical t data \<and> pending (dest w') = [])"
    and "type_crc w' = InitTypeCrc"
proof -
  let ?h = "physical_header InitTypeCrc t data" and ?all = "pending (dest w) @ physical t data"
  obtain s1 f1 where 1: "app (dest w) ?h = (s1, f1)" by fastforce
  have s1: "s1 = OK" using append_small [OF _ 1] assms(2) by simp
  obtain s2 f2 where 2: "app f1 data = (s2, f2)" by fastforce
  obtain s3 f3 where 3: "flush f2 = (s3, f3)" by fastforce
  have w': "s = (if s2 = OK then s3 else s2)" "dest w' = (if s2 = OK then f3 else f2)" "type_crc w' = type_crc w"
    using assms(1) 1 2 3 s1 by (auto simp: EmitPhysicalRecord_def assms(3) ok_def split: if_splits)
  then show "type_crc w' = InitTypeCrc" by (simp add: assms(3))
  obtain p1 where p1: "p1 @ pending f1 = pending (dest w) @ ?h" "written f1 = written (dest w) @ p1"
    using append_split [OF 1] s1 by metis
  obtain p2 q2 where p2: "p2 @ q2 = pending f1 @ data" "written f2 = written f1 @ p2" "s2 = OK \<longrightarrow> pending f2 = q2"
    using append_split [OF 2] by metis
  obtain p3 q3 where p3: "p3 @ q3 = pending f2" "written f3 = written f2 @ p3" "s3 = OK \<longrightarrow> q3 = [] \<and> pending f3 = []"
    using flush_split [OF 3] by metis
  have all: "p1 @ p2 @ q2 = ?all" using p1(1) p2(1) unfolding physical_def by (metis append.assoc)
  show "\<exists>p. prefix p ?all \<and> written (dest w') = written (dest w) @ p \<and>
      (s = OK \<longrightarrow> p = ?all \<and> pending (dest w') = [])"
  proof (cases "s2 = OK")
    case False
    have "prefix (p1 @ p2) ?all" by (metis all append.assoc prefixI)
    then show ?thesis using w' False p1(2) p2(2) by auto
  next
    case True
    then have all': "(p1 @ p2 @ p3) @ q3 = ?all" using all p2(3) p3(1) by auto
    then have "prefix (p1 @ p2 @ p3) ?all" by (metis prefixI)
    then show ?thesis using w' True p1(2) p2(2) p3(2,3) all' by auto
  qed
qed

lemma switch:
  assumes "writer_at pending w o1"
  defines "w' \<equiv> switch_block app w"
  shows "written (dest w') @ pending (dest w') = written (dest w) @ replicate (pad_at o1) 0"
    and "\<exists>p. written (dest w') = written (dest w) @ p" and "length (pending (dest w')) < 7"
    and "type_crc w' = InitTypeCrc" and "block_offset w' = int ((o1 + pad_at o1) mod 32768)"
proof -
  have P: "pending (dest w) = []" "type_crc w = InitTypeCrc" using assms(1) by (simp_all add: writer_at_def)
  define m where "m = o1 mod 32768"
  have m: "m < 32768" by (simp add: m_def)
  have pad: "pad_at o1 = (if 32768 - m < 7 then 32768 - m else 0)" by (simp add: pad_at_def m_def)
  have mod: "(o1 + pad_at o1) mod 32768 = (if pad_at o1 = 0 then m else 0)"
    using padded_mod(1) [of o1] by (simp only: m_def)
  let ?z = "replicate (pad_at o1) (0 :: byte)"
  obtain s f where 1: "app (dest w) ?z = (s, f)" by fastforce
  have small: "pad_at o1 < 7" by (simp add: pad_at_def)
  then have "s = OK" using append_small [OF _ 1] P by simp
  then obtain p where p: "p @ pending f = ?z" "written f = written (dest w) @ p"
    using append_split [OF 1] P(1) by (metis append_Nil)
  have "w' = (if 0 < pad_at o1 then w\<lparr>dest := f, block_offset := 0\<rparr> else
      w\<lparr>block_offset := (if kBlockSize - block_offset w < kHeaderSize then 0 else block_offset w)\<rparr>)"
    using writer_at_offset [OF assms(1)]
  proof
    assume off: "block_offset w = int (o1 mod 32768)"
    then have off: "block_offset w = int m" by (simp add: m_def)
    have "nat (32768 - int m) = 32768 - m" using m by (simp add: nat_diff_distrib')
    then show ?thesis
      using m 1 by (auto simp: w'_def switch_block_def Let_def kBlockSize_def kHeaderSize_def off pad)
  next
    assume off: "block_offset w = 32768 \<and> o1 mod 32768 = 0"
    then have "pad_at o1 = 0" by (simp add: pad_at_def)
    with off show ?thesis
      by (simp add: w'_def switch_block_def Let_def kBlockSize_def kHeaderSize_def)
  qed
  then consider "pad_at o1 \<noteq> 0" "w' = w\<lparr>dest := f, block_offset := 0\<rparr>"
    | "pad_at o1 = 0" "w' = w\<lparr>block_offset := (if kBlockSize - block_offset w < kHeaderSize then 0 else block_offset w)\<rparr>"
    by (auto split: if_splits)
  note cases = this
  have "length (pending f) \<le> pad_at o1" using p(1) by (metis length_append length_replicate le_add2)
  then show "written (dest w') @ pending (dest w') = written (dest w) @ ?z"
    "\<exists>p. written (dest w') = written (dest w) @ p" "length (pending (dest w')) < 7"
    "type_crc w' = InitTypeCrc"
    using P p small by (cases rule: cases; simp)+
  have room: "m \<le> 32761" if "pad_at o1 = 0" using that m by (simp add: pad split: if_splits)
  show "block_offset w' = int ((o1 + pad_at o1) mod 32768)"
  proof (cases rule: cases)
    case 1
    then show ?thesis by (simp add: mod)
  next
    case 2
    then show ?thesis
      using writer_at_offset [OF assms(1)] room
      unfolding mod by (auto simp: kBlockSize_def kHeaderSize_def simp flip: m_def)
  qed
qed

theorem AddRecord_loop_writes:
  assumes "AddRecord_loop app flush w b data = (s, w')" and "writer_at pending w o1"
  shows "\<exists>p. prefix p (fragments_bytes (record_fragments o1 b data)) \<and> written (dest w') = written (dest w) @ p \<and>
    (s = OK \<longrightarrow> p = fragments_bytes (record_fragments o1 b data) \<and> writer_at pending w' (o1 + length p))"
  using assms
proof (induction o1 b data arbitrary: w rule: record_fragments.induct)
  case (1 o1 b data)
  let ?pad = "pad_at o1" and ?room = "room_at o1"
  define n where "n = min (length data) ?room"
  define t where "t = fragment_type b (length data \<le> ?room)"
  define w1 where "w1 = switch_block app w"
  note sw = switch [OF "1.prems"(2), folded w1_def]
  have avail: "block_avail w1 = ?room"
    using mod_block [of o1] by (simp add: block_avail_def sw(5) room_at_def kBlockSize_def kHeaderSize_def)
  have n: "n = (if length data < ?room then length data else ?room)" by (simp add: n_def)
  have fin: "length data = n \<longleftrightarrow> length data \<le> ?room" by (auto simp: n_def)
  obtain s2 w2 where em: "EmitPhysicalRecord app flush w1 t (take n data) = (s2, w2)" by fastforce
  have step: "AddRecord_loop app flush w b data =
      (if ok s2 \<and> 0 < length (drop n data) then AddRecord_loop app flush w2 False (drop n data) else (s2, w2))"
    by (subst AddRecord_loop.simps)
      (simp only: Let_def avail em [unfolded t_def] prod.case fin flip: w1_def n)
  note e = emit [OF em sw(3,4)]
  have off2: "block_offset w2 = int ((o1 + ?pad) mod 32768) + 7 + int n"
    using block_offset_Emit [OF em] by (simp add: sw(5) kHeaderSize_def n_def)
  obtain p where p: "prefix p (pending (dest w1) @ physical t (take n data))" "written (dest w2) = written (dest w1) @ p"
    "s2 = OK \<longrightarrow> p = pending (dest w1) @ physical t (take n data) \<and> pending (dest w2) = []"
    using e(1) by blast
  obtain z where z: "written (dest w1) = written (dest w) @ z" using sw(2) by blast
  have zp: "z @ pending (dest w1) = replicate ?pad 0" using sw(1) z by simp
  let ?frag = "fragment_bytes (?pad, t, take n data)"
  let ?rest = "if length data \<le> ?room then [] else record_fragments (o1 + ?pad + 7 + n) False (drop n data)"
  have frags: "record_fragments o1 b data = (?pad, t, take n data) # ?rest"
    by (subst record_fragments.simps) (simp add: Let_def n_def t_def)
  have frag: "?frag = z @ pending (dest w1) @ physical t (take n data)"
    using zp by (metis append.assoc fragment_bytes.simps)
  have pre: "prefix (z @ p) ?frag" using p(1) unfolding frag by simp
  have wr: "written (dest w2) = written (dest w) @ z @ p" using p(2) z by simp
  show ?case
  proof (cases "s2 = OK")
    case False
    with "1.prems"(1) have "s = s2" "w' = w2" by (simp_all add: step ok_def)
    moreover have "prefix (z @ p) (fragments_bytes (record_fragments o1 b data))"
      unfolding frags fragments_bytes_simps using pre by (rule prefix_prefix)
    ultimately show ?thesis using wr False by blast
  next
    case True
    then have whole: "z @ p = ?frag" using p(3) unfolding frag by simp
    have at: "writer_at pending w2 (o1 + ?pad + 7 + n)"
    proof -
      have "(o1 + ?pad) mod 32768 + 7 + n \<le> 32768" using mod_block [of o1] by (simp add: n_def room_at_def)
      moreover have "((o1 + ?pad) mod 32768 + 7 + n) mod 32768 = (o1 + ?pad + 7 + n) mod 32768"
        by (simp add: mod_add_left_eq add.assoc)
      moreover have "block_offset w2 = int ((o1 + ?pad) mod 32768 + 7 + n)" by (simp add: off2)
      moreover from this have "block_offset w2 mod 32768 = int (((o1 + ?pad) mod 32768 + 7 + n) mod 32768)"
        by (simp only: of_nat_mod of_nat_numeral)
      ultimately show ?thesis
        using True p(3) e(2) by (simp add: writer_at_def)
    qed
    show ?thesis
    proof (cases "length data \<le> ?room")
      case last: True
      then have "drop n data = []" by (simp add: n_def)
      with "1.prems"(1) True have "s = OK" "w' = w2" by (simp_all add: step ok_def)
      moreover have "z @ p = fragments_bytes (record_fragments o1 b data)" using last whole by (simp add: frags)
      moreover have "length (z @ p) = ?pad + 7 + n" using whole by (simp add: n_def)
      ultimately show ?thesis using wr at by (metis add.assoc prefix_order.refl)
    next
      case more: False
      then have "0 < length (drop n data)" by (auto simp: n_def)
      with "1.prems"(1) True have rec: "AddRecord_loop app flush w2 False (drop n data) = (s, w')"
        by (simp add: step ok_def)
      obtain q where q: "prefix q (fragments_bytes (record_fragments (o1 + ?pad + 7 + n) False (drop n data)))"
        "written (dest w') = written (dest w2) @ q"
        "s = OK \<longrightarrow> q = fragments_bytes (record_fragments (o1 + ?pad + 7 + n) False (drop n data)) \<and>
          writer_at pending w' (o1 + ?pad + 7 + n + length q)"
        using "1.IH" [OF n_def refl _ rec at] more by auto
      have len: "length ?frag = ?pad + 7 + n" by (simp add: n_def)
      have all: "fragments_bytes (record_fragments o1 b data) =
          ?frag @ fragments_bytes (record_fragments (o1 + ?pad + 7 + n) False (drop n data))"
        using more by (simp add: frags)
      have "prefix (?frag @ q) (fragments_bytes (record_fragments o1 b data))" using q(1) by (simp add: all)
      moreover have "written (dest w') = written (dest w) @ ?frag @ q" using q(2) wr whole by simp
      moreover have "s = OK \<longrightarrow> ?frag @ q = fragments_bytes (record_fragments o1 b data) \<and>
          writer_at pending w' (o1 + length (?frag @ q))"
      proof -
        have eq: "o1 + length (?frag @ q) = o1 + ?pad + 7 + n + length q" unfolding length_append len by simp
        show ?thesis using q(3) unfolding all eq by blast
      qed
      ultimately show ?thesis by blast
    qed
  qed
qed

lemma AddRecord_writes:
  assumes "AddRecord app flush w data = (s, w')" and "writer_at pending w o1"
  shows "\<exists>p. prefix p (record_bytes o1 data) \<and> written (dest w') = written (dest w) @ p \<and>
    (s = OK \<longrightarrow> p = record_bytes o1 data \<and> writer_at pending w' (o1 + length p))"
  using AddRecord_loop_writes [OF assms(1) [unfolded AddRecord_def] assms(2)] by (simp add: record_bytes_def)

end

end
