(* ===== verification/Ldb_Log_Read.thy ===== *)
theory Ldb_Log_Read
  imports Ldb_Log_Format
begin

text \<open>
  What the reader makes of a log, or of the beginning of one: \<open>view\<close> says where a reader stands in the file, and a
  physical record that is there as a whole is returned, one that is cut off is the end of the file.
\<close>

section \<open>Parsing a header\<close>

lemma header_parts:
  fixes t :: u32 and crcs :: "u32 list" and data rest :: slice
  assumes "length data < 2 ^ 16"
  defines "h \<equiv> physical_header crcs t data"
  shows "ucast (h ! 4) AND 0xff OR push_bit 8 (ucast (h ! 5) AND 0xff) = (of_nat (length data) :: u32)"
    and "h ! 6 = ucast t" and "take 1 (drop 6 h) = [ucast t]"
    and "DecodeFixed32 (h @ rest) = Mask (Extend (crcs ! unat t) 0 data)"
proof -
  let ?n = "of_nat (length data) :: size_t"
  have h: "h = EncodeFixed32 (Mask (Extend (crcs ! unat t) 0 data)) @ [ucast (?n AND 0xff), ucast (drop_bit 8 ?n), ucast t]"
    by (simp add: h_def physical_header_def Let_def)
  have nth: "(EncodeFixed32 x @ ys) ! (4 + k) = ys ! k" for x ys k by (simp add: nth_append)
  have 4: "h ! 4 = ucast (?n AND 0xff)" using nth [of _ _ 0] by (simp add: h)
  have 5: "h ! 5 = ucast (drop_bit 8 ?n)" using nth [of _ _ 1] by (simp add: h)
  show "h ! 6 = ucast t" using nth [of _ _ 2] by (simp add: h)
  show "take 1 (drop 6 h) = [ucast t]" by (simp add: h)
  show "DecodeFixed32 (h @ rest) = Mask (Extend (crcs ! unat t) 0 data)" by (simp add: h)
  have len: "bit (length data) i \<Longrightarrow> i < 16" for i
    using assms(1) by (metis bit_take_bit_iff take_bit_nat_eq_self)
  show "ucast (h ! 4) AND 0xff OR push_bit 8 (ucast (h ! 5) AND 0xff) = (of_nat (length data) :: u32)"
    unfolding 4 5 and_0xFF
  proof (rule bit_word_eqI)
    fix i :: nat
    assume i: "i < LENGTH(32)"
    show "bit (take_bit 8 (ucast (ucast (take_bit 8 ?n) :: byte)) OR
        push_bit 8 (take_bit 8 (ucast (ucast (drop_bit 8 ?n) :: byte))) :: u32) i = bit (of_nat (length data) :: u32) i"
      using len [of i] i
      by (cases "i < 8") (auto simp: bit_simps bit_of_nat_iff)
  qed
qed

definition written_type :: "u32 \<Rightarrow> bool" where
  "written_type t \<longleftrightarrow> t = kFullType \<or> t = kFirstType \<or> t = kMiddleType \<or> t = kLastType"

lemma written_type_facts:
  assumes "written_type t"
  shows "scast (ucast t :: byte) = t" and "unat t < 5" and "t \<noteq> kZeroType" and "ucast t = (of_nat (unat t) :: byte)"
  using assms by (auto simp: written_type_def record_types)

lemma checksum_ok:
  assumes "written_type t"
  shows "crc_Value 0 (ucast t # data) = Unmask (Mask (Extend (InitTypeCrc ! unat t) 0 data))"
proof -
  have "InitTypeCrc ! unat t = crc32c 0 [ucast t]"
    using written_type_facts(2,4) [OF assms] by (simp add: InitTypeCrc_def crc_Value_eq)
  then show ?thesis
    using crc32c_append [of 0 "[ucast t]" data] by (simp add: Unmask_Mask crc_Value_eq Extend_crc32c)
qed

lemma parse_physical_whole:
  assumes "buffer r = physical t data @ rest" and "written_type t" and "length data < 2 ^ 16" and "initial_offset r = 0"
  shows "parse_physical r result = (t, data, r\<lparr>buffer := rest\<rparr>)"
proof -
  let ?h = "physical_header InitTypeCrc t data"
  note hp = header_parts [OF assms(3), of InitTypeCrc t]
  have nth: "(?h @ xs) ! k = ?h ! k" if "k < 7" for xs k using that by (simp add: nth_append)
  have b: "buffer r = ?h @ data @ rest" by (simp add: assms(1) physical_def)
  have n: "unat (of_nat (length data) :: u32) = length data" using assms(3) by (simp add: unat_of_nat32)
  have L: "ucast (buffer r ! 4) AND 0xff OR push_bit 8 (ucast (buffer r ! 5) AND 0xff) = (of_nat (length data) :: u32)"
    unfolding b using nth [of 4 "data @ rest"] nth [of 5 "data @ rest"] hp(1) by simp
  have T: "scast (buffer r ! 6) = t"
    unfolding b using nth [of 6 "data @ rest"] hp(2) written_type_facts(1) [OF assms(2)] by simp
  have six: "take (1 + length data) (drop 6 (buffer r)) = ucast t # data"
  proof -
    have "drop 6 ?h = [ucast t]" using hp(3) by (simp add: take_all_iff)
    then show ?thesis by (simp add: b)
  qed
  have D: "DecodeFixed32 (buffer r) = Mask (Extend (InitTypeCrc ! unat t) 0 data)"
    unfolding b by (rule hp(4))
  have crc: "crc_Value 0 (take (1 + length data) (drop 6 (buffer r))) = Unmask (DecodeFixed32 (buffer r))"
    by (simp only: six D checksum_ok [OF assms(2)])
  have "\<not> length (buffer r) < 7 + length data" "drop (7 + length data) (buffer r) = rest"
    "take (length data) (drop 7 (buffer r)) = data"
    by (simp_all add: b)
  then show ?thesis
    using written_type_facts(3) [OF assms(2)] assms(4)
    unfolding parse_physical_def Let_def L T n crc by simp
qed

text \<open>A header at the end of the file, with less behind it than it announces.\<close>

lemma parse_physical_short:
  assumes "buffer r = physical_header InitTypeCrc t data @ xs" and "length xs < length data"
    and "length data < 2 ^ 16" and "eof r"
  shows "parse_physical r result = (kEof, result, r\<lparr>buffer := []\<rparr>)"
proof -
  let ?h = "physical_header InitTypeCrc t data"
  have n: "unat (of_nat (length data) :: u32) = length data" using assms(3) by (simp add: unat_of_nat32)
  have "ucast (buffer r ! 4) AND 0xff OR push_bit 8 (ucast (buffer r ! 5) AND 0xff) = (of_nat (length data) :: u32)"
    unfolding assms(1) using header_parts(1) [OF assms(3), of InitTypeCrc t] by (simp add: nth_append)
  moreover have "length (buffer r) < 7 + length data" using assms(2) by (simp add: assms(1))
  ultimately show ?thesis
    using assms(4) unfolding parse_physical_def Let_def by (simp only: n) simp
qed

lemma parse_physical_cut:
  assumes "prefix (buffer r) (physical t data)" and "7 \<le> length (buffer r)" and "length (buffer r) < 7 + length data"
    and "length data < 2 ^ 16" and "eof r"
  shows "parse_physical r result = (kEof, result, r\<lparr>buffer := []\<rparr>)"
proof -
  let ?h = "physical_header InitTypeCrc t data"
  have "take 7 (buffer r) = take 7 (physical t data)"
    using assms(1,2) by (metis append_eq_conv_conj length_take min.absorb2 prefix_def take_append take_take diff_is_0_eq' append_Nil2 take0)
  then have "take 7 (buffer r) = ?h" by (simp add: physical_def)
  then obtain xs where b: "buffer r = ?h @ xs" by (metis append_take_drop_id)
  show ?thesis using assms(3-5) by (intro parse_physical_short [OF b]) (auto simp: b)
qed

section \<open>Where a reader stands\<close>

lemma prefix_split:
  assumes "prefix R (xs @ ys)" and "length xs \<le> length R"
  shows "R = xs @ drop (length xs) R" and "prefix (drop (length xs) R) ys"
proof -
  have "R = xs \<or> (\<exists>us. R = xs @ us \<and> prefix us ys)"
    using assms by (auto simp: prefix_append) (metis le_antisym length_append le_add1 prefix_def append_eq_append_conv append_Nil2)
  then show "R = xs @ drop (length xs) R" "prefix (drop (length xs) R) ys" by auto
qed

text \<open>
  The reader is at position \<open>o1\<close> of the file and \<open>R\<close> is what lies ahead of it.  Its buffer reaches to the end of the
  block, or to the end of the file when it has seen that.
\<close>

definition view :: "('f \<Rightarrow> slice) \<Rightarrow> 'f log_reader \<Rightarrow> nat \<Rightarrow> slice \<Rightarrow> bool" where
  "view ahead r o1 R \<longleftrightarrow>
    initial_offset r = 0 \<and> \<not> resyncing r \<and> buffer r @ ahead (source r) = R \<and>
    (if eof r then ahead (source r) = [] \<and> o1 mod 32768 + length R < 32768
     else length (buffer r) = (32768 - o1 mod 32768) mod 32768)"

text \<open>The same with a buffer that is ready to be parsed: at the start of a block it holds the block.\<close>

definition ready :: "('f \<Rightarrow> slice) \<Rightarrow> 'f log_reader \<Rightarrow> nat \<Rightarrow> slice \<Rightarrow> bool" where
  "ready ahead r o1 R \<longleftrightarrow>
    initial_offset r = 0 \<and> \<not> resyncing r \<and> buffer r @ ahead (source r) = R \<and>
    (if eof r then ahead (source r) = [] \<and> o1 mod 32768 + length R < 32768
     else length (buffer r) = 32768 - o1 mod 32768)"

text \<open>What a step leaves: the reader before the next physical record, or at the end of the file.\<close>

definition unreported :: "'f log_reader \<Rightarrow> 'f log_reader \<Rightarrow> bool" where
  "unreported r r' \<longleftrightarrow> reporter r' = reporter r"

lemma view_last_record_offset [simp]: "view ahead (r\<lparr>last_record_offset := x\<rparr>) o1 R = view ahead r o1 R"
  by (simp add: view_def)

lemma next_block_mod:
  assumes "o1 mod 32768 + k \<le> (32768 :: nat)" and "0 < k"
  shows "(32768 - (o1 + k) mod 32768) mod 32768 = 32768 - o1 mod 32768 - k"
proof (cases "o1 mod 32768 + k = 32768")
  case True
  then show ?thesis using mod_reach [OF True] by simp
next
  case False
  then have "o1 mod 32768 + k < 32768" using assms(1) by simp
  then show ?thesis using mod_step [of o1 32768 k] assms(2) by simp
qed

lemma ready_whole:
  assumes "ready ahead r o1 R" and "prefix R (physical t data @ S)" and "written_type t"
    and "o1 mod 32768 + 7 + length data \<le> 32768" and "7 + length data \<le> length R"
  shows "\<exists>r'. parse_physical r result = (t, data, r') \<and>
    view ahead r' (o1 + 7 + length data) (drop (7 + length data) R) \<and> unreported r r' \<and> source r' = source r"
proof -
  let ?k = "7 + length data"
  have R: "buffer r @ ahead (source r) = R" "initial_offset r = 0" "\<not> resyncing r" using assms(1) by (simp_all add: ready_def)
  have len: "?k \<le> length (buffer r)"
    using assms(1,4,5) R(1) by (auto simp: ready_def split: if_splits)
  have "R = physical t data @ drop ?k R" using prefix_split(1) [OF assms(2)] assms(5) by simp
  then have "take ?k R = physical t data" by (metis append_eq_conv_conj length_physical)
  then have "take ?k (buffer r) = physical t data" using len R(1) by (metis take_append diff_is_0_eq' take0 append_Nil2)
  then have b: "buffer r = physical t data @ drop ?k (buffer r)" by (metis append_take_drop_id)
  have small: "length data < 2 ^ 16" using assms(4) by simp
  let ?r = "r\<lparr>buffer := drop ?k (buffer r)\<rparr>"
  have "view ahead ?r (o1 + 7 + length data) (drop ?k R)"
  proof (cases "eof r")
    case True
    then have a: "ahead (source r) = []" "o1 mod 32768 + length R < 32768" using assms(1) by (simp_all add: ready_def)
    have "(o1 + ?k) mod 32768 = o1 mod 32768 + ?k" by (rule mod_step) (use a(2) assms(5) in simp)
    then show ?thesis using True R a assms(5) by (simp add: view_def add.assoc)
  next
    case False
    have "(32768 - (o1 + ?k) mod 32768) mod 32768 = 32768 - o1 mod 32768 - ?k"
      by (rule next_block_mod) (use assms(4) in simp_all)
    then show ?thesis using False R len assms(1) by (simp add: view_def ready_def add.assoc flip: R(1))
  qed
  then show ?thesis
    using parse_physical_whole [OF b assms(3) small R(2)] by (auto simp: unreported_def)
qed

lemma ready_cut:
  assumes "ready ahead r o1 R" and "prefix R (physical t data @ S)"
    and "o1 mod 32768 + 7 + length data \<le> 32768" and "7 \<le> length (buffer r)" and "length R < 7 + length data"
  shows "\<exists>r'. parse_physical r result = (kEof, result, r') \<and> unreported r r'"
proof -
  have R: "buffer r @ ahead (source r) = R" using assms(1) by (simp add: ready_def)
  have e: "eof r" and b: "buffer r = R"
    using assms(1,3,5) R by (auto simp: ready_def split: if_splits)
  have "prefix R (physical t data)" using assms(2,5) by (auto simp: prefix_append)
  then have "parse_physical r result = (kEof, result, r\<lparr>buffer := []\<rparr>)"
    using parse_physical_cut [of r t data] assms(3,4,5) e b by simp
  then show ?thesis by (auto simp: unreported_def)
qed

lemma view_pad:
  assumes "view ahead r o1 R" and "\<not> eof r"
  shows "length (buffer r) < 7 \<Longrightarrow> pad_at o1 = length (buffer r)" and "7 \<le> length (buffer r) \<Longrightarrow> pad_at o1 = 0"
    and "7 \<le> length (buffer r) \<Longrightarrow> o1 mod 32768 \<noteq> 0"
proof -
  have l: "length (buffer r) = (32768 - o1 mod 32768) mod 32768" using assms by (simp add: view_def)
  have m: "o1 mod 32768 < 32768" by simp
  show "length (buffer r) < 7 \<Longrightarrow> pad_at o1 = length (buffer r)" "7 \<le> length (buffer r) \<Longrightarrow> pad_at o1 = 0"
    "7 \<le> length (buffer r) \<Longrightarrow> o1 mod 32768 \<noteq> 0"
    using l m by (cases "o1 mod 32768 = 0"; simp add: pad_at_def)+
qed

context sequential_file
begin

lemma fill:
  assumes "view ahead r o1 R" and "sound (source r)" and "length (buffer r) < 7" and "\<not> eof r"
  shows "\<exists>r2. ReadPhysicalRecord read r result =
      (if length (buffer r2) < 7 then (kEof, result, r2\<lparr>buffer := []\<rparr>) else parse_physical r2 result) \<and>
    ready ahead r2 (o1 + pad_at o1) (drop (pad_at o1) R) \<and> (length (buffer r2) < 7 \<longrightarrow> eof r2) \<and>
    unreported r r2 \<and> sound (source r2)"
proof -
  have pad: "pad_at o1 = length (buffer r)" using view_pad(1) [OF assms(1,4,3)] .
  have R: "drop (pad_at o1) R = ahead (source r)" using assms(1) pad by (auto simp: view_def)
  have l: "length (buffer r) = (32768 - o1 mod 32768) mod 32768" using assms(1,4) by (simp add: view_def)
  have o2: "(o1 + pad_at o1) mod 32768 = 0"
  proof (cases "o1 mod 32768 = 0")
    case True
    then show ?thesis using l by (simp add: pad)
  next
    case False
    then have "pad_at o1 \<noteq> 0" using l by (simp add: pad)
    then show ?thesis by (simp add: padded_mod(1))
  qed
  obtain f where f: "read (source r) 32768 = (OK, take 32768 (ahead (source r)), f)"
    "ahead f = drop 32768 (ahead (source r))" "sound f"
    using read_next [OF assms(2), of 32768] by blast
  let ?data = "take 32768 (ahead (source r))"
  let ?r1 = "r\<lparr>source := f, buffer := ?data, end_of_buffer_offset := end_of_buffer_offset r + of_nat (length ?data)\<rparr>"
  let ?r2 = "if length ?data < 32768 then ?r1\<lparr>eof := True\<rparr> else ?r1"
  have step: "ReadPhysicalRecord read r result = ReadPhysicalRecord read ?r2 result"
    using assms(3,4) by (subst ReadPhysicalRecord.simps) (simp add: f(1) Let_def)
  have "ReadPhysicalRecord read ?r2 result =
      (if length (buffer ?r2) < 7 then (kEof, result, ?r2\<lparr>buffer := []\<rparr>) else parse_physical ?r2 result)"
    by (subst ReadPhysicalRecord.simps) auto
  moreover have "ready ahead ?r2 (o1 + pad_at o1) (drop (pad_at o1) R)"
    using assms(1) f(2) o2 by (auto simp: ready_def view_def R)
  moreover have "length (buffer ?r2) < 7 \<longrightarrow> eof ?r2" "unreported r ?r2" "sound (source ?r2)"
    using f(3) by (auto simp: unreported_def)
  ultimately show ?thesis using step by metis
qed

lemma advance:
  assumes "view ahead r o1 R" and "sound (source r)"
  obtains (parse) r2 where "ReadPhysicalRecord read r result = parse_physical r2 result"
      "ready ahead r2 (o1 + pad_at o1) (drop (pad_at o1) R)" "7 \<le> length (buffer r2)" "unreported r r2" "sound (source r2)"
  | (stop) r2 where "ReadPhysicalRecord read r result = (kEof, result, r2)" "length R < pad_at o1 + 7" "unreported r r2"
proof (cases "length (buffer r) < 7")
  case short: True
  show thesis
  proof (cases "eof r")
    case True
    then have "length R < pad_at o1 + 7" using assms(1) short by (auto simp: view_def)
    moreover have "ReadPhysicalRecord read r result = (kEof, result, r\<lparr>buffer := []\<rparr>)"
      using short True by (subst ReadPhysicalRecord.simps) simp
    ultimately show thesis using stop [of "r\<lparr>buffer := []\<rparr>"] by (simp add: unreported_def)
  next
    case False
    obtain r2 where r2: "ReadPhysicalRecord read r result =
        (if length (buffer r2) < 7 then (kEof, result, r2\<lparr>buffer := []\<rparr>) else parse_physical r2 result)"
      "ready ahead r2 (o1 + pad_at o1) (drop (pad_at o1) R)" "length (buffer r2) < 7 \<longrightarrow> eof r2"
      "unreported r r2" "sound (source r2)"
      using fill [OF assms short False] by blast
    show thesis
    proof (cases "length (buffer r2) < 7")
      case True
      then have "length (drop (pad_at o1) R) < 7" using r2(2,3) by (auto simp: ready_def)
      with True r2(1,4) show thesis by (intro stop [of "r2\<lparr>buffer := []\<rparr>"]) (auto simp: unreported_def)
    next
      case False
      with r2 show thesis by (intro parse [of r2]) auto
    qed
  qed
next
  case long: False
  have pad: "pad_at o1 = 0" and "ready ahead r o1 R"
  proof -
    show "pad_at o1 = 0"
    proof (cases "eof r")
      case True
      then have "length (buffer r) = length R" "o1 mod 32768 + length R < 32768" using assms(1) by (auto simp: view_def)
      then show ?thesis using long by (simp add: pad_at_def)
    qed (use view_pad(2) [OF assms(1)] long in simp)
    show "ready ahead r o1 R"
      using assms(1) view_pad(3) [OF assms(1)] long by (auto simp: view_def ready_def split: if_splits)
  qed
  moreover have "ReadPhysicalRecord read r result = parse_physical r result"
    using long by (subst ReadPhysicalRecord.simps) simp
  ultimately show thesis using long assms(2) by (intro parse [of r]) (auto simp: unreported_def)
qed

lemma read_fragment:
  assumes "view ahead r o1 R" and "sound (source r)" and "prefix R (fragment_bytes (pad_at o1, t, data) @ S)"
    and "written_type t" and "length data \<le> room_at o1"
  shows "if pad_at o1 + 7 + length data \<le> length R
    then \<exists>r'. ReadPhysicalRecord read r result = (t, data, r') \<and>
      view ahead r' (o1 + pad_at o1 + 7 + length data) (drop (pad_at o1 + 7 + length data) R) \<and>
      unreported r r' \<and> sound (source r')
    else \<exists>r'. ReadPhysicalRecord read r result = (kEof, result, r') \<and> unreported r r'"
  using assms(1,2)
proof (cases rule: advance [of r o1 R result])
  case (parse r2)
  have fits: "(o1 + pad_at o1) mod 32768 + 7 + length data \<le> 32768"
    using assms(5) mod_block [of o1] by (simp add: room_at_def)
  have "length (buffer r2) \<le> length (drop (pad_at o1) R)"
    using parse(2) by (metis ready_def length_append le_add1)
  then have long: "pad_at o1 + 7 \<le> length R" using parse(3) by (simp add: le_diff_conv2)
  have pre: "prefix (drop (pad_at o1) R) (physical t data @ S)"
    using prefix_split(2) [of R "replicate (pad_at o1) 0" "physical t data @ S"] assms(3) long by simp
  show ?thesis
  proof (cases "pad_at o1 + 7 + length data \<le> length R")
    case True
    then have "7 + length data \<le> length (drop (pad_at o1) R)" by simp
    from ready_whole [OF parse(2) pre assms(4) fits this] obtain r' where
      "parse_physical r2 result = (t, data, r')"
      "view ahead r' (o1 + pad_at o1 + 7 + length data) (drop (7 + length data) (drop (pad_at o1) R))"
      "unreported r2 r'" "source r' = source r2" by blast
    with parse(1,4,5) True show ?thesis by (auto simp: unreported_def add.assoc add.commute add.left_commute)
  next
    case False
    then have "length (drop (pad_at o1) R) < 7 + length data" using long by simp
    from ready_cut [OF parse(2) pre fits parse(3) this] obtain r' where
      "parse_physical r2 result = (kEof, result, r')" "unreported r2 r'" by blast
    with parse(1,4) False show ?thesis by (auto simp: unreported_def)
  qed
next
  case (stop r2)
  then show ?thesis by auto
qed

lemma written_fragment_type: "written_type (fragment_type b fin)"
  by (simp add: fragment_type_def written_type_def)

theorem ReadRecord_loop_reads:
  assumes "view ahead r o1 R" and "sound (source r)"
    and "prefix R (fragments_bytes (record_fragments o1 b data) @ S)"
    and "length R < n" and "in_frag = (\<not> b)" and "b \<longrightarrow> scratch = []"
  shows "if length (fragments_bytes (record_fragments o1 b data)) \<le> length R
    then \<exists>r'. ReadRecord_loop n read r frag in_frag scratch prospective = Some (Some (scratch @ data), r') \<and>
      view ahead r' (o1 + length (fragments_bytes (record_fragments o1 b data)))
        (drop (length (fragments_bytes (record_fragments o1 b data))) R) \<and>
      unreported r r' \<and> sound (source r')
    else \<exists>r'. ReadRecord_loop n read r frag in_frag scratch prospective = Some (None, r') \<and> unreported r r'"
  using assms
proof (induction o1 b data arbitrary: r R n frag in_frag scratch prospective rule: record_fragments.induct)
  case (1 o1 b data)
  let ?pad = "pad_at o1" and ?room = "room_at o1"
  define k where "k = min (length data) ?room"
  define fin where "fin = (length data \<le> ?room)"
  define t where "t = fragment_type b fin"
  let ?rest = "if fin then [] else record_fragments (o1 + ?pad + 7 + k) False (drop k data)"
  have frags: "record_fragments o1 b data = (?pad, t, take k data) # ?rest"
    by (subst record_fragments.simps) (simp add: Let_def k_def t_def fin_def)
  obtain m where n: "n = Suc m" using "1.prems"(4) by (cases n) auto
  have len: "length (take k data) = k" "k \<le> ?room" by (simp_all add: k_def)
  have pre: "prefix R (fragment_bytes (?pad, t, take k data) @ (fragments_bytes ?rest @ S))"
    using "1.prems"(3) by (simp add: frags)
  note rf = read_fragment [OF "1.prems"(1,2) pre, of frag, unfolded len, OF _ len(2)]
  have wt: "written_type t" by (simp add: t_def written_fragment_type)
  note rf = rf [OF wt]
  show ?case
  proof (cases "?pad + 7 + k \<le> length R")
    case False
    then obtain r' where r': "ReadPhysicalRecord read r frag = (kEof, frag, r')" "unreported r r'" using rf by auto
    have "\<not> length (fragments_bytes (record_fragments o1 b data)) \<le> length R"
      using False len(1) by (simp add: frags)
    moreover have "ReadRecord_loop n read r frag in_frag scratch prospective = Some (None, r'\<lparr>resyncing := False\<rparr>)"
      by (simp add: n r'(1) Let_def kEof_def record_types)
    ultimately show ?thesis using r'(2) by (auto simp: unreported_def)
  next
    case True
    then obtain r' where r': "ReadPhysicalRecord read r frag = (t, take k data, r')"
      "view ahead r' (o1 + ?pad + 7 + k) (drop (?pad + 7 + k) R)" "unreported r r'" "sound (source r')"
      using rf by auto
    have sync: "\<not> resyncing r'" "r'\<lparr>resyncing := False\<rparr> = r'" using r'(2) by (auto simp: view_def)
    show ?thesis
    proof (cases fin)
      case last: True
      then have k: "k = length data" by (simp add: fin_def k_def)
      obtain off where "ReadRecord_loop n read r frag in_frag scratch prospective =
          Some (Some (scratch @ data), r'\<lparr>last_record_offset := off\<rparr>)"
        using "1.prems"(5,6) last sync
        by (cases b) (auto simp: n r'(1) Let_def t_def fragment_type_def k record_types)
      moreover have "view ahead (r'\<lparr>last_record_offset := off\<rparr>) (o1 + ?pad + 7 + k) (drop (?pad + 7 + k) R)" for off
        using r'(2) by simp
      moreover have "length (fragments_bytes (record_fragments o1 b data)) = ?pad + 7 + k"
        using last len(1) by (simp add: frags)
      ultimately show ?thesis using True r'(3,4) by (auto simp: unreported_def add.assoc)
    next
      case more: False
      then have room: "k = ?room" "\<not> length data \<le> ?room" by (simp_all add: fin_def k_def)
      obtain pro where step: "ReadRecord_loop n read r frag in_frag scratch prospective =
          ReadRecord_loop m read r' (take k data) True (scratch @ take k data) pro"
        using "1.prems"(5,6) more sync
        by (cases b) (auto simp: n r'(1) Let_def t_def fragment_type_def record_types)
      let ?R = "drop (?pad + 7 + k) R" and ?fs = "record_fragments (o1 + ?pad + 7 + k) False (drop k data)"
      have bytes: "fragments_bytes (record_fragments o1 b data) =
          fragment_bytes (?pad, t, take k data) @ fragments_bytes ?fs"
        using more by (simp add: frags)
      have l: "length (fragment_bytes (?pad, t, take k data)) = ?pad + 7 + k" using len(1) by simp
      have pre': "prefix ?R (fragments_bytes ?fs @ S)"
        using prefix_split(2) [OF pre] True more unfolding l by simp
      have IH: "if length (fragments_bytes ?fs) \<le> length ?R
          then \<exists>r''. ReadRecord_loop m read r' (take k data) True (scratch @ take k data) pro =
            Some (Some ((scratch @ take k data) @ drop k data), r'') \<and>
            view ahead r'' (o1 + ?pad + 7 + k + length (fragments_bytes ?fs)) (drop (length (fragments_bytes ?fs)) ?R) \<and>
            unreported r' r'' \<and> sound (source r'')
          else \<exists>r''. ReadRecord_loop m read r' (take k data) True (scratch @ take k data) pro = Some (None, r'') \<and>
            unreported r' r''"
        by (rule "1.IH" [OF k_def refl room(2) r'(2,4) pre']) (use "1.prems"(4) n True in auto)
      have "length (fragments_bytes (record_fragments o1 b data)) = ?pad + 7 + k + length (fragments_bytes ?fs)"
        unfolding bytes length_append l by simp
      then show ?thesis
        using IH True r'(3) unfolding step by (auto simp: unreported_def add.assoc add.commute add.left_commute split: if_splits)
    qed
  qed
qed

end

end
