(* ===== verification/Ldb_Log_Props.thy ===== *)
theory Ldb_Log_Props
  imports Ldb_Log_Read
begin

text \<open>
  The write-ahead log survives a crash: whatever beginning of a log file is left, the reader returns exactly the records
  that are there as a whole, in their order, and reports nothing.
\<close>

section \<open>Writing and reading many records\<close>

text \<open>
  A client that appends one record after the other and gets the status of each.  As \<open>DBImpl::Write\<close> does, it goes on
  when a record could not be written.
\<close>

fun add_records ::
  "('f \<Rightarrow> slice \<Rightarrow> status \<times> 'f) \<Rightarrow> ('f \<Rightarrow> status \<times> 'f) \<Rightarrow> 'f log_writer \<Rightarrow> slice list \<Rightarrow> status list \<times> 'f log_writer" where
  "add_records app flush w [] = ([], w)"
| "add_records app flush w (r # rs) =
    (let (s, w) = AddRecord app flush w r;
         (ss, w) = add_records app flush w rs
     in (s # ss, w))"

text \<open>The number of records that were acknowledged before the first failure.\<close>

definition acknowledged :: "status list \<Rightarrow> nat" where
  "acknowledged ss = length (takeWhile ok ss)"

text \<open>No record was appended after one that failed.\<close>

definition stopped :: "status list \<Rightarrow> bool" where
  "stopped ss = list_all ok (butlast ss)"

text \<open>\<open>while (reader.ReadRecord(&record, &scratch))\<close>, the loop of the clients of the reader.\<close>

fun read_records ::
  "nat \<Rightarrow> nat \<Rightarrow> ('f \<Rightarrow> nat \<Rightarrow> status \<times> slice \<times> 'f) \<Rightarrow> ('f \<Rightarrow> u64 \<Rightarrow> status \<times> 'f) \<Rightarrow> 'f log_reader \<Rightarrow>
    (slice list \<times> 'f log_reader) option" where
  "read_records 0 n read skip r = None"
| "read_records (Suc k) n read skip r =
    (case ReadRecord n read skip r of
       None \<Rightarrow> None
     | Some (None, r) \<Rightarrow> Some ([], r)
     | Some (Some rec, r) \<Rightarrow>
         (case read_records k n read skip r of None \<Rightarrow> None | Some (recs, r) \<Rightarrow> Some (rec # recs, r)))"

text \<open>The records that \<open>m\<close> bytes of a log hold as a whole.\<close>

fun whole_records :: "nat \<Rightarrow> nat \<Rightarrow> slice list \<Rightarrow> slice list" where
  "whole_records o1 m [] = []"
| "whole_records o1 m (r # rs) =
    (let l = length (record_bytes o1 r) in if l \<le> m then r # whole_records (o1 + l) (m - l) rs else [])"

lemma record_bytes_long: "7 \<le> length (record_bytes o1 r)"
  unfolding record_bytes_def by (subst record_fragments.simps) (simp add: Let_def)

lemma record_bytes_nonempty [simp]: "record_bytes o1 r \<noteq> []"
  using record_bytes_long [of o1 r] by auto

lemma whole_records_take:
  "\<exists>j \<le> length rs. whole_records o1 m rs = take j rs \<and> length (log_bytes o1 (take j rs)) \<le> m \<and>
    (j < length rs \<longrightarrow> m < length (log_bytes o1 (take (Suc j) rs)))"
proof (induction rs arbitrary: o1 m)
  case (Cons r rs)
  let ?l = "length (record_bytes o1 r)"
  show ?case
  proof (cases "?l \<le> m")
    case True
    obtain j where j: "j \<le> length rs" "whole_records (o1 + ?l) (m - ?l) rs = take j rs"
      "length (log_bytes (o1 + ?l) (take j rs)) \<le> m - ?l"
      "j < length rs \<longrightarrow> m - ?l < length (log_bytes (o1 + ?l) (take (Suc j) rs))"
      using Cons.IH by blast
    with True show ?thesis by (intro exI [of _ "Suc j"]) (auto simp: Let_def)
  next
    case False
    then show ?thesis by (intro exI [of _ 0]) (simp add: Let_def)
  qed
qed simp

lemma whole_records_all: "whole_records o1 m (rs @ rs') = rs @ whole_records (o1 + length (log_bytes o1 rs)) (m - length (log_bytes o1 rs)) rs'"
  if "length (log_bytes o1 rs) \<le> m"
  using that by (induction rs arbitrary: o1 m) (auto simp: Let_def add.assoc)

lemma stopped_simps [simp]:
  "stopped []" "stopped (s # ss) \<longleftrightarrow> (ss = [] \<or> ok s \<and> stopped ss)"
  by (auto simp: stopped_def)

lemma acknowledged_simps [simp]:
  "acknowledged [] = 0" "acknowledged (s # ss) = (if ok s then Suc (acknowledged ss) else 0)"
  by (simp_all add: acknowledged_def)

lemma add_records_length: "add_records app flush w rs = (ss, w') \<Longrightarrow> length ss = length rs"
  by (induction rs arbitrary: w ss w') (auto split: prod.splits)

lemma acknowledged_le: "acknowledged ss \<le> length ss"
  by (simp add: acknowledged_def length_takeWhile_le)

context writable_file
begin

lemma add_records_grow:
  "add_records app flush w rs = (ss, w') \<Longrightarrow> \<exists>p. written (dest w') = written (dest w) @ p"
proof (induction rs arbitrary: w w' ss)
  case (Cons r rs)
  obtain s1 w1 where 1: "AddRecord app flush w r = (s1, w1)" by fastforce
  obtain ss2 w2 where 2: "add_records app flush w1 rs = (ss2, w2)" by fastforce
  with 1 Cons.prems have "w' = w2" by simp
  then show ?case using grows.rel_AddRecord [OF 1] Cons.IH [OF 2] by auto
qed simp

text \<open>The file begins with the records acknowledged before the first failure; and if the writer stopped there, it holds no
  more than a beginning of the record that failed.\<close>

lemma add_records_writes:
  assumes "add_records app flush w rs = (ss, w')" and "writer_at pending w o1"
  defines "k \<equiv> acknowledged ss"
  shows "\<exists>p. written (dest w') = written (dest w) @ log_bytes o1 (take k rs) @ p \<and>
    (stopped ss \<longrightarrow> prefix (log_bytes o1 (take k rs) @ p) (log_bytes o1 rs) \<and>
      whole_records o1 (length (log_bytes o1 (take k rs) @ p)) rs \<in> {take k rs, take (Suc k) rs})"
  using assms(1,2) unfolding k_def
proof (induction rs arbitrary: w w' o1 ss)
  case (Cons r rs)
  obtain s1 w1 where 1: "AddRecord app flush w r = (s1, w1)" by fastforce
  obtain ss2 w2 where 2: "add_records app flush w1 rs = (ss2, w2)" by fastforce
  have ss: "ss = s1 # ss2" "w' = w2" using Cons.prems(1) 1 2 by auto
  let ?b = "record_bytes o1 r"
  obtain p where p: "prefix p ?b" "written (dest w1) = written (dest w) @ p"
    "s1 = OK \<longrightarrow> p = ?b \<and> writer_at pending w1 (o1 + length p)"
    using AddRecord_writes [OF 1 Cons.prems(2)] by blast
  show ?case
  proof (cases "s1 = OK")
    case False
    obtain q where q: "written (dest w') = written (dest w) @ p @ q"
      using add_records_grow [OF 2] p(2) ss(2) by auto
    have "q = [] \<and> whole_records o1 (length p) (r # rs) \<in> {[], [r]}" if "stopped ss"
    proof -
      have "rs = []" using that False ss(1) add_records_length [OF 2] by (auto simp: ok_def)
      moreover from this have "w2 = w1" using 2 by simp
      moreover have "length p \<le> length ?b" using p(1) by (rule prefix_length_le)
      ultimately show ?thesis using q p(2) ss(2) by (auto simp: Let_def)
    qed
    moreover have "acknowledged ss = 0" using False by (simp add: ss(1) ok_def)
    moreover have "prefix p (log_bytes o1 (r # rs))" using p(1) by simp
    ultimately show ?thesis using q by (intro exI [of _ "p @ q"]) auto
  next
    case True
    have at: "writer_at pending w1 (o1 + length ?b)" using p(3) True by blast
    let ?k = "acknowledged ss2" and ?o = "o1 + length ?b"
    obtain q where q: "written (dest w2) = written (dest w1) @ log_bytes ?o (take ?k rs) @ q"
      "stopped ss2 \<longrightarrow> prefix (log_bytes ?o (take ?k rs) @ q) (log_bytes ?o rs) \<and>
        whole_records ?o (length (log_bytes ?o (take ?k rs) @ q)) rs \<in> {take ?k rs, take (Suc ?k) rs}"
      using Cons.IH [OF 2 at] by blast
    have k: "acknowledged ss = Suc ?k" "stopped ss \<longrightarrow> stopped ss2" using True by (auto simp: ss(1))
    have "whole_records o1 (length (log_bytes o1 (take (Suc ?k) (r # rs)) @ q)) (r # rs) =
        r # whole_records ?o (length (log_bytes ?o (take ?k rs) @ q)) rs"
      by (simp add: Let_def)
    then have "whole_records o1 (length (log_bytes o1 (take (Suc ?k) (r # rs)) @ q)) (r # rs)
        \<in> {take (Suc ?k) (r # rs), take (Suc (Suc ?k)) (r # rs)}" if "stopped ss"
      using q(2) k(2) that by auto
    moreover have "written (dest w') = written (dest w) @ log_bytes o1 (take (Suc ?k) (r # rs)) @ q"
      using q(1) p(2,3) True ss(2) by simp
    ultimately show ?thesis
      using q(2) k by (intro exI [of _ q]) auto
  qed
qed simp

end

context sequential_file
begin

lemma ReadRecord_end:
  assumes "view ahead r o1 []" and "sound (source r)" and "0 < n"
  shows "\<exists>r'. ReadRecord n read skip r = Some (None, r') \<and> unreported r r'"
proof -
  obtain m where n: "n = Suc m" using assms(3) by (cases n) auto
  have "initial_offset r = 0" using assms(1) by (simp add: view_def)
  then have start: "ReadRecord n read skip r = ReadRecord_loop n read r [] False [] 0" by (simp add: ReadRecord_def)
  show ?thesis
    using assms(1,2)
  proof (cases rule: advance [of r o1 "[]" "[]"])
    case (parse r2)
    then show ?thesis by (auto simp: ready_def split: if_splits)
  next
    case (stop r2)
    then have "ReadRecord n read skip r = Some (None, r2\<lparr>resyncing := False\<rparr>)"
      unfolding start by (simp add: n Let_def kEof_def record_types)
    then show ?thesis using stop(3) by (simp add: unreported_def)
  qed
qed

text \<open>The next record is read if it is there as a whole; otherwise the log ends.\<close>

lemma ReadRecord_next:
  assumes "view ahead r o1 R" and "sound (source r)" and "prefix R (record_bytes o1 rec @ S)" and "length R < n"
  defines "b \<equiv> record_bytes o1 rec"
  shows "length b \<le> length R \<Longrightarrow> \<exists>r'. ReadRecord n read skip r = Some (Some rec, r') \<and>
      view ahead r' (o1 + length b) (drop (length b) R) \<and> unreported r r' \<and> sound (source r') \<and>
      prefix (drop (length b) R) S"
    and "\<not> length b \<le> length R \<Longrightarrow> \<exists>r'. ReadRecord n read skip r = Some (None, r') \<and> unreported r r'"
proof -
  have start: "ReadRecord n read skip r = ReadRecord_loop n read r [] False [] 0"
    using assms(1) by (simp add: ReadRecord_def view_def)
  have pre: "prefix R (fragments_bytes (record_fragments o1 True rec) @ S)"
    using assms(3) by (simp add: record_bytes_def b_def)
  note loop = ReadRecord_loop_reads [OF assms(1,2) pre assms(4), of False "[]" "[]" 0, folded record_bytes_def start, folded b_def]
  show "\<exists>r'. ReadRecord n read skip r = Some (None, r') \<and> unreported r r'" if "\<not> length b \<le> length R"
    using loop that by auto
  show "\<exists>r'. ReadRecord n read skip r = Some (Some rec, r') \<and> view ahead r' (o1 + length b) (drop (length b) R) \<and>
      unreported r r' \<and> sound (source r') \<and> prefix (drop (length b) R) S"
    if "length b \<le> length R"
  proof -
    have "prefix (drop (length b) R) S"
      using prefix_split(2) [of R b] assms(3) that by (simp add: b_def)
    with loop that show ?thesis by auto
  qed
qed

theorem read_records_whole:
  assumes "view ahead r o1 R" and "sound (source r)" and "prefix R (log_bytes o1 rs)"
    and "length R < n" and "length R < k"
  shows "\<exists>r'. read_records k n read skip r = Some (whole_records o1 (length R) rs, r') \<and> unreported r r'"
  using assms
proof (induction rs arbitrary: r o1 R k)
  case Nil
  then have "R = []" by simp
  obtain k' where k: "k = Suc k'" using Nil.prems(5) by (cases k) auto
  obtain r' where "ReadRecord n read skip r = Some (None, r')" "unreported r r'"
    using ReadRecord_end [of r o1 n skip] Nil.prems(1,2,4) \<open>R = []\<close> by auto
  then show ?case by (simp add: k)
next
  case (Cons rec rs)
  obtain k' where k: "k = Suc k'" using Cons.prems(5) by (cases k) auto
  let ?b = "record_bytes o1 rec"
  note next_record = ReadRecord_next [OF Cons.prems(1,2) Cons.prems(3) [unfolded log_bytes.simps] Cons.prems(4), of skip]
  show ?case
  proof (cases "length ?b \<le> length R")
    case False
    then obtain r' where "ReadRecord n read skip r = Some (None, r')" "unreported r r'" using next_record(2) by blast
    then show ?thesis using False by (simp add: k Let_def)
  next
    case True
    then obtain r' where r': "ReadRecord n read skip r = Some (Some rec, r')"
      "view ahead r' (o1 + length ?b) (drop (length ?b) R)" "unreported r r'" "sound (source r')"
      "prefix (drop (length ?b) R) (log_bytes (o1 + length ?b) rs)"
      using next_record(1) by blast
    have "length (drop (length ?b) R) < n" "length (drop (length ?b) R) < k'"
      using Cons.prems(4,5) record_bytes_long [of o1 rec] True k by auto
    from Cons.IH [OF r'(2,4,5) this] obtain r'' where "read_records k' n read skip r' =
        Some (whole_records (o1 + length ?b) (length (drop (length ?b) R)) rs, r'')" "unreported r' r''" by blast
    then show ?thesis using True r'(1,3) by (auto simp: k Let_def unreported_def)
  qed
qed

end

section \<open>The reader returns\<close>

text \<open>The bytes a reader has not passed.\<close>

definition remaining :: "('f \<Rightarrow> slice) \<Rightarrow> 'f log_reader \<Rightarrow> nat" where
  "remaining ahead r = length (buffer r) + length (ahead (source r))"

lemma ReportDrop_fields [simp]:
  "buffer (ReportDrop r b s) = buffer r" "source (ReportDrop r b s) = source r" "eof (ReportDrop r b s) = eof r"
  by (simp_all add: ReportDrop_def split: option.split)

lemma ReportCorruption_fields [simp]:
  "buffer (ReportCorruption r b m) = buffer r" "source (ReportCorruption r b m) = source r"
  by (simp_all add: ReportCorruption_def)

lemma remaining_simps [simp]:
  "remaining ahead (ReportCorruption r b m) = remaining ahead r"
  "remaining ahead (r\<lparr>resyncing := x\<rparr>) = remaining ahead r"
  by (simp_all add: remaining_def)

lemma parse_physical_remaining:
  assumes "parse_physical r result = (t, d, r')" and "7 \<le> length (buffer r)"
  shows "remaining ahead r' < remaining ahead r \<and> source r' = source r \<and>
    (t \<noteq> kEof \<and> t \<noteq> kBadRecord \<longrightarrow> remaining ahead r' + 7 + length d \<le> remaining ahead r)"
  using assms unfolding parse_physical_def Let_def remaining_def
  by (auto simp del: and_numerals split: if_splits)

text \<open>A call that returns, with at most \<open>m\<close> bytes ahead, and at least a header and the record less than \<open>l\<close>.\<close>

definition returns_within ::
  "('f \<Rightarrow> slice) \<Rightarrow> nat \<Rightarrow> nat \<Rightarrow> (slice option \<times> 'f log_reader) option \<Rightarrow> bool" where
  "returns_within ahead m l y \<longleftrightarrow>
    (\<exists>x r. y = Some (x, r) \<and> remaining ahead r \<le> m \<and>
      (\<forall>rec. x = Some rec \<longrightarrow> remaining ahead r + 7 + length rec \<le> l))"

lemma returns_withinI [intro]:
  "remaining ahead r \<le> m \<Longrightarrow> (\<And>rec. x = Some rec \<Longrightarrow> remaining ahead r + 7 + length rec \<le> l) \<Longrightarrow>
    returns_within ahead m l (Some (x, r))"
  by (simp add: returns_within_def)

lemma ReadPhysicalRecord_full:
  "ReadPhysicalRecord read r result =
    (if length (buffer r) < 7 then (kEof, result, r\<lparr>buffer := []\<rparr>) else parse_physical r result)"
  if "eof r \<or> 7 \<le> length (buffer r)"
  using that by (subst ReadPhysicalRecord.simps) auto

context shrinking_file
begin

lemma ReadPhysicalRecord_remaining:
  assumes "ReadPhysicalRecord read r result = (t, d, r')"
  shows "remaining ahead r' \<le> remaining ahead r \<and>
    (t \<noteq> kEof \<longrightarrow> remaining ahead r' < remaining ahead r) \<and>
    (t \<noteq> kEof \<and> t \<noteq> kBadRecord \<longrightarrow> remaining ahead r' + 7 + length d \<le> remaining ahead r)"
proof -
  have full: ?thesis
    if r2: "ReadPhysicalRecord read r2 result = (t, d, r')" "eof r2 \<or> 7 \<le> length (buffer r2)"
      "remaining ahead r2 \<le> remaining ahead r" for r2
    using r2(1,3) parse_physical_remaining [of r2 result t d r' ahead]
    unfolding ReadPhysicalRecord_full [OF r2(2)] by (fastforce simp: remaining_def split: if_splits)
  show ?thesis
  proof (cases "length (buffer r) < 7 \<and> \<not> eof r")
    case False
    with assms show ?thesis by (intro full [of r]) auto
  next
    case True
    obtain s data f where f: "read (source r) 32768 = (s, data, f)" by (metis prod_cases3)
    note shrinks = read_shrinks [OF f]
    let ?r1 = "r\<lparr>source := f, buffer := data, end_of_buffer_offset := end_of_buffer_offset r + of_nat (length data)\<rparr>"
    define r2 where "r2 = (if length data < 32768 then ?r1\<lparr>eof := True\<rparr> else ?r1)"
    have step: "ReadPhysicalRecord read r result =
        (if \<not> ok s then (kEof, result, (ReportDrop (?r1\<lparr>buffer := []\<rparr>) 32768 s)\<lparr>eof := True\<rparr>)
         else ReadPhysicalRecord read r2 result)"
      using True by (subst ReadPhysicalRecord.simps) (simp add: f Let_def r2_def)
    show ?thesis
    proof (cases "ok s")
      case False
      with assms shrinks show ?thesis by (auto simp: step remaining_def)
    next
      case True
      with assms shrinks show ?thesis by (intro full [of r2]) (auto simp: step remaining_def r2_def)
    qed
  qed
qed

lemma ReadRecord_loop_returns:
  assumes "remaining ahead r < n" and "remaining ahead r \<le> m" and "remaining ahead r + length scratch \<le> l"
  shows "returns_within ahead m l (ReadRecord_loop n read r frag in_frag scratch prospective)"
  using assms
proof (induction n arbitrary: r frag in_frag scratch prospective)
  case (Suc n)
  obtain t d r' where rp: "ReadPhysicalRecord read r frag = (t, d, r')" by (metis prod_cases3)
  note less = ReadPhysicalRecord_remaining [OF rp]
  show ?case
  proof (cases "t = kEof")
    case True
    with less Suc.prems show ?thesis
      by (auto simp: rp Let_def kEof_def record_types intro!: returns_withinI)
  next
    case False
    have rec: "returns_within ahead m l (ReadRecord_loop n read r'' fr i sc pr)"
      if "remaining ahead r'' = remaining ahead r'" "remaining ahead r' + length sc \<le> l" for r'' fr i sc pr
      using Suc.IH [of r'' sc fr i pr] Suc.prems less False that by simp
    have fin: "returns_within ahead m l (Some (Some rec, r''))"
      if "remaining ahead r'' = remaining ahead r'" "remaining ahead r' + 7 + length rec \<le> l" for r'' rec
      using Suc.prems less False that by (intro returns_withinI) auto
    have fields: "remaining ahead (r''\<lparr>last_record_offset := x\<rparr>) = remaining ahead r''" for r'' :: "'f log_reader" and x
      by (simp add: remaining_def)
    have room: "remaining ahead r' + length scratch \<le> l" using less Suc.prems by linarith
    have frag: "remaining ahead r' + 7 + length d + length scratch \<le> l" if "t \<noteq> kBadRecord" using less Suc.prems False that by auto
    note step = ReadRecord_loop.simps(2) rp prod.case Let_def
    consider "t = kFullType" | "t = kFirstType" | "t = kMiddleType" | "t = kLastType"
      | "t \<notin> {kFullType, kFirstType, kMiddleType, kLastType}" by blast
    then show ?thesis
    proof cases
      case 1
      with frag show ?thesis
        unfolding step by (simp add: record_types kBadRecord_def fin fields del: ReadRecord_loop.simps)
    next
      case 2
      with frag show ?thesis
        unfolding step by (simp add: record_types kBadRecord_def rec del: ReadRecord_loop.simps)
    next
      case 3
      with frag room show ?thesis
        unfolding step by (simp add: record_types kBadRecord_def rec del: ReadRecord_loop.simps)
    next
      case 4
      with frag room show ?thesis
        unfolding step by (simp add: record_types kBadRecord_def rec fin fields del: ReadRecord_loop.simps)
    next
      case 5
      with False room show ?thesis
        unfolding step by (simp add: rec del: ReadRecord_loop.simps)
    qed
  qed
qed simp

lemma SkipToInitialBlock_remaining:
  "SkipToInitialBlock skip r = (go, r') \<Longrightarrow> remaining ahead r' \<le> remaining ahead r"
  by (auto simp: SkipToInitialBlock_def Let_def remaining_def dest: skip_shrinks split: if_splits prod.splits)

lemma ReadRecord_returns:
  assumes "remaining ahead r < n"
  shows "returns_within ahead (remaining ahead r) (remaining ahead r) (ReadRecord n read skip r)"
proof -
  obtain go r' where 1: "(if last_record_offset r < initial_offset r then SkipToInitialBlock skip r else (True, r)) = (go, r')"
    by fastforce
  have le: "remaining ahead r' \<le> remaining ahead r"
    using 1 SkipToInitialBlock_remaining [of r go r'] by (auto split: if_splits)
  have "ReadRecord n read skip r = (if \<not> go then Some (None, r') else ReadRecord_loop n read r' [] False [] 0)"
    by (simp add: ReadRecord_def 1)
  then show ?thesis
    using assms le ReadRecord_loop_returns [of r' n "remaining ahead r" "[]"] by (auto intro: returns_withinI)
qed

theorem read_records_return:
  assumes "remaining ahead r < n" and "remaining ahead r < k"
  shows "\<exists>recs r'. read_records k n read skip r = Some (recs, r') \<and> (\<Sum>x\<leftarrow>recs. 7 + length x) \<le> remaining ahead r"
  using assms
proof (induction k arbitrary: r)
  case (Suc k)
  obtain x r1 where 1: "ReadRecord n read skip r = Some (x, r1)" "remaining ahead r1 \<le> remaining ahead r"
    "\<And>rec. x = Some rec \<Longrightarrow> remaining ahead r1 + 7 + length rec \<le> remaining ahead r"
    using ReadRecord_returns [OF Suc.prems(1)] by (auto simp: returns_within_def)
  show ?case
  proof (cases x)
    case None
    with 1(1) show ?thesis by simp
  next
    case (Some rec)
    with 1(3) have "remaining ahead r1 + 7 + length rec \<le> remaining ahead r" by simp
    moreover with Suc.IH [of r1] Suc.prems obtain recs r' where
      "read_records k n read skip r1 = Some (recs, r')" "(\<Sum>x\<leftarrow>recs. 7 + length x) \<le> remaining ahead r1"
      by auto
    ultimately show ?thesis using 1(1) Some by simp
  qed
qed simp

end

section \<open>Records before anything else\<close>

context seekable_file
begin

text \<open>Whatever follows them, the records at the beginning are read first.\<close>

theorem read_records_first:
  assumes "view ahead r o1 (log_bytes o1 rs @ X)" and "sound (source r)"
    and "length (log_bytes o1 rs @ X) < n" and "length (log_bytes o1 rs @ X) < k"
  shows "\<exists>recs r'. read_records k n read skip r = Some (rs @ recs, r')"
  using assms
proof (induction rs arbitrary: r o1 k)
  case Nil
  then show ?case
    using read_records_return [of r n k] by (auto simp: view_def remaining_def split: if_splits)
next
  case (Cons rec rs)
  obtain k' where k: "k = Suc k'" using Cons.prems(4) by (cases k) auto
  let ?b = "record_bytes o1 rec"
  let ?R = "log_bytes o1 (rec # rs) @ X" and ?S = "log_bytes (o1 + length ?b) rs @ X"
  have "prefix ?R (?b @ ?S)" by simp
  from ReadRecord_next(1) [OF Cons.prems(1,2) this Cons.prems(3), of skip] obtain r' where
    r': "ReadRecord n read skip r = Some (Some rec, r')" "view ahead r' (o1 + length ?b) ?S" "sound (source r')"
    by auto
  have "length ?S < n" "length ?S < k'"
    using Cons.prems(3,4) record_bytes_long [of o1 rec] k by auto
  from Cons.IH [OF r'(2,3) this] show ?case by (auto simp: k r'(1))
qed

end

section \<open>Properties\<close>

lemma new_writer_at: "writer_at buf (log_Writer (new_wfile name held os)) 0"
  by (simp add: writer_at_def log_Writer_def new_wfile_def)

lemma appending_writer_at:
  "length held < 2 ^ 64 \<Longrightarrow> writer_at buf (log_Writer_at (new_wfile name held os) (of_nat (length held))) (length held)"
  by (simp add: writer_at_def log_Writer_at_def new_wfile_def kBlockSize_def uint_nat unat_of_nat64 of_nat_mod)

lemma new_reader_view: "view unread (log_Reader rf report check 0) 0 (unread rf)"
  by (simp add: view_def log_Reader_def)

text \<open>C32: A crash may lose the end of a log file.  Let any records be written to a new log file, through the buffer of
  the POSIX file and with any short writes, interruptions and failures of the system, where no record is appended after
  one that failed (\<open>stopped\<close>; what happens otherwise is the next property), and let any beginning of the file
  survive.  Then reading it returns exactly the records that are there as a whole, in their order, reports no corruption,
  and ends.  (\<open>log_bytes\<close> says which bytes a record takes.)\<close>

theorem log_survives_crash:
  assumes "add_records wfile_Append wfile_Flush (log_Writer (new_wfile name [] os)) rs = (ss, w)" and "stopped ss"
    and "prefix P (contents (dest w))"
    and "undisturbed rf" and "unread rf = P" and "length P < n"
  shows "\<exists>j \<le> length rs. \<exists>r.
    read_records n n rfile_Read rfile_Skip (log_Reader rf True check 0) = Some (take j rs, r) \<and> reporter r = Some [] \<and>
    length (log_bytes 0 (take j rs)) \<le> length P \<and>
    (j < length rs \<longrightarrow> length P < length (log_bytes 0 (take (Suc j) rs)))"
proof -
  obtain p where p: "prefix (log_bytes 0 (take (acknowledged ss) rs) @ p) (log_bytes 0 rs)"
    "contents (dest w) = log_bytes 0 (take (acknowledged ss) rs) @ p"
    using posix_writable.add_records_writes [OF assms(1) new_writer_at] assms(2)
    by (auto simp: log_Writer_def new_wfile_def)
  have "prefix P (log_bytes 0 rs)" using assms(3) p by (metis prefix_order.trans)
  then obtain r where "read_records n n rfile_Read rfile_Skip (log_Reader rf True check 0) =
      Some (whole_records 0 (length P) rs, r)" "unreported (log_Reader rf True check 0) r"
    using posix_sequential.read_records_whole [of "log_Reader rf True check 0" 0 P rs n n rfile_Skip]
      new_reader_view [of rf True check] assms(4-6) by (auto simp: log_Reader_def)
  then show ?thesis
    using whole_records_take [of rs 0 "length P"] by (auto simp: unreported_def log_Reader_def)
qed

text \<open>Three records written through a short write and an interruption; all but nine bytes of the file are lost.\<close>

lemmas small_writes = AddRecord_def AddRecord_loop.simps log_Writer_def new_wfile_def switch_block_def block_avail_def Let_def
  kBlockSize_def kHeaderSize_def EmitPhysicalRecord_def wfile_Append_def wfile_Flush_def FlushBuffer_def
  kWritableFileBufferSize_def WriteUnbuffered.simps

lemma three_records:
  "fst (add_records wfile_Append wfile_Flush (log_Writer (new_wfile [] [] [Moves 3, Interrupted])) [[1, 2, 3], [], [4]]) =
     [OK, OK, OK]"
  by (simp add: small_writes)

theorem log_survives_crash_witness:
  "\<exists>ss w j r. add_records wfile_Append wfile_Flush (log_Writer (new_wfile [] [] [Moves 3, Interrupted]))
      [[1, 2, 3], [], [4]] = (ss, w) \<and>
    read_records 70000 70000 rfile_Read rfile_Skip
      (log_Reader \<lparr>rname = [], unread = take 9 (contents (dest w)), routcomes = [Interrupted]\<rparr> True True 0) =
      Some (take j [[1, 2, 3], [], [4]], r) \<and> reporter r = Some []"
proof -
  obtain ss w where w: "add_records wfile_Append wfile_Flush (log_Writer (new_wfile [] [] [Moves 3, Interrupted]))
      [[1, 2, 3], [], [4]] = (ss, w)"
    by fastforce
  then have "stopped ss" using three_records by simp
  let ?P = "take 9 (contents (dest w))"
  let ?rf = "\<lparr>rname = [], unread = ?P, routcomes = [Interrupted]\<rparr>"
  have "prefix ?P (contents (dest w))" by (rule take_is_prefix)
  moreover have "undisturbed ?rf" "unread ?rf = ?P" "length ?P < 70000" by (simp_all add: undisturbed_def)
  ultimately show ?thesis
    using log_survives_crash [OF w \<open>stopped ss\<close>, of ?P ?rf 70000 True] w by blast
qed

text \<open>C33: Every record that the writer acknowledges before its first failure is in the file, and reading the file returns
  all of them first and in order, whatever the client appends after the failure.  When it appends nothing more,
  exactly these records are read and at most the one more whose writing was not acknowledged, and nothing is
  reported.  Nothing is promised for records acknowledged after a failure: the next property shows one that is lost.\<close>

theorem log_keeps_acknowledged:
  assumes "add_records wfile_Append wfile_Flush (log_Writer (new_wfile name [] os)) rs = (ss, w)"
    and "undisturbed rf" and "unread rf = contents (dest w)" and "length (contents (dest w)) < n"
  defines "k \<equiv> acknowledged ss"
  shows "\<exists>recs r. read_records n n rfile_Read rfile_Skip (log_Reader rf True check 0) = Some (recs, r) \<and>
    prefix (take k rs) recs \<and> list_all ok (take k ss) \<and> (k < length rs \<longrightarrow> \<not> ok (ss ! k)) \<and>
    (stopped ss \<longrightarrow> (recs = take k rs \<or> recs = take (Suc k) rs) \<and> reporter r = Some [])"
proof -
  obtain p where p: "contents (dest w) = log_bytes 0 (take k rs) @ p"
    "stopped ss \<longrightarrow> prefix (contents (dest w)) (log_bytes 0 rs) \<and>
      whole_records 0 (length (contents (dest w))) rs \<in> {take k rs, take (Suc k) rs}"
    using posix_writable.add_records_writes [OF assms(1) new_writer_at]
    by (auto simp: log_Writer_def new_wfile_def k_def)
  have view: "view unread (log_Reader rf True check 0) 0 (contents (dest w))"
    using new_reader_view [of rf True check] assms(3) by simp
  have "length (log_bytes 0 (take k rs) @ p) < n" using assms(4) p(1) by simp
  then obtain recs r where recs: "read_records n n rfile_Read rfile_Skip (log_Reader rf True check 0) = Some (take k rs @ recs, r)"
    using posix_seekable.read_records_first [OF view [unfolded p(1)], of n n] assms(2) by (auto simp: log_Reader_def)
  have "(take k rs @ recs = take k rs \<or> take k rs @ recs = take (Suc k) rs) \<and> reporter r = Some []" if "stopped ss"
  proof -
    have "undisturbed (source (log_Reader rf True check 0))" using assms(2) by (simp add: log_Reader_def)
    from posix_sequential.read_records_whole [OF view this _ assms(4,4)] p(2) that
    obtain r2 where "read_records n n rfile_Read rfile_Skip (log_Reader rf True check 0) =
        Some (whole_records 0 (length (contents (dest w))) rs, r2)" "unreported (log_Reader rf True check 0) r2" by blast
    then show ?thesis using recs p(2) that by (auto simp: unreported_def log_Reader_def)
  qed
  moreover have "list_all ok (take k ss)"
    by (metis k_def acknowledged_def takeWhile_eq_take list_all_iff set_takeWhileD)
  moreover have "k < length rs \<longrightarrow> \<not> ok (ss ! k)"
    using nth_length_takeWhile [of ok ss] add_records_length [OF assms(1)] by (simp add: k_def acknowledged_def)
  ultimately show ?thesis using recs by auto
qed

theorem log_keeps_acknowledged_witness:
  "\<exists>ss w recs r. add_records wfile_Append wfile_Flush (log_Writer (new_wfile [] [] [Moves 3, Fails False [], Moves 0]))
      [[1, 2, 3], [4], [5]] = (ss, w) \<and>
    read_records (Suc (length (contents (dest w)))) (Suc (length (contents (dest w)))) rfile_Read rfile_Skip
      (log_Reader \<lparr>rname = [], unread = contents (dest w), routcomes = []\<rparr> True True 0) = Some (recs, r) \<and>
    prefix (take (acknowledged ss) [[1, 2, 3], [4], [5]]) recs"
proof -
  obtain ss w where w: "add_records wfile_Append wfile_Flush (log_Writer (new_wfile [] [] [Moves 3, Fails False [], Moves 0]))
      [[1, 2, 3], [4], [5]] = (ss, w)"
    by fastforce
  let ?rf = "\<lparr>rname = [], unread = contents (dest w), routcomes = []\<rparr>"
  have "undisturbed ?rf" "unread ?rf = contents (dest w)" "length (contents (dest w)) < Suc (length (contents (dest w)))"
    by (simp_all add: undisturbed_def)
  from log_keeps_acknowledged [OF w this, of True] w show ?thesis by blast
qed

text \<open>
  A header at the end of the file that announces more than there is: the reader takes this for the end of a file that a
  crash has cut off.
\<close>

lemma ReadPhysicalRecord_short:
  assumes "xs = physical_header InitTypeCrc t data @ ys" and "length ys < length data" and "length data < 2 ^ 16"
    and "length xs < 32768"
  shows "\<exists>r. ReadPhysicalRecord rfile_Read (log_Reader \<lparr>rname = [], unread = xs, routcomes = []\<rparr> True check 0) [] = (kEof, [], r) \<and>
    reporter r = Some []"
proof -
  let ?f = "\<lparr>rname = [], unread = xs, routcomes = []\<rparr>"
  let ?r = "(log_Reader ?f True check 0)
    \<lparr>source := ?f\<lparr>unread := []\<rparr>, buffer := xs, end_of_buffer_offset := of_nat (length xs), eof := True\<rparr>"
  have "rfile_Read ?f 32768 = (OK, xs, ?f\<lparr>unread := []\<rparr>)"
    using assms(4) by (subst rfile_Read.simps) simp
  then have "ReadPhysicalRecord rfile_Read (log_Reader ?f True check 0) [] = ReadPhysicalRecord rfile_Read ?r []"
    using assms(4) by (subst ReadPhysicalRecord.simps) (simp add: log_Reader_def)
  also have "\<dots> = parse_physical ?r []"
    using assms(1) by (subst ReadPhysicalRecord_full) simp_all
  also have "\<dots> = (kEof, [], ?r\<lparr>buffer := []\<rparr>)"
    using assms(1-3) by (intro parse_physical_short) simp_all
  finally show ?thesis by (simp add: log_Reader_def)
qed

lemma long_record_fails:
  assumes "length d = 100"
  shows "\<exists>e w. add_records wfile_Append wfile_Flush (log_Writer (new_wfile [] [] [Moves 7, Fails False []])) [d, [1]] = ([e, OK], w) \<and>
    \<not> ok e \<and> contents (dest w) = physical_header InitTypeCrc kFullType d @ physical kFullType [1]"
  using assms by (cases "d = []") (simp_all add: small_writes fragment_type_def PosixError_def Status_def physical_def)

text \<open>C34: The writer goes on after a failure, and what it acknowledges then may be lost.  The system fails the first
  record of this log behind its header, which announces a hundred bytes; the second record is written behind it and
  acknowledged.  Reading the whole file, with and without checksums, returns no record and no report.  (\<open>DBImpl::Write\<close>
  stops writing after a failed \<open>Sync\<close> only, not after a failed \<open>AddRecord\<close>.)\<close>

theorem acknowledged_record_lost:
  "\<exists>e w r. add_records wfile_Append wfile_Flush (log_Writer (new_wfile [] [] [Moves 7, Fails False []]))
      [replicate 100 0, [1]] = ([e, OK], w) \<and> \<not> ok e \<and>
    read_records 70000 70000 rfile_Read rfile_Skip
      (log_Reader \<lparr>rname = [], unread = contents (dest w), routcomes = []\<rparr> True check 0) = Some ([], r) \<and>
    reporter r = Some []"
proof -
  obtain e w where w: "add_records wfile_Append wfile_Flush (log_Writer (new_wfile [] [] [Moves 7, Fails False []]))
      [replicate 100 0, [1]] = ([e, OK], w)" "\<not> ok e"
    "contents (dest w) = physical_header InitTypeCrc kFullType (replicate 100 0) @ physical kFullType [1]"
    using long_record_fails [of "replicate 100 0"] by auto
  let ?r = "log_Reader \<lparr>rname = [], unread = contents (dest w), routcomes = []\<rparr> True check 0"
  obtain r where r: "ReadPhysicalRecord rfile_Read ?r [] = (kEof, [], r)" "reporter r = Some []"
    using ReadPhysicalRecord_short [OF w(3)] by (auto simp: w(3))
  have "ReadRecord (Suc n) rfile_Read rfile_Skip ?r = ReadRecord_loop (Suc n) rfile_Read ?r [] False [] 0" for n
    by (simp add: ReadRecord_def log_Reader_def)
  then have "ReadRecord (Suc n) rfile_Read rfile_Skip ?r = Some (None, r\<lparr>resyncing := False\<rparr>)" for n
    by (simp add: r(1) Let_def kEof_def record_types)
  from this [of 69999] have "ReadRecord 70000 rfile_Read rfile_Skip ?r = Some (None, r\<lparr>resyncing := False\<rparr>)" by simp
  then have "read_records (Suc k) 70000 rfile_Read rfile_Skip ?r = Some ([], r\<lparr>resyncing := False\<rparr>)" for k
    by (simp only: read_records.simps option.case prod.case)
  from this [of 69999] have "read_records 70000 70000 rfile_Read rfile_Skip ?r = Some ([], r\<lparr>resyncing := False\<rparr>)"
    by (simp del: read_records.simps)
  then show ?thesis using w(1,2) r(2) by simp
qed

text \<open>C35: Reading a log ends, whatever the file holds, whatever its calls do (failures and short reads included), where it
  starts and whether checksums are tested: no more than \<open>length (unread rf) + 1\<close> rounds of each loop are
  needed, and the records that it returns, each with a header of seven bytes, are no longer than the file.\<close>

theorem log_reading_ends:
  assumes "length (unread rf) < n"
  shows "\<exists>recs r. read_records n n rfile_Read rfile_Skip (log_Reader rf report check offset) = Some (recs, r) \<and>
    (\<Sum>rec\<leftarrow>recs. 7 + length rec) \<le> length (unread rf)"
  using posix_shrinking.read_records_return [of "log_Reader rf report check offset" n n] assms
  by (simp add: remaining_def log_Reader_def)

text \<open>Forty bytes of garbage, read from offset 3 on by calls that fail and stop short.\<close>

theorem log_reading_ends_witness:
  "\<exists>recs r. read_records 41 41 rfile_Read rfile_Skip
      (log_Reader \<lparr>rname = [], unread = replicate 40 6, routcomes = [Interrupted, Moves 9, Fails False []]\<rparr> True False 3) =
      Some (recs, r) \<and>
    (\<Sum>rec\<leftarrow>recs. 7 + length rec) \<le> 40"
  using log_reading_ends [of "\<lparr>rname = [], unread = replicate 40 6, routcomes = [Interrupted, Moves 9, Fails False []]\<rparr>" 41 True False 3]
  by simp

end
