(* ===== verification/Spec2Isabelle.thy ===== *)
theory Spec2Isabelle
  imports Pb_Decode_Props Pb_Release Pb_Table_Props Base64_Codec Ldb_Coding_Props Ldb_Crc_Props Ldb_Log_Props
begin

text \<open>
  \<^bold>\<open>What is verified.\<close>  The repository is a weather application for iOS with its dependencies under
  \<open>src/WeatherApp/Pods\<close>.  The program logic in C and C++ that it ships lies in three of them, and this development
  models it function by function:

    \<^item> nanopb (\<open>Pods/nanopb\<close>), which encodes and decodes the protocol buffers in which GoogleDataTransport and
      FirebaseCoreDiagnostics report to their servers, with the tables that its generator made for the three
      protocols in use;
    \<^item> the base64 codec of the web socket of FirebaseDatabase (\<open>third_party/SocketRocket/fbase64.c\<close>);
    \<^item> LevelDB (\<open>Pods/leveldb-library\<close>), the store behind the offline cache of the database: its byte encodings,
      its checksum and its write-ahead log.

  \<^bold>\<open>Conventions.\<close>  Machine integers are words of their width (\<open>u8\<close>, \<open>u32\<close>, \<open>u64\<close>, \<open>size_t\<close> and pointers of 64 bits),
  so all arithmetic wraps as in C.  Structures that the code keeps in variables are records; structures that the code
  reaches through descriptors lie in a byte memory (\<open>Pb_Memory\<close>) at the offsets the compiler gives them
  (\<open>Pb_Fields\<close>).  Operations are functions on explicit state; errors are values of an option or of a result type.
  Where C leaves behaviour open (reading behind a buffer), the model reads zeros and the properties show that it does
  not happen.  \<open>Pb_Prelude\<close> holds the types, the little-endian encodings and the lemmas on words and lists.

  \<^bold>\<open>nanopb: streams.\<close>  \<open>Pb_Types\<close> has the type codes, descriptors and messages of \<open>pb.h\<close>.  \<open>Pb_IStream\<close> and
  \<open>Pb_OStream\<close> are the stream level of \<open>pb_decode.c\<close> and \<open>pb_encode.c\<close>: a stream is a record with its source or sink
  (a buffer, a callback or nothing), the bytes left and the error.  \<open>Pb_Reader\<close> and \<open>Pb_Writer\<close> state, as the locales
  \<open>buf_reader\<close> and \<open>buf_writer\<close>, what a read or write operation does to a buffer stream, and instantiate them for every
  operation.  \<open>Pb_Stream_Rel\<close> lifts relations between the streams before and after a single read to all operations
  (\<open>stream_relation\<close>): errors are kept, the bytes left never grow.  \<open>Pb_Varint\<close>, \<open>Pb_Varint32\<close>, \<open>Pb_Wire\<close> and
  \<open>Pb_Substream\<close> give the bytes of each wire format and what the readers make of them; \<open>Pb_Stream_Props\<close> joins both
  sides (locale \<open>wire_codec\<close>) in the round trips, the bounds and the error behaviour of the stream level.

  \<^bold>\<open>nanopb: messages.\<close>  \<open>Pb_Iter\<close> models the field iterators of \<open>pb_common.c\<close>; \<open>Pb_Iter_Props\<close> shows that they visit
  the entries in order and find what there is.  \<open>Pb_Memory\<close> has memory and the allocator, \<open>Pb_Defaults\<close> the default
  values and the release of a message, \<open>Pb_Decode\<close> and \<open>Pb_Encode\<close> the decoder and the encoder with all field kinds:
  static, pointer, callback, oneof, packed arrays, extensions, submessages.  \<open>Pb_Encode_Spec\<close> is a reference encoder, a
  function from memory to bytes; \<open>Pb_Encode_Correct\<close> proves inside the locale \<open>encoder\<close> that \<open>pb_encode\<close> refines it;
  \<open>Pb_Encode_Total\<close> that it returns; \<open>Pb_Encode_Safe\<close> instantiates the locale for the three protocols;
  \<open>Pb_Encode_Props\<close> applies this to the callers, which size a message and then write it.  \<open>Pb_Codec\<close> proves for each
  value type that the decoder inverts the encoder (locale \<open>field_codec\<close>, which \<open>scalar_codec\<close> gives for the types stored in
  place; bytes and strings behind a pointer go to a new block).  \<open>Pb_Layout\<close> describes the structures
  whose members lie inside their size, and \<open>Pb_Decode_Safe\<close> shows for them that the decoder, on any input at all,
  returns and writes only to the structure and to blocks it allocated; \<open>Pb_Decode_Props\<close> states this for
  \<open>pb_decode\<close> and for the response of the log server.  \<open>Pb_Release\<close> shows which blocks the release of a pointer frees,
  single and repeated, and that a second release does nothing.

  \<^bold>\<open>nanopb: tables.\<close>  \<open>Pb_Fields\<close> models the macros that descriptor arrays are written with, over the layout of C
  structures; \<open>Cct_Messages\<close>, \<open>Client_Metrics_Messages\<close> and \<open>Firebase_Core_Messages\<close> transcribe the generated files,
  and \<open>Pb_Table_Props\<close> shows for every table that the iterators point to the members of the structure.

  \<^bold>\<open>base64.\<close>  \<open>Base64\<close> models \<open>f_b64_ntop\<close>, \<open>f_b64_pton\<close> and their callers, \<open>Base64_Codec\<close> proves them against RFC 4648.

  \<^bold>\<open>LevelDB.\<close>  A \<open>std::string\<close> and a \<open>Slice\<close> are lists of bytes.  \<open>Ldb_Coding\<close> is \<open>util/coding\<close>, \<open>Ldb_Coding_Props\<close> its
  round trips, and shows that its varints are those of nanopb.  \<open>Ldb_Crc_Tables\<close> and \<open>Ldb_Crc\<close> are \<open>util/crc32c\<close>;
  \<open>Ldb_Crc_Props\<close> proves the four-stride routine equal to the bit-by-bit definition of CRC-32C.

  \<open>Ldb_Env\<close> has the status values and the files of \<open>util/env_posix.cc\<close>, over an operating system that is a list of
  outcomes of its next calls.  What the clients of a file rely on are the locales \<open>writable_file\<close>, \<open>durable_file\<close>,
  \<open>sequential_file\<close>, \<open>shrinking_file\<close> and \<open>seekable_file\<close>, interpreted on the POSIX files in the same theory.  \<open>Ldb_Log\<close> is the
  write-ahead log (\<open>db/log_writer.cc\<close>, \<open>db/log_reader.cc\<close>) over any such files.  \<open>Ldb_Log_Format\<close> says which bytes a record
  takes and shows, inside \<open>writable_file\<close>, that the writer writes them or, when it fails, a beginning of them;
  \<open>Ldb_Log_Read\<close> shows, inside \<open>sequential_file\<close>, that the reader gives back the records of any beginning of such bytes;
  \<open>Ldb_Log_Props\<close> joins both: what survives a crash, what an acknowledgement is worth (one after a failed write is worth nothing), and that reading ends on any file.

  \<^bold>\<open>Parameters.\<close>  The callbacks that a program hangs into streams and messages, the place where \<open>realloc\<close> puts a block
  and the addresses of constant tables are arguments of the definitions; what is assumed of them is a hypothesis of the
  property, with a witness that meets it.

  \<^bold>\<open>Fuel.\<close>  Messages nest by pointers, so \<open>pb_encode\<close>, \<open>pb_decode\<close> and \<open>pb_release\<close> recur with a fuel for the depth, and
  loops whose body is a callback have one for their length; the loop of \<open>ReadRecord\<close> has one for the physical records.  The properties name an amount that is enough (the depth of
  the schema, the length of the input, the length of the file), so no result depends on it.

  \<^bold>\<open>Not modelled.\<close>  Application code in Swift and Objective-C, which calls frameworks of the platform; the parts of
  LevelDB listed as such in the manifest.  Branches that the configuration of the pods switches off
  (\<open>PB_BUFFER_ONLY\<close>, \<open>PB_NO_ERRMSG\<close>, \<open>PB_OLD_CALLBACK_STYLE\<close>, \<open>HAVE_CRC32C\<close>).
\<close>

end
